theory Spec2Isabelle
  imports Main "HOL-Library.Word"
begin

section \<open>JavaScript strings\<close>

text \<open>
  A JavaScript string is a sequence of UTF-16 code units; \<open>length\<close>, \<open>slice\<close>, \<open>trim\<close>
  and a regular expression without the \<open>u\<close> flag all work on code units. Literals of
  the source are written \<open>js ''...''\<close>; a code unit outside ASCII is written as a number.
\<close>

type_synonym jschar = "16 word"
type_synonym jsstring = "jschar list"

definition js :: "string \<Rightarrow> jsstring" where
  "js s = map (\<lambda>c. of_nat (of_char c)) s"

text \<open>
  ECMAScript's WhiteSpace and LineTerminator code units: what \<open>trim()\<close> strips and what
  \<open>\s\<close> matches.
\<close>

definition isWhiteSpace :: "jschar \<Rightarrow> bool" where
  "isWhiteSpace c =
     (c = 0x09 \<or> c = 0x0A \<or> c = 0x0B \<or> c = 0x0C \<or> c = 0x0D \<or> c = 0x20 \<or> c = 0xA0 \<or>
      c = 0x1680 \<or> (0x2000 \<le> c \<and> c \<le> 0x200A) \<or> c = 0x2028 \<or> c = 0x2029 \<or>
      c = 0x202F \<or> c = 0x205F \<or> c = 0x3000 \<or> c = 0xFEFF)"

definition trim :: "jsstring \<Rightarrow> jsstring" where
  "trim s = rev (dropWhile isWhiteSpace (rev (dropWhile isWhiteSpace s)))"

text \<open>
  \<open>toLowerCase()\<close>. On a string of ASCII and Latin-1 code units it works code unit by
  code unit: \<open>A\<close>-\<open>Z\<close>, and \<open>0xC0\<close>-\<open>0xDE\<close> but the multiplication sign \<open>0xD7\<close>, move up
  by \<open>0x20\<close>, and every other code unit below \<open>0x100\<close> stays. On a string that holds a
  code unit from \<open>0x100\<close> on, the result comes from the Unicode case tables of the
  JavaScript runtime (with their special cases, which can change the length); these are
  no part of the repository, so the function takes the runtime's answer on such strings
  as its first argument.
\<close>

definition lowerUnit :: "jschar \<Rightarrow> jschar" where
  "lowerUnit c =
     (if (0x41 \<le> c \<and> c \<le> 0x5A) \<or> (0xC0 \<le> c \<and> c \<le> 0xDE \<and> c \<noteq> 0xD7)
      then c + 0x20 else c)"

definition toLowerCase :: "(jsstring \<Rightarrow> jsstring) \<Rightarrow> jsstring \<Rightarrow> jsstring" where
  "toLowerCase beyond s = (if list_all (\<lambda>c. c < 0x100) s then map lowerUnit s else beyond s)"

fun startsWith :: "jsstring \<Rightarrow> jsstring \<Rightarrow> bool" where
  "startsWith s [] = True"
| "startsWith [] (p # ps) = False"
| "startsWith (c # cs) (p # ps) = (c = p \<and> startsWith cs ps)"

text \<open>\<open>s.includes(p)\<close>: \<open>p\<close> occurs in \<open>s\<close> as a contiguous run.\<close>

fun str_includes :: "jsstring \<Rightarrow> jsstring \<Rightarrow> bool" where
  "str_includes [] p = startsWith [] p"
| "str_includes (c # cs) p = (startsWith (c # cs) p \<or> str_includes cs p)"

text \<open>\<open>s.split(sep)\<close> for a separator of one code unit; the result is never empty.\<close>

fun split_on :: "jschar \<Rightarrow> jsstring \<Rightarrow> jsstring list" where
  "split_on sep [] = [[]]"
| "split_on sep (c # cs) =
     (if c = sep then [] # split_on sep cs
      else (case split_on sep cs of [] \<Rightarrow> [[c]] | seg # segs \<Rightarrow> (c # seg) # segs))"

text \<open>
  \<open>s.replace(/c/g, rep)\<close> for a pattern of one code unit and a replacement without
  \<open>$\<close>: every occurrence of \<open>c\<close> becomes \<open>rep\<close>.
\<close>

definition replaceAll :: "jschar \<Rightarrow> jsstring \<Rightarrow> jsstring \<Rightarrow> jsstring" where
  "replaceAll c rep s = concat (map (\<lambda>x. if x = c then rep else [x]) s)"

text \<open>
  \<open>a || b\<close> on values that are a string or \<open>undefined\<close>: the empty string and
  \<open>undefined\<close> are falsy. \<open>None\<close> is \<open>undefined\<close>.
\<close>

definition truthy :: "jsstring option \<Rightarrow> bool" where
  "truthy a = (case a of None \<Rightarrow> False | Some s \<Rightarrow> s \<noteq> [])"

definition orElse :: "jsstring option \<Rightarrow> jsstring option \<Rightarrow> jsstring option" where
  "orElse a b = (if truthy a then a else b)"

definition orText :: "jsstring option \<Rightarrow> jsstring \<Rightarrow> jsstring" where
  "orText a d = (case a of None \<Rightarrow> d | Some s \<Rightarrow> if s \<noteq> [] then s else d)"

section \<open>Regular expressions\<close>

text \<open>
  The regular expressions of the source use character classes, sequence, \<open>+\<close>, \<open>?\<close> and
  \<open>{n,}\<close>. \<open>RegExp.prototype.test\<close> answers whether some match exists, which is membership
  in the language of the expression; it is computed here with derivatives.
\<close>

datatype rexp =
  Fail
  | Eps
  | Chr "jschar \<Rightarrow> bool"
  | Alt rexp rexp
  | Seq rexp rexp
  | Star rexp

fun nullable :: "rexp \<Rightarrow> bool" where
  "nullable Fail = False"
| "nullable Eps = True"
| "nullable (Chr p) = False"
| "nullable (Alt r s) = (nullable r \<or> nullable s)"
| "nullable (Seq r s) = (nullable r \<and> nullable s)"
| "nullable (Star r) = True"

fun alt :: "rexp \<Rightarrow> rexp \<Rightarrow> rexp" where
  "alt Fail s = s"
| "alt r Fail = r"
| "alt r s = Alt r s"

fun seq :: "rexp \<Rightarrow> rexp \<Rightarrow> rexp" where
  "seq Fail s = Fail"
| "seq Eps s = s"
| "seq r s = Seq r s"

fun deriv :: "jschar \<Rightarrow> rexp \<Rightarrow> rexp" where
  "deriv c Fail = Fail"
| "deriv c Eps = Fail"
| "deriv c (Chr p) = (if p c then Eps else Fail)"
| "deriv c (Alt r s) = alt (deriv c r) (deriv c s)"
| "deriv c (Seq r s) =
     (if nullable r then alt (seq (deriv c r) s) (deriv c s) else seq (deriv c r) s)"
| "deriv c (Star r) = seq (deriv c r) (Star r)"

fun matches :: "rexp \<Rightarrow> jsstring \<Rightarrow> bool" where
  "matches r [] = nullable r"
| "matches r (c # cs) = matches (deriv c r) cs"

text \<open>\<open>r+\<close>, \<open>r{n,}\<close> and the class of every code unit.\<close>

definition plus1 :: "rexp \<Rightarrow> rexp" where
  "plus1 r = Seq r (Star r)"

fun atLeast_rep :: "nat \<Rightarrow> rexp \<Rightarrow> rexp" where
  "atLeast_rep 0 r = Star r"
| "atLeast_rep (Suc n) r = Seq r (atLeast_rep n r)"

definition anyUnit :: rexp where
  "anyUnit = Chr (\<lambda>c. True)"

text \<open>
  \<open>/^r$/.test(s)\<close> (no \<open>m\<close> flag): the whole string matches. \<open>/r/.test(s)\<close>: some
  substring matches.
\<close>

definition test_anchored :: "rexp \<Rightarrow> jsstring \<Rightarrow> bool" where
  "test_anchored r s = matches r s"

definition test_search :: "rexp \<Rightarrow> jsstring \<Rightarrow> bool" where
  "test_search r s = matches (Seq (Star anyUnit) (Seq r (Star anyUnit))) s"

text \<open>
  What the matcher is to decide: the language of an expression, the set of the strings
  it matches as a whole.
\<close>

inductive_set kleene :: "jsstring set \<Rightarrow> jsstring set" for L :: "jsstring set" where
  kleene_empty: "[] \<in> kleene L"
| kleene_more: "u \<in> L \<Longrightarrow> v \<in> kleene L \<Longrightarrow> u @ v \<in> kleene L"

fun lang :: "rexp \<Rightarrow> jsstring set" where
  "lang Fail = {}"
| "lang Eps = {[]}"
| "lang (Chr p) = {[c] | c. p c}"
| "lang (Alt r s) = lang r \<union> lang s"
| "lang (Seq r s) = {u @ v | u v. u \<in> lang r \<and> v \<in> lang s}"
| "lang (Star r) = kleene (lang r)"

section \<open>The abuse tracker of \<open>api/contact.js\<close>\<close>

text \<open>
  The module keeps three variables for the life of the process: \<open>hits\<close> and \<open>badHits\<close>,
  arrays of \<open>{ip, time}\<close>, and \<open>blocked\<close>, a \<open>Map\<close> from an IP to the time its block ends.
  Times are what \<open>Date.now()\<close> returns, milliseconds as an integer. Every call of
  \<open>Date.now()\<close> is an argument of the function that makes it, in the order of the calls.
\<close>

record hit =
  ip :: jsstring
  time :: int

record tracker =
  hits :: "hit list"
  blocked :: "jsstring \<rightharpoonup> int"
  badHits :: "hit list"

definition WINDOW_MS :: int where
  "WINDOW_MS = 60 * 1000"

definition MAX_PER_WINDOW :: nat where
  "MAX_PER_WINDOW = 5"

definition rateLimited :: "jsstring \<Rightarrow> int \<Rightarrow> tracker \<Rightarrow> bool \<times> tracker" where
  "rateLimited i now t =
     (let hs = filter (\<lambda>h. now - time h < WINDOW_MS) (hits t);
          count = length (filter (\<lambda>h. ip h = i) hs)
      in if count \<ge> MAX_PER_WINDOW then (True, t\<lparr>hits := hs\<rparr>)
         else (False, t\<lparr>hits := hs @ [\<lparr>ip = i, time = now\<rparr>]\<rparr>))"

definition BLOCK_MS :: int where
  "BLOCK_MS = 60 * 60 * 1000"

text \<open>
  \<open>isBlocked\<close> reads the clock up to twice (\<open>now1\<close>, then \<open>now2\<close>). \<open>until &&\<close> is false
  for a missing entry and for the number 0.
\<close>

definition isBlocked :: "jsstring \<Rightarrow> int \<Rightarrow> int \<Rightarrow> tracker \<Rightarrow> bool \<times> tracker" where
  "isBlocked i now1 now2 t =
     (case blocked t i of
        None \<Rightarrow> (False, t)
      | Some until \<Rightarrow>
          if until \<noteq> 0 \<and> now1 < until then (True, t)
          else if until \<noteq> 0 \<and> now2 \<ge> until then (False, t\<lparr>blocked := (blocked t)(i := None)\<rparr>)
          else (False, t))"

definition punish :: "jsstring \<Rightarrow> int \<Rightarrow> int \<Rightarrow> tracker \<Rightarrow> tracker" where
  "punish i ms now t = t\<lparr>blocked := (blocked t)(i \<mapsto> now + ms)\<rparr>"

text \<open>\<open>markBad\<close> reads the clock once (\<open>now\<close>); \<open>punish\<close>, when called, reads it again.\<close>

definition markBad :: "jsstring \<Rightarrow> int \<Rightarrow> int \<Rightarrow> tracker \<Rightarrow> tracker" where
  "markBad i now nowP t =
     (let bh = filter (\<lambda>h. now - time h < 10 * 60 * 1000) (badHits t @ [\<lparr>ip = i, time = now\<rparr>]);
          count = length (filter (\<lambda>h. ip h = i) bh);
          t1 = t\<lparr>badHits := bh\<rparr>
      in if count \<ge> 8 then punish i BLOCK_MS nowP t1 else t1)"

section \<open>Field guards and heuristics\<close>

definition MAX_MESSAGE_LEN :: nat where
  "MAX_MESSAGE_LEN = 5000"

definition MAX_NAME_LEN :: nat where
  "MAX_NAME_LEN = 120"

definition MAX_ORG_LEN :: nat where
  "MAX_ORG_LEN = 200"

definition MAX_INTEREST_LEN :: nat where
  "MAX_INTEREST_LEN = 80"

definition notSpaceOrAt :: "jschar \<Rightarrow> bool" where
  "notSpaceOrAt c = (\<not> isWhiteSpace c \<and> c \<noteq> 0x40)"

text \<open>\<open>/^[^\s@]+@[^\s@]+\.[^\s@]+$/\<close>\<close>

definition emailRegex :: rexp where
  "emailRegex =
     Seq (plus1 (Chr notSpaceOrAt))
       (Seq (Chr (\<lambda>c. c = 0x40))
         (Seq (plus1 (Chr notSpaceOrAt))
           (Seq (Chr (\<lambda>c. c = 0x2E)) (plus1 (Chr notSpaceOrAt)))))"

definition notSpace :: "jschar \<Rightarrow> bool" where
  "notSpace c = (\<not> isWhiteSpace c)"

text \<open>\<open>/\S+\s+\S+/.test(s)\<close>\<close>

definition hasTwoWords :: "jsstring \<Rightarrow> bool" where
  "hasTwoWords s =
     test_search (Seq (plus1 (Chr notSpace)) (Seq (plus1 (Chr isWhiteSpace)) (plus1 (Chr notSpace)))) s"

text \<open>
  With the \<open>i\<close> flag and no \<open>u\<close> flag a code unit from 128 on never matches an ASCII
  letter, so \<open>[a-z]\<close> under \<open>i\<close> is the ASCII letters of both cases.
\<close>

definition isLetter :: "jschar \<Rightarrow> bool" where
  "isLetter c = ((0x41 \<le> c \<and> c \<le> 0x5A) \<or> (0x61 \<le> c \<and> c \<le> 0x7A))"

definition isVowel :: "jschar \<Rightarrow> bool" where
  "isVowel c = (lowerUnit c = 0x61 \<or> lowerUnit c = 0x65 \<or> lowerUnit c = 0x69 \<or>
                lowerUnit c = 0x6F \<or> lowerUnit c = 0x75)"

definition isConsonant :: "jschar \<Rightarrow> bool" where
  "isConsonant c = (isLetter c \<and> \<not> isVowel c)"

definition isBase64Unit :: "jschar \<Rightarrow> bool" where
  "isBase64Unit c =
     (isLetter c \<or> (0x30 \<le> c \<and> c \<le> 0x39) \<or> c = 0x2B \<or> c = 0x2F \<or> c = 0x3D)"

text \<open>
  \<open>(s.match(/https?:\/\//gi) || []).length\<close>: the matches are taken from left to right,
  each search starting where the last match ended.
\<close>

definition unitCI :: "char \<Rightarrow> jschar \<Rightarrow> bool" where
  "unitCI p c = (lowerUnit c = of_nat (of_char p) \<and> c < 0x80)"

fun startsWithCI :: "jsstring \<Rightarrow> string \<Rightarrow> bool" where
  "startsWithCI s [] = True"
| "startsWithCI [] (p # ps) = False"
| "startsWithCI (c # cs) (p # ps) = (unitCI p c \<and> startsWithCI cs ps)"

function urlCount :: "jsstring \<Rightarrow> nat" where
  "urlCount s =
     (if s = [] then 0
      else if startsWithCI s ''https://'' then Suc (urlCount (drop 8 s))
      else if startsWithCI s ''http://'' then Suc (urlCount (drop 7 s))
      else urlCount (tl s))"
  by pat_completeness auto
termination
  by (relation "measure length") auto

definition tooManyUrls :: "jsstring \<Rightarrow> bool" where
  "tooManyUrls s = (urlCount s > 2)"

text \<open>
  \<open>looksGibberish\<close>. \<open>ratio = vow / t.length\<close> is a quotient of two integers below
  \<open>2^53\<close> rounded to a double, and \<open>0.15\<close> and \<open>0.7\<close> are the doubles nearest to
  \<open>3/20\<close> and \<open>7/10\<close>. Rounding is monotone and \<open>vow / t.length\<close> differs from
  \<open>3/20\<close> (and from \<open>7/10\<close>), when it differs at all, by at least \<open>1 / (20 * t.length)\<close>, far more
  than the spacing of doubles for any length a request can have: the two comparisons are
  those of the exact fractions, written here without division.
\<close>

definition looksGibberish :: "jsstring \<Rightarrow> bool" where
  "looksGibberish s =
     (let t = filter isLetter s;
          vow = length (filter isVowel t)
      in if t = [] then True
         else if 20 * vow < 3 * length t \<or> 10 * vow > 7 * length t then True
         else if test_search (atLeast_rep 6 (Chr isConsonant)) t then True
         else if test_anchored (atLeast_rep 20 (Chr isBase64Unit)) s then True
         else False)"

definition escapeHtml :: "jsstring \<Rightarrow> jsstring" where
  "escapeHtml s =
     replaceAll 0x22 (js ''&quot;'')
       (replaceAll 0x3E (js ''&gt;'')
         (replaceAll 0x3C (js ''&lt;'')
           (replaceAll 0x26 (js ''&amp;'') s)))"

section \<open>The request handler of \<open>api/contact.js\<close>\<close>

text \<open>
  A request as the handler reads it: the method, the two headers it looks at, the remote
  address of the socket, and the fields of the parsed JSON body. The spec's data model
  makes every field a plain string; a field the body does not hold (and a body that is
  missing) is \<open>None\<close>.
\<close>

record form =
  name :: "jsstring option"
  email :: "jsstring option"
  organization :: "jsstring option"
  interest :: "jsstring option"
  org :: "jsstring option"
  topic :: "jsstring option"
  message :: "jsstring option"
  gotcha :: "jsstring option"
  turnstile_response :: "jsstring option"

record request =
  req_method :: jsstring
  content_type :: "jsstring option"
  x_forwarded_for :: "jsstring option"
  remoteAddress :: "jsstring option"
  body :: form

record response =
  status :: nat
  ok :: bool
  error :: "jsstring option"

definition reject :: "nat \<Rightarrow> jsstring \<Rightarrow> response" where
  "reject code msg = \<lparr>status = code, ok = False, error = Some msg\<rparr>"

definition accept :: response where
  "accept = \<lparr>status = 200, ok = True, error = None\<rparr>"

text \<open>
  What an awaited call does: it returns, or it throws a value \<open>e\<close>, of which the handler
  reads \<open>e.code\<close>, \<open>e.response\<close>, \<open>e.message\<close> and \<open>String(e)\<close>.
\<close>

record thrown =
  e_code :: "jsstring option"
  e_response :: "jsstring option"
  e_message :: "jsstring option"
  e_string :: jsstring

datatype 'a outcome = Returns 'a | Throws thrown

text \<open>
  The world of one invocation: the readings of \<open>Date.now()\<close>, whether the verification
  service answers with a truthy \<open>success\<close>, the process environment, what the two
  SMTP calls do, and what the runtime's \<open>toLowerCase\<close> returns on a string that holds a
  code unit from \<open>0x100\<close> on.
\<close>

record env =
  now_isBlocked1 :: int
  now_isBlocked2 :: int
  now_rateLimited :: int
  now_markBad :: int
  now_punish :: int
  siteverify :: "bool outcome"
  process_env :: "string \<Rightarrow> jsstring option"
  transporter_verify :: "unit outcome"
  transporter_sendMail :: "unit outcome"
  lower_beyond_latin1 :: "jsstring \<Rightarrow> jsstring"

record transport =
  host :: jsstring
  port :: jsstring
  secure :: bool
  auth_user :: jsstring
  auth_pass :: jsstring

record mail =
  mail_from :: jsstring
  mail_to :: jsstring
  replyTo :: jsstring
  subject :: jsstring
  mail_text :: jsstring
  html :: jsstring

text \<open>What the handler does to the outside, in order.\<close>

datatype effect =
  Fetch_siteverify jsstring jsstring jsstring
  | Console_error
  | Transporter_verify transport
  | Transporter_sendMail transport mail

record reply =
  resp :: response
  effects :: "effect list"
  state :: tracker

text \<open>
  \<open>req.headers["x-forwarded-for"]?.split(",")[0]?.trim() || req.socket?.remoteAddress || "unknown"\<close>
\<close>

definition client_ip :: "request \<Rightarrow> jsstring" where
  "client_ip r =
     (let forwarded =
            (case x_forwarded_for r of
               None \<Rightarrow> None
             | Some h \<Rightarrow> (case split_on 0x2C h of [] \<Rightarrow> None | first # rest \<Rightarrow> Some (trim first)))
      in orText (orElse forwarded (remoteAddress r)) (js ''unknown''))"

text \<open>\<open>_gotcha && String(_gotcha).trim()\<close>\<close>

definition honeypot :: "form \<Rightarrow> bool" where
  "honeypot b = (case gotcha b of None \<Rightarrow> False | Some g \<Rightarrow> g \<noteq> [] \<and> trim g \<noteq> [])"

text \<open>The normalised inputs, \<open>clean = s => String(s || "").trim()\<close>.\<close>

definition clean :: "jsstring option \<Rightarrow> jsstring" where
  "clean s = trim (orText s [])"

record fields =
  vName :: jsstring
  vEmail :: jsstring
  vOrg :: jsstring
  vInterest :: jsstring
  vMessage :: jsstring

definition normalize_inputs :: "env \<Rightarrow> form \<Rightarrow> fields" where
  "normalize_inputs e b =
     \<lparr>vName = take MAX_NAME_LEN (clean (name b)),
      vEmail = toLowerCase (lower_beyond_latin1 e) (clean (email b)),
      vOrg = take MAX_ORG_LEN (clean (orElse (organization b) (org b))),
      vInterest = take MAX_INTEREST_LEN (clean (orElse (interest b) (topic b))),
      vMessage = take MAX_MESSAGE_LEN (clean (message b))\<rparr>"

text \<open>
  The checks of the normalised fields, in the order of the source: the first that fails
  gives the response and the tracker it leaves; \<open>None\<close> when all pass.
\<close>

definition check_fields :: "env \<Rightarrow> jsstring \<Rightarrow> fields \<Rightarrow> tracker \<Rightarrow> (response \<times> tracker) option" where
  "check_fields e i f t =
     (if vName f = [] \<or> vEmail f = [] \<or> vMessage f = [] then
        Some (reject 400 (js ''name, email and message are required.''), t)
      else if \<not> test_anchored emailRegex (vEmail f) then
        Some (reject 400 (js ''Invalid email.''), markBad i (now_markBad e) (now_punish e) t)
      else if \<not> hasTwoWords (vName f) \<or> looksGibberish (vName f) then
        Some (reject 400 (js ''Invalid name.''), markBad i (now_markBad e) (now_punish e) t)
      else if vOrg f \<noteq> [] \<and> looksGibberish (vOrg f) then
        Some (reject 400 (js ''Invalid organization.''), markBad i (now_markBad e) (now_punish e) t)
      else if length (vMessage f) < 20 \<or> tooManyUrls (vMessage f) \<or> looksGibberish (vMessage f) then
        Some (reject 400 (js ''Invalid message.''), markBad i (now_markBad e) (now_punish e) t)
      else None)"

text \<open>The bodies of the message. \<open>0x2014\<close> is the dash of the subject line.\<close>

definition subject_line :: "fields \<Rightarrow> jsstring" where
  "subject_line f = js ''Nuevo contacto '' @ [0x2014] @ js '' '' @ vName f"

definition dash_if_empty :: "jsstring \<Rightarrow> jsstring" where
  "dash_if_empty s = (if s \<noteq> [] then s else js ''-'')"

definition text_body :: "fields \<Rightarrow> jsstring" where
  "text_body f =
     js ''Nombre: '' @ vName f @ [0x0A] @
     js ''Email: '' @ vEmail f @ [0x0A] @
     js ''Organizaci'' @ [0xF3] @ js ''n: '' @ dash_if_empty (vOrg f) @ [0x0A] @
     js ''Inter'' @ [0xE9] @ js ''s: '' @ dash_if_empty (vInterest f) @ [0x0A] @
     [0x0A] @
     js ''Mensaje:'' @ [0x0A] @
     vMessage f"

definition html_body :: "fields \<Rightarrow> jsstring \<Rightarrow> jsstring" where
  "html_body f i =
     [0x0A] @ js ''      <h2>Nuevo contacto (SustTech)</h2>'' @ [0x0A] @
     js ''      <p><b>Nombre:</b> '' @ escapeHtml (vName f) @ js ''</p>'' @ [0x0A] @
     js ''      <p><b>Email:</b> '' @ escapeHtml (vEmail f) @ js ''</p>'' @ [0x0A] @
     js ''      <p><b>Organizaci'' @ [0xF3] @ js ''n:</b> '' @
       escapeHtml (dash_if_empty (vOrg f)) @ js ''</p>'' @ [0x0A] @
     js ''      <p><b>Inter'' @ [0xE9] @ js ''s:</b> '' @
       escapeHtml (dash_if_empty (vInterest f)) @ js ''</p>'' @ [0x0A] @
     js ''      <p><b>Mensaje:</b><br>'' @
       replaceAll 0x0A (js ''<br>'') (escapeHtml (vMessage f)) @ js ''</p>'' @ [0x0A] @
     js ''      <hr>'' @ [0x0A] @
     js ''      <p style='' @ [0x22] @ js ''font-size:12px;color:#64748b'' @ [0x22] @ js ''>IP: '' @
       escapeHtml i @ js ''</p>'' @ [0x0A] @
     js ''    ''"

text \<open>
  The literal text of the HTML template, around six pieces that are already markup, and
  the replacement of one code unit by \<open>escapeHtml\<close>, for stating what \<open>html_body\<close>
  interpolates.
\<close>

definition html_template ::
  "jsstring \<Rightarrow> jsstring \<Rightarrow> jsstring \<Rightarrow> jsstring \<Rightarrow> jsstring \<Rightarrow> jsstring \<Rightarrow> jsstring" where
  "html_template pName pEmail pOrg pInterest pMessage pIp =
     [0x0A] @ js ''      <h2>Nuevo contacto (SustTech)</h2>'' @ [0x0A] @
     js ''      <p><b>Nombre:</b> '' @ pName @ js ''</p>'' @ [0x0A] @
     js ''      <p><b>Email:</b> '' @ pEmail @ js ''</p>'' @ [0x0A] @
     js ''      <p><b>Organizaci'' @ [0xF3] @ js ''n:</b> '' @ pOrg @ js ''</p>'' @ [0x0A] @
     js ''      <p><b>Inter'' @ [0xE9] @ js ''s:</b> '' @ pInterest @ js ''</p>'' @ [0x0A] @
     js ''      <p><b>Mensaje:</b><br>'' @ pMessage @ js ''</p>'' @ [0x0A] @
     js ''      <hr>'' @ [0x0A] @
     js ''      <p style='' @ [0x22] @ js ''font-size:12px;color:#64748b'' @ [0x22] @ js ''>IP: '' @
       pIp @ js ''</p>'' @ [0x0A] @
     js ''    ''"

definition escapeUnit :: "jschar \<Rightarrow> jsstring" where
  "escapeUnit c =
     (if c = 0x26 then js ''&amp;'' else if c = 0x3C then js ''&lt;''
      else if c = 0x3E then js ''&gt;'' else if c = 0x22 then js ''&quot;'' else [c])"

definition entityAt :: "jsstring \<Rightarrow> bool" where
  "entityAt s = (startsWith s (js ''&amp;'') \<or> startsWith s (js ''&lt;'') \<or>
                 startsWith s (js ''&gt;'') \<or> startsWith s (js ''&quot;''))"

text \<open>
  The environment mapping (\<open>SMTP_*\<close> first, \<open>M365_*\<close> as fallback) and the transporter.
  \<open>port\<close> holds the text given to \<open>Number\<close>.
\<close>

definition SMTP_USER :: "env \<Rightarrow> jsstring option" where
  "SMTP_USER e = orElse (process_env e ''SMTP_USER'') (process_env e ''M365_USER'')"

definition SMTP_PASS :: "env \<Rightarrow> jsstring option" where
  "SMTP_PASS e = orElse (process_env e ''SMTP_PASS'') (process_env e ''M365_PASS'')"

definition CONTACT_TO :: "env \<Rightarrow> jsstring option" where
  "CONTACT_TO e =
     orElse (orElse (process_env e ''CONTACT_TO'') (process_env e ''SMTP_TO'')) (SMTP_USER e)"

definition transporter :: "env \<Rightarrow> transport" where
  "transporter e =
     \<lparr>host = orText (process_env e ''SMTP_HOST'') (js ''smtp.office365.com''),
      port = orText (process_env e ''SMTP_PORT'') (js ''587''),
      secure =
        (toLowerCase (lower_beyond_latin1 e) (orText (process_env e ''SMTP_SECURE'') (js ''false'')) =
           js ''true''),
      auth_user = orText (SMTP_USER e) [],
      auth_pass = orText (SMTP_PASS e) []\<rparr>"

definition compose :: "env \<Rightarrow> jsstring \<Rightarrow> fields \<Rightarrow> mail" where
  "compose e i f =
     \<lparr>mail_from = [0x22] @ js ''SustTech Contact'' @ [0x22] @ js '' <'' @ orText (SMTP_USER e) [] @ js ''>'',
      mail_to = orText (CONTACT_TO e) [],
      replyTo = vEmail f,
      subject = subject_line f,
      mail_text = text_body f,
      html = html_body f i\<rparr>"

definition verify_failed :: "thrown \<Rightarrow> jsstring" where
  "verify_failed x =
     js ''SMTP verify failed: '' @ orText (e_code x) [] @ js '' '' @ orText (e_message x) (e_string x)"

definition send_failed :: "thrown \<Rightarrow> jsstring" where
  "send_failed x =
     js ''SMTP send failed: '' @ orText (e_code x) [] @ js '' '' @
       orText (orElse (e_response x) (e_message x)) (e_string x)"

definition server_error :: "thrown \<Rightarrow> jsstring" where
  "server_error x = js ''Server error: '' @ orText (e_message x) (e_string x)"

text \<open>After the validation: credentials, \<open>transporter.verify()\<close>, \<open>transporter.sendMail\<close>.\<close>

definition deliver :: "env \<Rightarrow> jsstring \<Rightarrow> fields \<Rightarrow> response \<times> effect list" where
  "deliver e i f =
     (if \<not> truthy (SMTP_USER e) \<or> \<not> truthy (SMTP_PASS e) then
        (reject 500 (js ''SMTP credentials missing.''), [])
      else
        (case transporter_verify e of
           Throws x \<Rightarrow>
             (reject 500 (verify_failed x), [Transporter_verify (transporter e), Console_error])
         | Returns u \<Rightarrow>
             (case transporter_sendMail e of
                Throws x \<Rightarrow>
                  (reject 500 (send_failed x),
                   [Transporter_verify (transporter e),
                    Transporter_sendMail (transporter e) (compose e i f), Console_error])
              | Returns v \<Rightarrow>
                  (accept,
                   [Transporter_verify (transporter e),
                    Transporter_sendMail (transporter e) (compose e i f)]))))"

text \<open>
  From the verification token on. The \<open>fetch\<close> is made only here, with the secret, the
  token and the IP; a throw of it (or of \<open>verifyRes.json()\<close>) lands in the outer
  \<open>catch\<close>.
\<close>

definition after_gates :: "env \<Rightarrow> request \<Rightarrow> jsstring \<Rightarrow> tracker \<Rightarrow> reply" where
  "after_gates e r i t =
     (case turnstile_response (body r) of
        None \<Rightarrow>
          \<lparr>resp = reject 400 (js ''missing_turnstile_token''), effects = [],
           state = markBad i (now_markBad e) (now_punish e) t\<rparr>
      | Some token \<Rightarrow>
          if token = [] then
            \<lparr>resp = reject 400 (js ''missing_turnstile_token''), effects = [],
             state = markBad i (now_markBad e) (now_punish e) t\<rparr>
          else
            (let call = Fetch_siteverify (orText (process_env e ''TURNSTILE_SECRET_KEY'') []) token i
             in case siteverify e of
                  Throws x \<Rightarrow>
                    \<lparr>resp = reject 500 (server_error x), effects = [call, Console_error], state = t\<rparr>
                | Returns success \<Rightarrow>
                    if \<not> success then
                      \<lparr>resp = reject 400 (js ''turnstile_failed''), effects = [call, Console_error],
                       state = markBad i (now_markBad e) (now_punish e) t\<rparr>
                    else
                      (case check_fields e i (normalize_inputs e (body r)) t of
                         Some (failure, t') \<Rightarrow> \<lparr>resp = failure, effects = [call], state = t'\<rparr>
                       | None \<Rightarrow>
                           (case deliver e i (normalize_inputs e (body r)) of
                              (answer, sent) \<Rightarrow>
                                \<lparr>resp = answer, effects = call # sent, state = t\<rparr>))))"

definition is_json :: "env \<Rightarrow> request \<Rightarrow> bool" where
  "is_json e r =
     str_includes (toLowerCase (lower_beyond_latin1 e) (orText (content_type r) []))
       (js ''application/json'')"

definition handler :: "env \<Rightarrow> request \<Rightarrow> tracker \<Rightarrow> reply" where
  "handler e r t =
     (if req_method r \<noteq> js ''POST'' then
        \<lparr>resp = reject 405 (js ''Method not allowed''), effects = [], state = t\<rparr>
      else if \<not> is_json e r then
        \<lparr>resp = reject 400 (js ''Send JSON body''), effects = [], state = t\<rparr>
      else if honeypot (body r) then
        \<lparr>resp = accept, effects = [], state = t\<rparr>
      else
        (case isBlocked (client_ip r) (now_isBlocked1 e) (now_isBlocked2 e) t of
           (True, t1) \<Rightarrow>
             \<lparr>resp = reject 403 (js ''IP temporarily blocked.''), effects = [], state = t1\<rparr>
         | (False, t1) \<Rightarrow>
             (case rateLimited (client_ip r) (now_rateLimited e) t1 of
                (True, t2) \<Rightarrow>
                  \<lparr>resp = reject 429 (js ''Too many requests, try again later.''), effects = [],
                   state = t2\<rparr>
              | (False, t2) \<Rightarrow> after_gates e r (client_ip r) t2)))"

text \<open>
  The process serves its requests one after the other, each invocation running to its
  end before the next starts on the same three variables: \<open>serve\<close> is the state after a
  list of invocations, each with its own world.
\<close>

fun serve :: "(env \<times> request) list \<Rightarrow> tracker \<Rightarrow> tracker" where
  "serve [] t = t"
| "serve ((e, r) # rest) t = serve rest (state (handler e r t))"

text \<open>
  A request reaches the rate check when it is a POST of JSON with an empty honeypot from
  an IP that is not blocked; it is admitted when the rate check lets it pass, which is
  when \<open>rateLimited\<close> records the attempt. \<open>admissions i\<close> counts the requests of a list
  that come from the IP \<open>i\<close> and are admitted.
\<close>

definition reaches_rate_check :: "env \<Rightarrow> request \<Rightarrow> tracker \<Rightarrow> bool" where
  "reaches_rate_check e r t =
     (req_method r = js ''POST'' \<and> is_json e r \<and> \<not> honeypot (body r) \<and>
      \<not> fst (isBlocked (client_ip r) (now_isBlocked1 e) (now_isBlocked2 e) t))"

definition admitted :: "env \<Rightarrow> request \<Rightarrow> tracker \<Rightarrow> bool" where
  "admitted e r t =
     (reaches_rate_check e r t \<and>
      \<not> fst (rateLimited (client_ip r) (now_rateLimited e)
               (snd (isBlocked (client_ip r) (now_isBlocked1 e) (now_isBlocked2 e) t))))"

fun admissions :: "jsstring \<Rightarrow> (env \<times> request) list \<Rightarrow> tracker \<Rightarrow> nat" where
  "admissions i [] t = 0"
| "admissions i ((e, r) # rest) t =
     (if client_ip r = i \<and> admitted e r t then 1 else 0) +
     admissions i rest (state (handler e r t))"

text \<open>The state in which an admitted request goes on: after the block and rate checks.\<close>

definition gate_state :: "env \<Rightarrow> request \<Rightarrow> tracker \<Rightarrow> tracker" where
  "gate_state e r t =
     snd (rateLimited (client_ip r) (now_rateLimited e)
       (snd (isBlocked (client_ip r) (now_isBlocked1 e) (now_isBlocked2 e) t)))"

text \<open>The entries of an IP whose time lies in the window that starts at \<open>T\<close>.\<close>

definition in_window :: "int \<Rightarrow> jsstring \<Rightarrow> hit list \<Rightarrow> nat" where
  "in_window T i hs =
     length (filter (\<lambda>h. ip h = i \<and> T \<le> time h \<and> time h < T + WINDOW_MS) hs)"

section \<open>The language detection of \<open>assets/i18n/i18n.js\<close>\<close>

text \<open>
  What \<open>detectLang\<close> reads of the browser: \<open>window.__FORCED_LANG__\<close>,
  \<open>location.pathname\<close> and \<open>localStorage.getItem('lang')\<close> (\<open>None\<close> for \<open>undefined\<close> and
  \<open>null\<close>).
\<close>

record browser =
  forced :: "jsstring option"
  pathname :: jsstring
  saved :: "jsstring option"

definition DEFAULT_LANG :: jsstring where
  "DEFAULT_LANG = js ''en''"

definition LANGS :: "jsstring list" where
  "LANGS = [js ''en'', js ''es'', js ''pt'']"

text \<open>\<open>location.pathname.split('/').filter(Boolean)[0]\<close>\<close>

definition pathLang :: "browser \<Rightarrow> jsstring option" where
  "pathLang b = (case filter (\<lambda>seg. seg \<noteq> []) (split_on 0x2F (pathname b)) of
                   [] \<Rightarrow> None | seg # rest \<Rightarrow> Some seg)"

text \<open>
  \<open>LANGS.includes(x)\<close> compares with \<open>===\<close>. The three \<open>if\<close> of \<open>detectLang\<close>, last
  first: each returns its candidate when the candidate is a supported language, and
  goes on otherwise.
\<close>

definition fromSaved :: "browser \<Rightarrow> jsstring" where
  "fromSaved b =
     (case saved b of
        None \<Rightarrow> DEFAULT_LANG
      | Some l \<Rightarrow> if l \<in> set LANGS then l else DEFAULT_LANG)"

definition fromPath :: "browser \<Rightarrow> jsstring" where
  "fromPath b =
     (case pathLang b of
        None \<Rightarrow> fromSaved b
      | Some l \<Rightarrow> if l \<in> set LANGS then l else fromSaved b)"

definition detectLang :: "browser \<Rightarrow> jsstring" where
  "detectLang b =
     (case forced b of
        None \<Rightarrow> fromPath b
      | Some l \<Rightarrow> if l \<noteq> [] \<and> l \<in> set LANGS then l else fromPath b)"

text \<open>A candidate that is one of the supported languages.\<close>

definition supported :: "jsstring option \<Rightarrow> bool" where
  "supported x = (case x of None \<Rightarrow> False | Some l \<Rightarrow> l \<in> set LANGS)"

section \<open>Sample inputs\<close>

text \<open>
  The state of a process that has served nothing yet, a well-formed submission, and a
  world in which the verification service and the SMTP relay both answer. The samples
  hold ASCII only, so the world's \<open>lower_beyond_latin1\<close> is never asked.
\<close>

definition initial :: tracker where
  "initial = \<lparr>hits = [], blocked = Map.empty, badHits = []\<rparr>"

definition jane_form :: form where
  "jane_form =
     \<lparr>name = Some (js ''Jane Doe''),
      email = Some (js ''jane@example.com''),
      organization = None,
      interest = None,
      org = None,
      topic = None,
      message = Some (js ''Please send me a quote.''),
      gotcha = None,
      turnstile_response = Some (js ''token'')\<rparr>"

definition jane_request :: request where
  "jane_request =
     \<lparr>req_method = js ''POST'',
      content_type = Some (js ''application/json''),
      x_forwarded_for = Some (js ''203.0.113.7, 10.0.0.1''),
      remoteAddress = None,
      body = jane_form\<rparr>"

definition jane_ip :: jsstring where
  "jane_ip = js ''203.0.113.7''"

definition site_env :: "string \<Rightarrow> jsstring option" where
  "site_env k =
     (if k = ''SMTP_USER'' then Some (js ''site@example.com'')
      else if k = ''SMTP_PASS'' then Some (js ''secret'')
      else None)"

definition world_at :: "int \<Rightarrow> env" where
  "world_at now =
     \<lparr>now_isBlocked1 = now,
      now_isBlocked2 = now,
      now_rateLimited = now,
      now_markBad = now,
      now_punish = now,
      siteverify = Returns True,
      process_env = site_env,
      transporter_verify = Returns (),
      transporter_sendMail = Returns (),
      lower_beyond_latin1 = (\<lambda>s. s)\<rparr>"

definition padded_form :: form where
  "padded_form = jane_form\<lparr>name := Some (js ''  Jane Doe ''), email := Some (js ''Jane@Example.com '')\<rparr>"

definition five_requests :: "(env \<times> request) list" where
  "five_requests = map (\<lambda>n. (world_at n, jane_request)) [1000, 2000, 3000, 4000, 5000]"

definition five_hits :: tracker where
  "five_hits = initial\<lparr>hits := map (\<lambda>n. \<lparr>ip = jane_ip, time = n\<rparr>) [1000, 2000, 3000, 4000, 5000]\<rparr>"

definition no_token_request :: request where
  "no_token_request = jane_request\<lparr>body := jane_form\<lparr>turnstile_response := None\<rparr>\<rparr>"

definition eight_bad :: "(env \<times> request) list" where
  "eight_bad =
     map (\<lambda>n. (world_at n, no_token_request))
       [15000, 30000, 45000, 60000, 75000, 90000, 105000, 120000]"

definition seven_bad :: tracker where
  "seven_bad =
     \<lparr>hits = map (\<lambda>n. \<lparr>ip = jane_ip, time = n\<rparr>) [75000, 90000, 105000, 120000],
      blocked = Map.empty,
      badHits = map (\<lambda>n. \<lparr>ip = jane_ip, time = n\<rparr>)
        [15000, 30000, 45000, 60000, 75000, 90000, 105000]\<rparr>"

definition blocked_jane :: tracker where
  "blocked_jane = markBad jane_ip 120000 120000 seven_bad"

definition hopeless_form :: form where
  "hopeless_form =
     jane_form\<lparr>email := Some (js ''not-an-email''), gotcha := Some (js ''bot''),
       turnstile_response := None\<rparr>"

definition probe_method :: request where
  "probe_method =
     \<lparr>req_method = js ''GET'',
      content_type = Some (js ''text/plain''),
      x_forwarded_for = Some (js ''203.0.113.7''),
      remoteAddress = None,
      body = hopeless_form\<rparr>"

definition probe_type :: request where
  "probe_type = probe_method\<lparr>req_method := js ''POST''\<rparr>"

definition probe_honeypot :: request where
  "probe_honeypot = probe_type\<lparr>content_type := Some (js ''application/json; charset=utf-8'')\<rparr>"

definition probe_token :: request where
  "probe_token = probe_honeypot\<lparr>body := hopeless_form\<lparr>gotcha := None\<rparr>\<rparr>"

definition probe_fields :: request where
  "probe_fields =
     probe_honeypot\<lparr>body := hopeless_form\<lparr>gotcha := None, turnstile_response := Some (js ''token'')\<rparr>\<rparr>"

definition failing_world :: "int \<Rightarrow> env" where
  "failing_world now = (world_at now)\<lparr>siteverify := Returns False\<rparr>"

definition gibberish_org_request :: request where
  "gibberish_org_request = jane_request\<lparr>body := jane_form\<lparr>org := Some (js ''Qwrtpsdf Ltd'')\<rparr>\<rparr>"

definition nameless_probe :: request where
  "nameless_probe =
     probe_honeypot\<lparr>body := hopeless_form\<lparr>name := None, gotcha := None,
       turnstile_response := Some (js ''token'')\<rparr>\<rparr>"

definition nameless_request :: request where
  "nameless_request = jane_request\<lparr>body := jane_form\<lparr>name := None\<rparr>\<rparr>"

definition blank_honeypot_request :: request where
  "blank_honeypot_request = jane_request\<lparr>body := jane_form\<lparr>gotcha := Some (js '' '')\<rparr>\<rparr>"

definition bot_request :: request where
  "bot_request = jane_request\<lparr>body := jane_form\<lparr>gotcha := Some (js '' bot '')\<rparr>\<rparr>"

definition blob_request :: request where
  "blob_request =
     jane_request\<lparr>body := jane_form\<lparr>message := Some (js ''QWxhZGRpbjpvcGVuIHNlc2FtZQ=='')\<rparr>\<rparr>"

definition visitor :: "jsstring option \<Rightarrow> string \<Rightarrow> jsstring option \<Rightarrow> browser" where
  "visitor f p s = \<lparr>forced = f, pathname = js p, saved = s\<rparr>"

text \<open>
  A submission whose email is longer than every maximum of the source: 5000 times the
  letter \<open>a\<close>, then \<open>@example.com\<close>.
\<close>

definition long_email :: jsstring where
  "long_email = replicate 5000 0x61 @ js ''@example.com''"

definition long_email_request :: request where
  "long_email_request = jane_request\<lparr>body := jane_form\<lparr>email := Some long_email\<rparr>\<rparr>"

section \<open>The matcher decides the language\<close>

lemma nullable_lang: "nullable r \<longleftrightarrow> [] \<in> lang r"
  by (induction r) (auto intro: kleene_empty)

lemma lang_alt: "lang (alt r s) = lang r \<union> lang s"
  by (cases r; cases s) auto

lemma lang_seq: "lang (seq r s) = {u @ v | u v. u \<in> lang r \<and> v \<in> lang s}"
  by (cases r) auto

lemma kleene_head:
  "c # w \<in> kleene L \<longleftrightarrow> (\<exists>u v. w = u @ v \<and> c # u \<in> L \<and> v \<in> kleene L)"
proof
  assume "c # w \<in> kleene L"
  then show "\<exists>u v. w = u @ v \<and> c # u \<in> L \<and> v \<in> kleene L"
  proof (induction "c # w" arbitrary: w rule: kleene.induct)
    case (kleene_more u v)
    show ?case
    proof (cases u)
      case Nil
      with kleene_more show ?thesis by simp
    next
      case (Cons a u')
      with kleene_more have "w = u' @ v" "c # u' \<in> L" "v \<in> kleene L" by auto
      then show ?thesis by blast
    qed
  qed
next
  assume "\<exists>u v. w = u @ v \<and> c # u \<in> L \<and> v \<in> kleene L"
  then obtain u v where "w = u @ v" "c # u \<in> L" "v \<in> kleene L" by blast
  then show "c # w \<in> kleene L"
    using kleene_more[of "c # u" L v] by simp
qed

lemma lang_deriv: "lang (deriv c r) = {w. c # w \<in> lang r}"
proof (induction r)
  case (Seq r s)
  have "{w. c # w \<in> lang (Seq r s)} =
      {u @ v | u v. c # u \<in> lang r \<and> v \<in> lang s} \<union> (if nullable r then {w. c # w \<in> lang s} else {})"
    by (auto simp: nullable_lang Cons_eq_append_conv)
  with Seq show ?case
    by (auto simp: lang_alt lang_seq)
next
  case (Star r)
  then show ?case
    by (auto simp: lang_seq kleene_head)
qed (auto simp: lang_alt)

lemma matches_lang: "matches r w \<longleftrightarrow> w \<in> lang r"
  by (induction w arbitrary: r) (simp_all add: nullable_lang lang_deriv)

lemma kleene_units: "w \<in> kleene {[c] | c. p c} \<longleftrightarrow> (\<forall>c \<in> set w. p c)"
proof (induction w)
  case Nil
  show ?case by (simp add: kleene_empty)
next
  case (Cons a w)
  have "a # w \<in> kleene {[c] | c. p c} \<longleftrightarrow> p a \<and> w \<in> kleene {[c] | c. p c}"
    by (auto simp: kleene_head[of a w])
  with Cons show ?case by simp
qed

lemma lang_unit_first: "a # v \<in> lang (Seq (Chr p) r) \<longleftrightarrow> p a \<and> v \<in> lang r"
proof
  assume "a # v \<in> lang (Seq (Chr p) r)"
  then obtain u w c where "a # v = u @ w" and "u = [c]" and "p c" and "w \<in> lang r"
    by auto
  then show "p a \<and> v \<in> lang r"
    by simp
next
  assume "p a \<and> v \<in> lang r"
  then have "[a] \<in> lang (Chr p)" and "v \<in> lang r"
    by auto
  then have "[a] @ v \<in> lang (Seq (Chr p) r)"
    unfolding lang.simps by blast
  then show "a # v \<in> lang (Seq (Chr p) r)"
    by simp
qed

lemma lang_atLeast_rep:
  "lang (atLeast_rep n (Chr p)) = {w. n \<le> length w \<and> (\<forall>c \<in> set w. p c)}"
proof (induction n)
  case 0
  show ?case by (auto simp: kleene_units)
next
  case (Suc n)
  show ?case
  proof (rule set_eqI)
    fix w
    show "w \<in> lang (atLeast_rep (Suc n) (Chr p)) \<longleftrightarrow>
        w \<in> {w. Suc n \<le> length w \<and> (\<forall>c \<in> set w. p c)}"
    proof (cases w)
      case Nil
      then show ?thesis by simp
    next
      case (Cons a v)
      from Suc Cons show ?thesis by (auto simp add: lang_unit_first simp del: lang.simps)
    qed
  qed
qed

section \<open>escapeHtml\<close>

lemma replaceAll_concat_map:
  "replaceAll c rep (concat (map f s)) = concat (map (\<lambda>x. replaceAll c rep (f x)) s)"
  by (induction s) (simp_all add: replaceAll_def)

lemma replaceAll_as_concat: "replaceAll c rep s = concat (map (\<lambda>x. replaceAll c rep [x]) s)"
  by (simp add: replaceAll_def)

text \<open>
  The four replacements in a row are one pass that replaces each code unit on its own:
  no later replacement touches what an earlier one inserted.
\<close>

lemma escapeHtml_units: "escapeHtml s = concat (map escapeUnit s)"
proof -
  have "escapeHtml s =
      concat (map (\<lambda>x. replaceAll 0x22 (js ''&quot;'')
        (replaceAll 0x3E (js ''&gt;'')
          (replaceAll 0x3C (js ''&lt;'')
            (replaceAll 0x26 (js ''&amp;'') [x])))) s)"
    unfolding escapeHtml_def
    by (subst replaceAll_as_concat[of "0x26"]) (simp only: replaceAll_concat_map)
  also have "\<dots> = concat (map escapeUnit s)"
    by (rule arg_cong[where f = concat], rule map_cong[OF refl])
       (simp add: escapeUnit_def replaceAll_def js_def)
  finally show ?thesis .
qed

lemma escapeUnit_safe:
  "x \<in> set (escapeUnit c) \<Longrightarrow> x \<noteq> 0x3C \<and> x \<noteq> 0x3E \<and> x \<noteq> 0x22"
  by (auto simp: escapeUnit_def js_def split: if_splits)

lemma escapeHtml_safe:
  "x \<in> set (escapeHtml s) \<Longrightarrow> x \<noteq> 0x3C \<and> x \<noteq> 0x3E \<and> x \<noteq> 0x22"
  unfolding escapeHtml_units using escapeUnit_safe by auto

lemma startsWith_append: "startsWith (p @ r) p"
  by (induction p) simp_all

lemma escapeUnit_amp:
  assumes "i < length (escapeUnit c)" and "escapeUnit c ! i = 0x26"
  shows "i = 0 \<and> entityAt (escapeUnit c @ r)"
proof -
  have shape: "escapeUnit c = js ''&amp;'' \<or> escapeUnit c = js ''&lt;'' \<or>
      escapeUnit c = js ''&gt;'' \<or> escapeUnit c = js ''&quot;'' \<or>
      (escapeUnit c = [c] \<and> c \<noteq> 0x26)"
    by (simp add: escapeUnit_def)
  have first: "i = 0"
    using assms shape by (auto simp: js_def nth_Cons' less_Suc_eq split: if_splits)
  have "entityAt (escapeUnit c @ r)"
    using shape assms first unfolding entityAt_def
    by (metis startsWith_append nth_Cons_0)
  with first show ?thesis by simp
qed

lemma escaped_amp:
  "i < length (concat (map escapeUnit s)) \<Longrightarrow> concat (map escapeUnit s) ! i = 0x26
     \<Longrightarrow> entityAt (drop i (concat (map escapeUnit s)))"
proof (induction s arbitrary: i)
  case Nil
  then show ?case by simp
next
  case (Cons c s)
  show ?case
  proof (cases "i < length (escapeUnit c)")
    case True
    with Cons.prems have "escapeUnit c ! i = 0x26" by (simp add: nth_append)
    from escapeUnit_amp[OF True this] show ?thesis by simp
  next
    case False
    with Cons.prems have "i - length (escapeUnit c) < length (concat (map escapeUnit s))"
      and "concat (map escapeUnit s) ! (i - length (escapeUnit c)) = 0x26"
      by (auto simp: nth_append)
    from Cons.IH[OF this] False show ?thesis by simp
  qed
qed

lemma html_body_template:
  "html_body f i =
     html_template (escapeHtml (vName f)) (escapeHtml (vEmail f))
       (escapeHtml (dash_if_empty (vOrg f))) (escapeHtml (dash_if_empty (vInterest f)))
       (replaceAll 0x0A (js ''<br>'') (escapeHtml (vMessage f))) (escapeHtml i)"
  by (simp add: html_body_def html_template_def)

section \<open>The handler, gate by gate\<close>

lemma handler_not_POST:
  "req_method r \<noteq> js ''POST'' \<Longrightarrow>
     handler e r t = \<lparr>resp = reject 405 (js ''Method not allowed''), effects = [], state = t\<rparr>"
  by (simp add: handler_def)

lemma handler_not_json:
  "req_method r = js ''POST'' \<Longrightarrow> \<not> is_json e r \<Longrightarrow>
     handler e r t = \<lparr>resp = reject 400 (js ''Send JSON body''), effects = [], state = t\<rparr>"
  by (simp add: handler_def)

lemma handler_honeypot:
  "req_method r = js ''POST'' \<Longrightarrow> is_json e r \<Longrightarrow> honeypot (body r) \<Longrightarrow>
     handler e r t = \<lparr>resp = accept, effects = [], state = t\<rparr>"
  by (simp add: handler_def)

lemma handler_blocked:
  "req_method r = js ''POST'' \<Longrightarrow> is_json e r \<Longrightarrow> \<not> honeypot (body r) \<Longrightarrow>
   isBlocked (client_ip r) (now_isBlocked1 e) (now_isBlocked2 e) t = (True, t1) \<Longrightarrow>
     handler e r t =
       \<lparr>resp = reject 403 (js ''IP temporarily blocked.''), effects = [], state = t1\<rparr>"
  by (simp add: handler_def)

lemma handler_limited:
  "req_method r = js ''POST'' \<Longrightarrow> is_json e r \<Longrightarrow> \<not> honeypot (body r) \<Longrightarrow>
   isBlocked (client_ip r) (now_isBlocked1 e) (now_isBlocked2 e) t = (False, t1) \<Longrightarrow>
   rateLimited (client_ip r) (now_rateLimited e) t1 = (True, t2) \<Longrightarrow>
     handler e r t =
       \<lparr>resp = reject 429 (js ''Too many requests, try again later.''), effects = [],
        state = t2\<rparr>"
  by (simp add: handler_def)

lemma handler_admitted:
  "req_method r = js ''POST'' \<Longrightarrow> is_json e r \<Longrightarrow> \<not> honeypot (body r) \<Longrightarrow>
   isBlocked (client_ip r) (now_isBlocked1 e) (now_isBlocked2 e) t = (False, t1) \<Longrightarrow>
   rateLimited (client_ip r) (now_rateLimited e) t1 = (False, t2) \<Longrightarrow>
     handler e r t = after_gates e r (client_ip r) t2"
  by (simp add: handler_def)

lemma deliver_sendMail:
  "deliver e i f = (a, es) \<Longrightarrow> Transporter_sendMail tr m \<in> set es
     \<Longrightarrow> tr = transporter e \<and> m = compose e i f"
  by (auto simp: deliver_def split: if_splits outcome.splits)

lemma after_gates_sendMail:
  "Transporter_sendMail tr m \<in> set (effects (after_gates e r i t))
     \<Longrightarrow> tr = transporter e \<and> m = compose e i (normalize_inputs e (body r))"
  unfolding after_gates_def
  by (auto simp: Let_def split: option.splits if_splits outcome.splits prod.splits
      dest: deliver_sendMail)

lemma handler_sendMail:
  "Transporter_sendMail tr m \<in> set (effects (handler e r t))
     \<Longrightarrow> tr = transporter e \<and> m = compose e (client_ip r) (normalize_inputs e (body r))"
  unfolding handler_def
  by (auto split: if_splits prod.splits bool.splits dest: after_gates_sendMail)

section \<open>The sample submission\<close>

lemma jane_ip: "client_ip jane_request = jane_ip"
  by code_simp

lemma jane_fields:
  "normalize_inputs e jane_form =
     \<lparr>vName = js ''Jane Doe'', vEmail = js ''jane@example.com'', vOrg = [], vInterest = [],
      vMessage = js ''Please send me a quote.''\<rparr>"
  by code_simp

lemma jane_email_ok: "test_anchored emailRegex (js ''jane@example.com'')"
  by code_simp

lemma jane_name_ok: "hasTwoWords (js ''Jane Doe'') \<and> \<not> looksGibberish (js ''Jane Doe'')"
  by code_simp

lemma jane_message_ok:
  "\<not> length (js ''Please send me a quote.'') < 20 \<and>
   \<not> tooManyUrls (js ''Please send me a quote.'') \<and>
   \<not> looksGibberish (js ''Please send me a quote.'')"
  by code_simp

lemma jane_check: "check_fields e i (normalize_inputs e jane_form) t = None"
proof -
  have "js ''Jane Doe'' \<noteq> []" "js ''jane@example.com'' \<noteq> []" "js ''Please send me a quote.'' \<noteq> []"
    by (simp_all add: js_def)
  then show ?thesis
    using jane_email_ok jane_name_ok jane_message_ok
    by (simp add: check_fields_def jane_fields)
qed

lemma jane_gates:
  shows jane_POST: "req_method jane_request = js ''POST''"
    and jane_json: "is_json e jane_request"
    and jane_no_honeypot: "\<not> honeypot (body jane_request)"
    and jane_body: "body jane_request = jane_form"
    and jane_token: "turnstile_response jane_form = Some (js ''token'')"
  by code_simp+

lemma site_credentials: "truthy (SMTP_USER (world_at n)) \<and> truthy (SMTP_PASS (world_at n))"
  by (simp add: SMTP_USER_def SMTP_PASS_def world_at_def site_env_def orElse_def truthy_def js_def)

lemma deliver_site:
  "deliver (world_at n) i f =
     (accept, [Transporter_verify (transporter (world_at n)),
               Transporter_sendMail (transporter (world_at n)) (compose (world_at n) i f)])"
  using site_credentials[of n] by (simp add: deliver_def) (simp add: world_at_def)

lemma after_gates_jane:
  "after_gates (world_at n) jane_request jane_ip t =
     \<lparr>resp = accept,
      effects = [Fetch_siteverify [] (js ''token'') jane_ip,
                 Transporter_verify (transporter (world_at n)),
                 Transporter_sendMail (transporter (world_at n))
                   (compose (world_at n) jane_ip (normalize_inputs (world_at n) jane_form))],
      state = t\<rparr>"
proof -
  have "siteverify (world_at n) = Returns True"
    and "process_env (world_at n) ''TURNSTILE_SECRET_KEY'' = None"
    by (simp_all add: world_at_def site_env_def)
  moreover have "js ''token'' \<noteq> []"
    by (simp add: js_def)
  ultimately show ?thesis
    by (simp add: after_gates_def jane_body jane_token jane_check deliver_site orText_def)
qed

lemma handler_jane:
  "handler (world_at n) jane_request initial =
     \<lparr>resp = accept,
      effects = [Fetch_siteverify [] (js ''token'') jane_ip,
                 Transporter_verify (transporter (world_at n)),
                 Transporter_sendMail (transporter (world_at n))
                   (compose (world_at n) jane_ip (normalize_inputs (world_at n) jane_form))],
      state = initial\<lparr>hits := [\<lparr>ip = jane_ip, time = n\<rparr>]\<rparr>\<rparr>"
proof -
  have blocked: "isBlocked (client_ip jane_request) (now_isBlocked1 (world_at n))
      (now_isBlocked2 (world_at n)) initial = (False, initial)"
    by (simp add: isBlocked_def initial_def)
  have limited: "rateLimited (client_ip jane_request) (now_rateLimited (world_at n)) initial =
      (False, initial\<lparr>hits := [\<lparr>ip = jane_ip, time = n\<rparr>]\<rparr>)"
    by (simp add: rateLimited_def initial_def MAX_PER_WINDOW_def jane_ip world_at_def)
  from handler_admitted[OF jane_POST jane_json jane_no_honeypot blocked limited] show ?thesis
    by (simp add: jane_ip after_gates_jane)
qed

section \<open>Claims about the mail body and the language\<close>

text \<open>
  Claim C10. For every input string the output of \<open>escapeHtml\<close> is the input with each
  code unit replaced on its own (\<open>&\<close>, \<open><\<close>, \<open>>\<close> and \<open>"\<close> by their entities, every
  other code unit kept); it holds no \<open><\<close>, no \<open>>\<close> and no \<open>"\<close>, and wherever it holds
  an \<open>&\<close>, one of the four entities starts there. Whenever the handler sends a mail, the
  HTML body is the literal template around \<open>escapeHtml\<close> of the name, the email, the
  organization, the interest, the message (its line feeds then turned into \<open><br>\<close>) and
  the IP.
\<close>

theorem escapeHtml_output:
  "escapeHtml s = concat (map escapeUnit s) \<and>
   0x3C \<notin> set (escapeHtml s) \<and> 0x3E \<notin> set (escapeHtml s) \<and> 0x22 \<notin> set (escapeHtml s) \<and>
   (\<forall>i < length (escapeHtml s). escapeHtml s ! i = 0x26 \<longrightarrow> entityAt (drop i (escapeHtml s))) \<and>
   (\<forall>tr m. Transporter_sendMail tr m \<in> set (effects (handler e r t)) \<longrightarrow>
      html m =
        html_template
          (escapeHtml (vName (normalize_inputs e (body r))))
          (escapeHtml (vEmail (normalize_inputs e (body r))))
          (escapeHtml (dash_if_empty (vOrg (normalize_inputs e (body r)))))
          (escapeHtml (dash_if_empty (vInterest (normalize_inputs e (body r)))))
          (replaceAll 0x0A (js ''<br>'') (escapeHtml (vMessage (normalize_inputs e (body r)))))
          (escapeHtml (client_ip r)))"
proof -
  have units: "escapeHtml s = concat (map escapeUnit s)"
    by (rule escapeHtml_units)
  have safe: "0x3C \<notin> set (escapeHtml s) \<and> 0x3E \<notin> set (escapeHtml s) \<and> 0x22 \<notin> set (escapeHtml s)"
    using escapeHtml_safe[of _ s] by blast
  have amp: "\<forall>i < length (escapeHtml s). escapeHtml s ! i = 0x26 \<longrightarrow> entityAt (drop i (escapeHtml s))"
    unfolding units using escaped_amp by blast
  have sent: "\<forall>tr m. Transporter_sendMail tr m \<in> set (effects (handler e r t)) \<longrightarrow>
      html m =
        html_template
          (escapeHtml (vName (normalize_inputs e (body r))))
          (escapeHtml (vEmail (normalize_inputs e (body r))))
          (escapeHtml (dash_if_empty (vOrg (normalize_inputs e (body r)))))
          (escapeHtml (dash_if_empty (vInterest (normalize_inputs e (body r)))))
          (replaceAll 0x0A (js ''<br>'') (escapeHtml (vMessage (normalize_inputs e (body r)))))
          (escapeHtml (client_ip r))"
  proof (intro allI impI)
    fix tr m
    assume "Transporter_sendMail tr m \<in> set (effects (handler e r t))"
    then have "m = compose e (client_ip r) (normalize_inputs e (body r))"
      by (rule handler_sendMail[THEN conjunct2])
    then show "html m =
        html_template
          (escapeHtml (vName (normalize_inputs e (body r))))
          (escapeHtml (vEmail (normalize_inputs e (body r))))
          (escapeHtml (dash_if_empty (vOrg (normalize_inputs e (body r)))))
          (escapeHtml (dash_if_empty (vInterest (normalize_inputs e (body r)))))
          (replaceAll 0x0A (js ''<br>'') (escapeHtml (vMessage (normalize_inputs e (body r)))))
          (escapeHtml (client_ip r))"
      by (simp add: compose_def html_body_template)
  qed
  from units safe amp sent show ?thesis by blast
qed

theorem escapeHtml_output_witness:
  "escapeHtml (js ''T&C <b>'') = js ''T&amp;C &lt;b&gt;'' \<and>
   1 < length (escapeHtml (js ''T&C <b>'')) \<and>
   escapeHtml (js ''T&C <b>'') ! 1 = 0x26 \<and>
   entityAt (drop 1 (escapeHtml (js ''T&C <b>''))) \<and>
   Transporter_sendMail (transporter (world_at 1000))
       (compose (world_at 1000) jane_ip (normalize_inputs (world_at 1000) jane_form))
     \<in> set (effects (handler (world_at 1000) jane_request initial)) \<and>
   html (compose (world_at 1000) jane_ip (normalize_inputs (world_at 1000) jane_form)) =
     html_template (escapeHtml (js ''Jane Doe'')) (escapeHtml (js ''jane@example.com''))
       (escapeHtml (js ''-'')) (escapeHtml (js ''-''))
       (replaceAll 0x0A (js ''<br>'') (escapeHtml (js ''Please send me a quote.'')))
       (escapeHtml jane_ip)"
proof -
  have out: "escapeHtml (js ''T&C <b>'') = js ''T&amp;C &lt;b&gt;''"
    by code_simp
  have pos: "1 < length (escapeHtml (js ''T&C <b>''))" "escapeHtml (js ''T&C <b>'') ! 1 = 0x26"
    by (simp_all add: out) (simp_all add: js_def)
  have sent: "Transporter_sendMail (transporter (world_at 1000))
       (compose (world_at 1000) jane_ip (normalize_inputs (world_at 1000) jane_form))
     \<in> set (effects (handler (world_at 1000) jane_request initial))"
    by (simp add: handler_jane)
  note inst = escapeHtml_output[of "js ''T&C <b>''" "world_at 1000" jane_request initial]
  from inst pos have "entityAt (drop 1 (escapeHtml (js ''T&C <b>'')))"
    by blast
  moreover from inst sent
  have "html (compose (world_at 1000) jane_ip (normalize_inputs (world_at 1000) jane_form)) =
      html_template
        (escapeHtml (vName (normalize_inputs (world_at 1000) (body jane_request))))
        (escapeHtml (vEmail (normalize_inputs (world_at 1000) (body jane_request))))
        (escapeHtml (dash_if_empty (vOrg (normalize_inputs (world_at 1000) (body jane_request)))))
        (escapeHtml (dash_if_empty (vInterest (normalize_inputs (world_at 1000) (body jane_request)))))
        (replaceAll 0x0A (js ''<br>'') (escapeHtml (vMessage (normalize_inputs (world_at 1000) (body jane_request)))))
        (escapeHtml (client_ip jane_request))"
    by blast
  ultimately show ?thesis
    using out pos sent by (simp add: jane_body jane_fields jane_ip dash_if_empty_def)
qed

text \<open>
  Claim C8. \<open>detectLang\<close> always returns one of \<open>en\<close>, \<open>es\<close>, \<open>pt\<close>. It returns the
  forced override when that is a supported language; otherwise the first non-empty
  segment of the path when that is one; otherwise the stored preference when that is
  one; otherwise \<open>en\<close>.
\<close>

theorem detectLang_precedence:
  "detectLang b \<in> set LANGS \<and>
   set LANGS = {js ''en'', js ''es'', js ''pt''} \<and>
   (\<forall>l. forced b = Some l \<and> l \<in> set LANGS \<longrightarrow> detectLang b = l) \<and>
   (\<forall>l. \<not> supported (forced b) \<and> pathLang b = Some l \<and> l \<in> set LANGS \<longrightarrow> detectLang b = l) \<and>
   (\<forall>l. \<not> supported (forced b) \<and> \<not> supported (pathLang b) \<and> saved b = Some l \<and> l \<in> set LANGS \<longrightarrow>
      detectLang b = l) \<and>
   (\<not> supported (forced b) \<and> \<not> supported (pathLang b) \<and> \<not> supported (saved b) \<longrightarrow>
      detectLang b = js ''en'')"
  by (auto simp: detectLang_def fromPath_def fromSaved_def supported_def LANGS_def
      DEFAULT_LANG_def js_def split: option.splits)

theorem detectLang_precedence_witness:
  "detectLang (visitor (Some (js ''pt'')) ''/es/about'' (Some (js ''es''))) = js ''pt'' \<and>
   detectLang (visitor None ''/es/about'' (Some (js ''pt''))) = js ''es'' \<and>
   detectLang (visitor (Some (js ''fr'')) ''/about/'' (Some (js ''pt''))) = js ''pt'' \<and>
   detectLang (visitor None ''/'' None) = js ''en''"
proof -
  have forced_first:
    "forced (visitor (Some (js ''pt'')) ''/es/about'' (Some (js ''es''))) = Some (js ''pt'') \<and>
     js ''pt'' \<in> set LANGS"
    by code_simp
  have path_next:
    "\<not> supported (forced (visitor None ''/es/about'' (Some (js ''pt'')))) \<and>
     pathLang (visitor None ''/es/about'' (Some (js ''pt''))) = Some (js ''es'') \<and>
     js ''es'' \<in> set LANGS"
    by code_simp
  have saved_then:
    "\<not> supported (forced (visitor (Some (js ''fr'')) ''/about/'' (Some (js ''pt'')))) \<and>
     \<not> supported (pathLang (visitor (Some (js ''fr'')) ''/about/'' (Some (js ''pt'')))) \<and>
     saved (visitor (Some (js ''fr'')) ''/about/'' (Some (js ''pt''))) = Some (js ''pt'') \<and>
     js ''pt'' \<in> set LANGS"
    by code_simp
  have default_last:
    "\<not> supported (forced (visitor None ''/'' None)) \<and>
     \<not> supported (pathLang (visitor None ''/'' None)) \<and>
     \<not> supported (saved (visitor None ''/'' None))"
    by code_simp
  note by_forced = detectLang_precedence[THEN conjunct2, THEN conjunct2, THEN conjunct1, rule_format]
  note by_path = detectLang_precedence[THEN conjunct2, THEN conjunct2, THEN conjunct2,
      THEN conjunct1, rule_format]
  note by_saved = detectLang_precedence[THEN conjunct2, THEN conjunct2, THEN conjunct2,
      THEN conjunct2, THEN conjunct1, rule_format]
  note by_default = detectLang_precedence[THEN conjunct2, THEN conjunct2, THEN conjunct2,
      THEN conjunct2, THEN conjunct2, rule_format]
  from by_forced[OF forced_first] by_path[OF path_next] by_saved[OF saved_then]
    by_default[OF default_last]
  show ?thesis by simp
qed

section \<open>Claims about the normalised fields\<close>

lemma client_ip_body: "client_ip (r\<lparr>body := b\<rparr>) = client_ip r"
  by (simp add: client_ip_def)

lemma is_json_body: "is_json e (r\<lparr>body := b\<rparr>) = is_json e r"
  by (simp add: is_json_def)

text \<open>
  What \<open>trim\<close> returns: the string without a prefix and a suffix of white space, and
  with no white space left at either end.
\<close>

lemma trim_split:
  "\<exists>pre post. x = pre @ trim x @ post \<and> list_all isWhiteSpace pre \<and> list_all isWhiteSpace post"
proof -
  define y where "y = dropWhile isWhiteSpace x"
  define pre where "pre = takeWhile isWhiteSpace x"
  define post where "post = rev (takeWhile isWhiteSpace (rev y))"
  have "x = pre @ y"
    by (simp add: pre_def y_def)
  moreover have "y = trim x @ post"
  proof -
    have "rev y = takeWhile isWhiteSpace (rev y) @ dropWhile isWhiteSpace (rev y)"
      by simp
    then have "rev (rev y) =
        rev (dropWhile isWhiteSpace (rev y)) @ rev (takeWhile isWhiteSpace (rev y))"
      by (metis rev_append)
    then show ?thesis
      by (simp add: trim_def y_def post_def)
  qed
  moreover have "list_all isWhiteSpace pre" and "list_all isWhiteSpace post"
    by (auto simp: pre_def post_def list_all_iff dest: set_takeWhileD)
  ultimately show ?thesis
    by blast
qed

lemma trim_ends:
  assumes "trim x \<noteq> []"
  shows "\<not> isWhiteSpace (hd (trim x)) \<and> \<not> isWhiteSpace (last (trim x))"
proof -
  define y where "y = dropWhile isWhiteSpace x"
  define z where "z = dropWhile isWhiteSpace (rev y)"
  have t: "trim x = rev z"
    by (simp add: trim_def y_def z_def)
  with assms have z: "z \<noteq> []"
    by simp
  then have y: "y \<noteq> []"
    by (auto simp: z_def)
  from z have "\<not> isWhiteSpace (hd z)"
    unfolding z_def by (rule hd_dropWhile)
  then have "\<not> isWhiteSpace (last (trim x))"
    using z by (simp add: t last_rev)
  moreover have "\<not> isWhiteSpace (hd (trim x))"
  proof -
    have "rev y = takeWhile isWhiteSpace (rev y) @ z"
      by (simp add: z_def)
    then have "last (rev y) = last z"
      using z by (metis last_appendR)
    then have "hd (trim x) = hd y"
      using y z by (simp add: t hd_rev last_rev)
    moreover from y have "\<not> isWhiteSpace (hd y)"
      unfolding y_def by (rule hd_dropWhile)
    ultimately show ?thesis
      by simp
  qed
  ultimately show ?thesis
    by simp
qed

lemma trim_id:
  assumes "s \<noteq> []" and "\<not> isWhiteSpace (hd s)" and "\<not> isWhiteSpace (last s)"
  shows "trim s = s"
proof -
  from assms(1,2) have "dropWhile isWhiteSpace s = s"
    by (cases s) simp_all
  moreover from assms(1,3) have "dropWhile isWhiteSpace (rev s) = rev s"
    by (cases "rev s") (simp_all add: hd_rev[symmetric])
  ultimately show ?thesis
    by (simp add: trim_def)
qed

text \<open>The cap of the source is \<open>slice(0, MAX)\<close>; \<open>toLowerCase\<close> keeps the length of a
  string of ASCII and Latin-1 code units.\<close>

lemma toLowerCase_length:
  "list_all (\<lambda>c. c < 0x100) s \<Longrightarrow> length (toLowerCase u s) = length s"
  by (simp add: toLowerCase_def)

text \<open>The long email passes every step the email goes through.\<close>

lemma plus1_more:
  assumes "p a" and "w \<in> lang (Seq (plus1 (Chr p)) r)"
  shows "a # w \<in> lang (Seq (plus1 (Chr p)) r)"
proof -
  from assms(2) obtain u v where w: "w = u @ v" and u: "u \<in> lang (plus1 (Chr p))"
    and v: "v \<in> lang r"
    by auto
  from u have "u \<noteq> []" and "\<forall>c \<in> set u. p c"
    by (auto simp: plus1_def kleene_units)
  with assms(1) have "a # u \<in> lang (plus1 (Chr p))"
    unfolding plus1_def by (simp only: lang_unit_first) (simp add: kleene_units)
  with v have "(a # u) @ v \<in> lang (Seq (plus1 (Chr p)) r)"
    unfolding lang.simps(5) by blast
  with w show ?thesis
    by simp
qed

lemma plus1_replicate:
  "p a \<Longrightarrow> w \<in> lang (Seq (plus1 (Chr p)) r) \<Longrightarrow> replicate n a @ w \<in> lang (Seq (plus1 (Chr p)) r)"
  by (induction n) (simp_all add: plus1_more del: lang.simps)

lemma long_email_ok: "test_anchored emailRegex long_email"
proof -
  have "test_anchored emailRegex (js ''a@example.com'')"
    by code_simp
  then have "js ''a@example.com'' \<in> lang emailRegex"
    by (simp add: test_anchored_def matches_lang)
  moreover have "notSpaceOrAt 0x61"
    by (simp add: notSpaceOrAt_def isWhiteSpace_def)
  ultimately have "replicate 4999 0x61 @ js ''a@example.com'' \<in> lang emailRegex"
    unfolding emailRegex_def by (rule plus1_replicate[rotated])
  moreover have "replicate 4999 0x61 @ js ''a@example.com'' = long_email"
  proof -
    have "js ''a@example.com'' = 0x61 # js ''@example.com''"
      by (simp add: js_def)
    moreover have "replicate 5000 (0x61 :: jschar) = replicate 4999 0x61 @ [0x61]"
      by (simp add: replicate_append_same flip: replicate_Suc)
    ultimately show ?thesis
      by (simp add: long_email_def)
  qed
  ultimately show ?thesis
    by (simp add: test_anchored_def matches_lang)
qed

lemma long_email_length: "length long_email = 5012"
  by (simp add: long_email_def js_def)

lemma long_email_clean: "toLowerCase u (clean (Some long_email)) = long_email"
proof -
  have some: "long_email \<noteq> []" and "hd long_email = 0x61" and "last long_email = 0x6D"
    by (simp_all add: long_email_def js_def)
  then have "trim long_email = long_email"
    by (simp add: trim_id isWhiteSpace_def)
  moreover have "toLowerCase u long_email = long_email"
    by (simp add: long_email_def toLowerCase_def lowerUnit_def js_def list_all_iff)
  ultimately show ?thesis
    using some by (simp add: clean_def orText_def)
qed

lemma long_email_fields:
  "normalize_inputs e (body long_email_request) = (normalize_inputs e jane_form)\<lparr>vEmail := long_email\<rparr>"
  by (simp add: long_email_request_def normalize_inputs_def long_email_clean)

lemma check_fields_other_email:
  "check_fields e i f t = None \<Longrightarrow> v \<noteq> [] \<Longrightarrow> test_anchored emailRegex v \<Longrightarrow>
     check_fields e i (f\<lparr>vEmail := v\<rparr>) t = None"
  by (simp add: check_fields_def split: if_splits)

lemma handler_long_email:
  "handler (world_at n) long_email_request initial =
     \<lparr>resp = accept,
      effects = [Fetch_siteverify [] (js ''token'') jane_ip,
                 Transporter_verify (transporter (world_at n)),
                 Transporter_sendMail (transporter (world_at n))
                   (compose (world_at n) jane_ip
                      (normalize_inputs (world_at n) (body long_email_request)))],
      state = initial\<lparr>hits := [\<lparr>ip = jane_ip, time = n\<rparr>]\<rparr>\<rparr>"
proof -
  have ip: "client_ip long_email_request = jane_ip"
    by (simp add: long_email_request_def client_ip_body jane_ip)
  have gates: "req_method long_email_request = js ''POST''" "is_json (world_at n) long_email_request"
      "\<not> honeypot (body long_email_request)"
    using jane_POST jane_json[of "world_at n"] jane_no_honeypot
    by (simp_all add: long_email_request_def is_json_body honeypot_def jane_body)
  have token: "turnstile_response (body long_email_request) = Some (js ''token'')"
    by (simp add: long_email_request_def jane_token)
  have blocked: "isBlocked (client_ip long_email_request) (now_isBlocked1 (world_at n))
      (now_isBlocked2 (world_at n)) initial = (False, initial)"
    by (simp add: isBlocked_def initial_def)
  have limited: "rateLimited (client_ip long_email_request) (now_rateLimited (world_at n)) initial =
      (False, initial\<lparr>hits := [\<lparr>ip = jane_ip, time = n\<rparr>]\<rparr>)"
    by (simp add: rateLimited_def initial_def MAX_PER_WINDOW_def ip world_at_def)
  have "long_email \<noteq> []"
    by (simp add: long_email_def)
  then have check: "check_fields (world_at n) i
      (normalize_inputs (world_at n) (body long_email_request)) t = None" for i t
    by (simp add: long_email_fields check_fields_other_email jane_check long_email_ok)
  have "siteverify (world_at n) = Returns True"
    and "process_env (world_at n) ''TURNSTILE_SECRET_KEY'' = None"
    by (simp_all add: world_at_def site_env_def)
  moreover have "js ''token'' \<noteq> []"
    by (simp add: js_def)
  ultimately have "after_gates (world_at n) long_email_request jane_ip t =
     \<lparr>resp = accept,
      effects = [Fetch_siteverify [] (js ''token'') jane_ip,
                 Transporter_verify (transporter (world_at n)),
                 Transporter_sendMail (transporter (world_at n))
                   (compose (world_at n) jane_ip
                      (normalize_inputs (world_at n) (body long_email_request)))],
      state = t\<rparr>" for t
    by (simp add: after_gates_def token check deliver_site orText_def)
  with handler_admitted[OF gates blocked limited] show ?thesis
    by (simp add: ip)
qed

lemma after_gates_reads_normalized:
  assumes "normalize_inputs e b' = normalize_inputs e b"
    and "turnstile_response b' = turnstile_response b"
  shows "after_gates e (r\<lparr>body := b'\<rparr>) i t = after_gates e (r\<lparr>body := b\<rparr>) i t"
  using assms by (simp add: after_gates_def Let_def split: option.splits outcome.splits)

lemma handler_reads_normalized:
  assumes "normalize_inputs e b' = normalize_inputs e b" and "gotcha b' = gotcha b"
    and "turnstile_response b' = turnstile_response b"
  shows "handler e (r\<lparr>body := b'\<rparr>) t = handler e (r\<lparr>body := b\<rparr>) t"
proof -
  have "honeypot b' = honeypot b"
    using assms(2) by (simp add: honeypot_def)
  then show ?thesis
    using after_gates_reads_normalized[OF assms(1) assms(3)]
    by (simp add: handler_def client_ip_body is_json_body split: prod.splits bool.splits)
qed

text \<open>
  Claim C5, as amended: the email is left out of the cap. \<open>trim\<close> takes a prefix and a
  suffix of white space off a string and leaves none at either end. The name, the organization,
  the interest and the message the handler works with are the fields of the body
  trimmed and then cut to 120, 200, 80 and 5000 code units, so they are within these
  bounds. The email is trimmed and put in lower case and is not cut: when the trimmed
  email holds ASCII and Latin-1 code units only, the value has the length of the trimmed
  email. The handler reads these fields of the body through the normalised values only:
  two bodies with the same normalised values (and the same honeypot and token) get the
  same reply, effects and state, and a mail that is sent is composed from the
  normalised values.
\<close>

theorem fields_trimmed_and_capped:
  "(\<exists>pre post. x = pre @ trim x @ post \<and> list_all isWhiteSpace pre \<and> list_all isWhiteSpace post) \<and>
   (trim x \<noteq> [] \<longrightarrow> \<not> isWhiteSpace (hd (trim x)) \<and> \<not> isWhiteSpace (last (trim x))) \<and>
   vName (normalize_inputs e b) = take 120 (trim (orText (name b) [])) \<and>
   vEmail (normalize_inputs e b) =
     toLowerCase (lower_beyond_latin1 e) (trim (orText (email b) [])) \<and>
   (list_all (\<lambda>c. c < 0x100) (trim (orText (email b) [])) \<longrightarrow>
      length (vEmail (normalize_inputs e b)) = length (trim (orText (email b) []))) \<and>
   vOrg (normalize_inputs e b) = take 200 (trim (orText (orElse (organization b) (org b)) [])) \<and>
   vInterest (normalize_inputs e b) = take 80 (trim (orText (orElse (interest b) (topic b)) [])) \<and>
   vMessage (normalize_inputs e b) = take 5000 (trim (orText (message b) [])) \<and>
   length (vName (normalize_inputs e b)) \<le> 120 \<and>
   length (vOrg (normalize_inputs e b)) \<le> 200 \<and>
   length (vInterest (normalize_inputs e b)) \<le> 80 \<and>
   length (vMessage (normalize_inputs e b)) \<le> 5000 \<and>
   (normalize_inputs e b' = normalize_inputs e b \<and> gotcha b' = gotcha b \<and>
    turnstile_response b' = turnstile_response b \<longrightarrow>
      handler e (r\<lparr>body := b'\<rparr>) t = handler e (r\<lparr>body := b\<rparr>) t) \<and>
   (\<forall>tr m. Transporter_sendMail tr m \<in> set (effects (handler e r t)) \<longrightarrow>
      m = compose e (client_ip r) (normalize_inputs e (body r)))"
proof -
  have "vName (normalize_inputs e b) = take 120 (trim (orText (name b) []))"
    and email: "vEmail (normalize_inputs e b) =
      toLowerCase (lower_beyond_latin1 e) (trim (orText (email b) []))"
    and "vOrg (normalize_inputs e b) = take 200 (trim (orText (orElse (organization b) (org b)) []))"
    and "vInterest (normalize_inputs e b) = take 80 (trim (orText (orElse (interest b) (topic b)) []))"
    and "vMessage (normalize_inputs e b) = take 5000 (trim (orText (message b) []))"
    by (simp_all add: normalize_inputs_def clean_def MAX_NAME_LEN_def MAX_ORG_LEN_def
        MAX_INTEREST_LEN_def MAX_MESSAGE_LEN_def)
  moreover have "list_all (\<lambda>c. c < 0x100) (trim (orText (email b) [])) \<longrightarrow>
      length (vEmail (normalize_inputs e b)) = length (trim (orText (email b) []))"
    by (simp add: email toLowerCase_length)
  moreover have "normalize_inputs e b' = normalize_inputs e b \<and> gotcha b' = gotcha b \<and>
    turnstile_response b' = turnstile_response b \<longrightarrow>
      handler e (r\<lparr>body := b'\<rparr>) t = handler e (r\<lparr>body := b\<rparr>) t"
    using handler_reads_normalized by blast
  moreover have "\<forall>tr m. Transporter_sendMail tr m \<in> set (effects (handler e r t)) \<longrightarrow>
      m = compose e (client_ip r) (normalize_inputs e (body r))"
    using handler_sendMail by blast
  moreover have "\<exists>pre post. x = pre @ trim x @ post \<and> list_all isWhiteSpace pre \<and>
      list_all isWhiteSpace post"
    by (rule trim_split)
  moreover have "trim x \<noteq> [] \<longrightarrow> \<not> isWhiteSpace (hd (trim x)) \<and> \<not> isWhiteSpace (last (trim x))"
    using trim_ends by blast
  ultimately show ?thesis by simp
qed

theorem fields_trimmed_and_capped_witness:
  "trim (js ''  Jane Doe '') = js ''Jane Doe'' \<and>
   \<not> isWhiteSpace (hd (trim (js ''  Jane Doe ''))) \<and>
   \<not> isWhiteSpace (last (trim (js ''  Jane Doe ''))) \<and>
   list_all (\<lambda>c. c < 0x100) (trim (orText (email padded_form) [])) \<and>
   length (vEmail (normalize_inputs (world_at 1000) padded_form)) = 16 \<and>
   normalize_inputs (world_at 1000) padded_form = normalize_inputs (world_at 1000) jane_form \<and>
   gotcha padded_form = gotcha jane_form \<and>
   turnstile_response padded_form = turnstile_response jane_form \<and>
   handler (world_at 1000) (jane_request\<lparr>body := padded_form\<rparr>) initial =
     handler (world_at 1000) (jane_request\<lparr>body := jane_form\<rparr>) initial \<and>
   vName (normalize_inputs (world_at 1000) padded_form) = js ''Jane Doe'' \<and>
   length (vName (normalize_inputs (world_at 1000) padded_form)) \<le> 120 \<and>
   Transporter_sendMail (transporter (world_at 1000))
       (compose (world_at 1000) jane_ip (normalize_inputs (world_at 1000) jane_form))
     \<in> set (effects (handler (world_at 1000) jane_request initial))"
proof -
  have trimmed: "trim (js ''  Jane Doe '') = js ''Jane Doe''" and some: "js ''Jane Doe'' \<noteq> []"
    and latin: "list_all (\<lambda>c. c < 0x100) (trim (orText (email padded_form) []))"
    and len: "length (trim (orText (email padded_form) [])) = 16"
    by (simp_all add: padded_form_def jane_form_def js_def trim_def isWhiteSpace_def orText_def)
  have same: "normalize_inputs (world_at 1000) padded_form = normalize_inputs (world_at 1000) jane_form \<and>
      gotcha padded_form = gotcha jane_form \<and>
      turnstile_response padded_form = turnstile_response jane_form"
    by code_simp
  have sent: "Transporter_sendMail (transporter (world_at 1000))
       (compose (world_at 1000) jane_ip (normalize_inputs (world_at 1000) jane_form))
     \<in> set (effects (handler (world_at 1000) jane_request initial))"
    by (simp add: handler_jane)
  note inst = fields_trimmed_and_capped[where x = "js ''  Jane Doe ''" and b = jane_form
      and b' = padded_form and e = "world_at 1000" and r = jane_request and t = initial]
  note padded = fields_trimmed_and_capped[where x = "js ''  Jane Doe ''" and b = padded_form
      and b' = padded_form and e = "world_at 1000" and r = jane_request and t = initial]
  from inst trimmed some have ends: "\<not> isWhiteSpace (hd (trim (js ''  Jane Doe ''))) \<and>
      \<not> isWhiteSpace (last (trim (js ''  Jane Doe '')))"
    by simp
  from padded[THEN conjunct2, THEN conjunct2, THEN conjunct2, THEN conjunct2, THEN conjunct1,
      rule_format, OF latin] len
  have "length (vEmail (normalize_inputs (world_at 1000) padded_form)) = 16"
    by simp
  moreover from inst same have "handler (world_at 1000) (jane_request\<lparr>body := padded_form\<rparr>) initial =
     handler (world_at 1000) (jane_request\<lparr>body := jane_form\<rparr>) initial"
    by blast
  moreover from inst have "length (vName (normalize_inputs (world_at 1000) jane_form)) \<le> 120"
    by blast
  moreover have "vName (normalize_inputs (world_at 1000) padded_form) = js ''Jane Doe''"
    using same by (simp add: jane_fields)
  ultimately show ?thesis
    using same sent trimmed ends latin by simp
qed

text \<open>
  The claim as the spec words it has the email capped to a maximum length like the
  other fields. The source has four maxima and none for the email: \<open>vEmail\<close> is
  \<open>clean(email).toLowerCase()\<close> with no \<open>slice\<close>, so an email of 5012 code units (5000
  times \<open>a\<close>, then \<open>@example.com\<close>) is longer than every maximum of the source, passes
  the validation whole, and is the Reply-To of the mail that is sent.
\<close>

theorem long_email_counterexample:
  "email (body long_email_request) = Some long_email \<and>
   length long_email = 5012 \<and>
   vEmail (normalize_inputs (world_at 1000) (body long_email_request)) = long_email \<and>
   5000 < length (vEmail (normalize_inputs (world_at 1000) (body long_email_request))) \<and>
   handler (world_at 1000) long_email_request initial =
     \<lparr>resp = \<lparr>status = 200, ok = True, error = None\<rparr>,
      effects = [Fetch_siteverify [] (js ''token'') jane_ip,
                 Transporter_verify (transporter (world_at 1000)),
                 Transporter_sendMail (transporter (world_at 1000))
                   (compose (world_at 1000) jane_ip
                      (normalize_inputs (world_at 1000) (body long_email_request)))],
      state = initial\<lparr>hits := [\<lparr>ip = jane_ip, time = 1000\<rparr>]\<rparr>\<rparr> \<and>
   replyTo (compose (world_at 1000) jane_ip
      (normalize_inputs (world_at 1000) (body long_email_request))) = long_email"
proof -
  have "email (body long_email_request) = Some long_email"
    by (simp add: long_email_request_def)
  moreover have v: "vEmail (normalize_inputs (world_at 1000) (body long_email_request)) = long_email"
    by (simp add: long_email_fields)
  moreover have "replyTo (compose (world_at 1000) jane_ip
      (normalize_inputs (world_at 1000) (body long_email_request))) = long_email"
    by (simp add: compose_def v)
  ultimately show ?thesis
    by (simp add: handler_long_email[of 1000] long_email_length accept_def)
qed

section \<open>The rate limit\<close>

lemma isBlocked_hits: "hits (snd (isBlocked i n1 n2 t)) = hits t"
  by (simp add: isBlocked_def split: option.splits)

lemma markBad_hits: "hits (markBad i now nowP t) = hits t"
  by (simp add: markBad_def punish_def Let_def)

lemma rateLimited_blocked: "blocked (snd (rateLimited i now t)) = blocked t"
  by (simp add: rateLimited_def Let_def)

lemma check_fields_hits: "check_fields e i f t = Some (a, t') \<Longrightarrow> hits t' = hits t"
  by (auto simp: check_fields_def markBad_hits split: if_splits)

lemma after_gates_hits: "hits (state (after_gates e r i t)) = hits t"
  by (auto simp: after_gates_def Let_def markBad_hits check_fields_hits
      split: option.splits outcome.splits prod.splits)

text \<open>What the rate check does to \<open>hits\<close>, as a function of \<open>hits\<close> alone.\<close>

lemma rateLimited_fst:
  "fst (rateLimited i now t) \<longleftrightarrow>
     MAX_PER_WINDOW \<le> length (filter (\<lambda>h. ip h = i) (filter (\<lambda>h. now - time h < WINDOW_MS) (hits t)))"
  by (simp add: rateLimited_def Let_def)

lemma rateLimited_hits:
  "hits (snd (rateLimited i now t)) =
     (if fst (rateLimited i now t) then filter (\<lambda>h. now - time h < WINDOW_MS) (hits t)
      else filter (\<lambda>h. now - time h < WINDOW_MS) (hits t) @ [\<lparr>ip = i, time = now\<rparr>])"
  by (simp add: rateLimited_def Let_def)

lemma rateLimited_same_hits:
  "hits t' = hits t \<Longrightarrow> fst (rateLimited i now t') = fst (rateLimited i now t) \<and>
     hits (snd (rateLimited i now t')) = hits (snd (rateLimited i now t))"
  by (simp add: rateLimited_fst rateLimited_hits)

lemma handler_hits:
  "hits (state (handler e r t)) =
     (if reaches_rate_check e r t then hits (snd (rateLimited (client_ip r) (now_rateLimited e) t))
      else hits t)"
proof (cases "reaches_rate_check e r t")
  case False
  obtain b t1 where blk: "isBlocked (client_ip r) (now_isBlocked1 e) (now_isBlocked2 e) t = (b, t1)"
    by (cases "isBlocked (client_ip r) (now_isBlocked1 e) (now_isBlocked2 e) t")
  then have h1: "hits t1 = hits t"
    using isBlocked_hits[of "client_ip r" "now_isBlocked1 e" "now_isBlocked2 e" t] by simp
  consider "req_method r \<noteq> js ''POST''"
    | "req_method r = js ''POST''" "\<not> is_json e r"
    | "req_method r = js ''POST''" "is_json e r" "honeypot (body r)"
    | "req_method r = js ''POST''" "is_json e r" "\<not> honeypot (body r)" "b"
    using False blk by (auto simp: reaches_rate_check_def)
  then have "hits (state (handler e r t)) = hits t"
  proof cases
    case 1
    then show ?thesis by (simp add: handler_not_POST)
  next
    case 2
    then show ?thesis by (simp add: handler_not_json)
  next
    case 3
    then show ?thesis by (simp add: handler_honeypot)
  next
    case 4
    with blk have "isBlocked (client_ip r) (now_isBlocked1 e) (now_isBlocked2 e) t = (True, t1)"
      by simp
    from handler_blocked[OF 4(1) 4(2) 4(3) this] h1 show ?thesis by simp
  qed
  with False show ?thesis by simp
next
  case True
  obtain t1 where b: "isBlocked (client_ip r) (now_isBlocked1 e) (now_isBlocked2 e) t = (False, t1)"
    using True by (cases "isBlocked (client_ip r) (now_isBlocked1 e) (now_isBlocked2 e) t")
      (simp add: reaches_rate_check_def)
  then have h1: "hits t1 = hits t"
    using isBlocked_hits[of "client_ip r" "now_isBlocked1 e" "now_isBlocked2 e" t] by simp
  obtain lim t2 where l: "rateLimited (client_ip r) (now_rateLimited e) t1 = (lim, t2)"
    by (cases "rateLimited (client_ip r) (now_rateLimited e) t1")
  have "hits (state (handler e r t)) = hits t2"
    using True b l
    by (cases lim) (simp_all add: handler_def reaches_rate_check_def after_gates_hits)
  also have "\<dots> = hits (snd (rateLimited (client_ip r) (now_rateLimited e) t))"
    using rateLimited_same_hits[OF h1, of "client_ip r" "now_rateLimited e"] l by simp
  finally show ?thesis using True by simp
qed

lemma admitted_iff:
  "admitted e r t \<longleftrightarrow>
     reaches_rate_check e r t \<and> \<not> fst (rateLimited (client_ip r) (now_rateLimited e) t)"
  using rateLimited_same_hits[OF isBlocked_hits, of "client_ip r" "now_rateLimited e"]
  by (simp add: admitted_def)

lemma in_window_pruned:
  assumes "now < T + WINDOW_MS"
  shows "in_window T i (filter (\<lambda>h. now - time h < WINDOW_MS) hs) = in_window T i hs"
proof -
  have "filter (\<lambda>h. ip h = i \<and> T \<le> time h \<and> time h < T + WINDOW_MS)
          (filter (\<lambda>h. now - time h < WINDOW_MS) hs) =
        filter (\<lambda>h. ip h = i \<and> T \<le> time h \<and> time h < T + WINDOW_MS) hs"
    using assms by (induction hs) auto
  then show ?thesis by (simp add: in_window_def)
qed

lemma in_window_le:
  assumes "now < T + WINDOW_MS"
  shows "in_window T i hs \<le> length (filter (\<lambda>h. ip h = i) (filter (\<lambda>h. now - time h < WINDOW_MS) hs))"
proof -
  have "in_window T i hs = in_window T i (filter (\<lambda>h. now - time h < WINDOW_MS) hs)"
    using in_window_pruned[OF assms] by simp
  also have "\<dots> \<le> length (filter (\<lambda>h. ip h = i) (filter (\<lambda>h. now - time h < WINDOW_MS) hs))"
    unfolding in_window_def
    by (induction hs) auto
  finally show ?thesis .
qed

lemma in_window_snoc:
  "in_window T i (hs @ [\<lparr>ip = j, time = now\<rparr>]) =
     in_window T i hs + (if j = i \<and> T \<le> now \<and> now < T + WINDOW_MS then 1 else 0)"
  by (simp add: in_window_def)

lemma rateLimited_in_window:
  assumes "T \<le> now" and "now < T + WINDOW_MS"
  shows "in_window T i (hits (snd (rateLimited j now t))) =
           in_window T i (hits t) + (if j = i \<and> \<not> fst (rateLimited j now t) then 1 else 0)"
proof (cases "fst (rateLimited j now t)")
  case True
  then show ?thesis
    using in_window_pruned[OF assms(2), of i "hits t"] by (simp add: rateLimited_hits)
next
  case False
  then show ?thesis
    using in_window_pruned[OF assms(2), of i "hits t"] assms
    by (simp add: rateLimited_hits in_window_snoc)
qed

lemma handler_in_window:
  assumes "T \<le> now_rateLimited e" and "now_rateLimited e < T + WINDOW_MS"
  shows "in_window T i (hits (state (handler e r t))) =
           in_window T i (hits t) + (if client_ip r = i \<and> admitted e r t then 1 else 0)"
proof (cases "reaches_rate_check e r t")
  case True
  then show ?thesis
    using rateLimited_in_window[OF assms, of i "client_ip r" t]
    by (simp add: handler_hits admitted_iff)
next
  case False
  then show ?thesis
    by (simp add: handler_hits admitted_iff)
qed

lemma serve_in_window:
  assumes "\<forall>(e, r) \<in> set trace. T \<le> now_rateLimited e \<and> now_rateLimited e < T + WINDOW_MS"
  shows "in_window T i (hits (serve trace t)) = in_window T i (hits t) + admissions i trace t"
  using assms
proof (induction trace arbitrary: t)
  case Nil
  then show ?case by simp
next
  case (Cons a trace)
  obtain e r where a: "a = (e, r)" by (cases a)
  from Cons.prems a have now: "T \<le> now_rateLimited e" "now_rateLimited e < T + WINDOW_MS"
    and rest: "\<forall>(e, r) \<in> set trace. T \<le> now_rateLimited e \<and> now_rateLimited e < T + WINDOW_MS"
    by auto
  show ?case
    using Cons.IH[OF rest, of "state (handler e r t)"] handler_in_window[OF now, of i r t] a
    by simp
qed

lemma sixth_is_limited:
  assumes window: "\<forall>(e', r') \<in> set trace. T \<le> now_rateLimited e' \<and> now_rateLimited e' < T + WINDOW_MS"
    and now: "now < T + WINDOW_MS"
    and five: "MAX_PER_WINDOW \<le> admissions i trace t"
  shows "fst (rateLimited i now (serve trace t))"
proof -
  have "MAX_PER_WINDOW \<le> in_window T i (hits (serve trace t))"
    using serve_in_window[OF window, of i t] five by simp
  also have "\<dots> \<le> length (filter (\<lambda>h. ip h = i)
      (filter (\<lambda>h. now - time h < WINDOW_MS) (hits (serve trace t))))"
    by (rule in_window_le[OF now])
  finally show ?thesis by (simp add: rateLimited_fst)
qed

text \<open>No IP ever has more than five entries in \<open>hits\<close>.\<close>

lemma filter_filter_length_le:
  "length (filter P (filter Q xs)) \<le> length (filter P xs)"
  by (induction xs) auto

lemma rateLimited_bounded:
  assumes "\<forall>i. length (filter (\<lambda>h. ip h = i) (hits t)) \<le> MAX_PER_WINDOW"
  shows "length (filter (\<lambda>h. ip h = i) (hits (snd (rateLimited j now t)))) \<le> MAX_PER_WINDOW"
proof -
  let ?hs = "filter (\<lambda>h. now - time h < WINDOW_MS) (hits t)"
  have le: "length (filter (\<lambda>h. ip h = i) ?hs) \<le> MAX_PER_WINDOW"
    using filter_filter_length_le[of "\<lambda>h. ip h = i" _ "hits t"] assms le_trans by blast
  show ?thesis
  proof (cases "fst (rateLimited j now t)")
    case True
    then show ?thesis
      using le by (simp add: rateLimited_hits)
  next
    case False
    then have "length (filter (\<lambda>h. ip h = j) ?hs) < MAX_PER_WINDOW"
      by (simp add: rateLimited_fst)
    then show ?thesis
      using False le by (auto simp: rateLimited_hits)
  qed
qed

lemma handler_bounded:
  assumes "\<forall>i. length (filter (\<lambda>h. ip h = i) (hits t)) \<le> MAX_PER_WINDOW"
  shows "\<forall>i. length (filter (\<lambda>h. ip h = i) (hits (state (handler e r t)))) \<le> MAX_PER_WINDOW"
  using assms rateLimited_bounded[OF assms] by (simp add: handler_hits)

lemma serve_bounded:
  assumes "\<forall>i. length (filter (\<lambda>h. ip h = i) (hits t)) \<le> MAX_PER_WINDOW"
  shows "\<forall>i. length (filter (\<lambda>h. ip h = i) (hits (serve trace t))) \<le> MAX_PER_WINDOW"
  using assms
proof (induction trace arbitrary: t)
  case Nil
  then show ?case by simp
next
  case (Cons a trace)
  obtain e r where a: "a = (e, r)" by (cases a)
  show ?case
    using Cons.IH[OF handler_bounded[OF Cons.prems, of e r]] a by simp
qed

lemma initial_bounded: "\<forall>i. length (filter (\<lambda>h. ip h = i) (hits initial)) \<le> MAX_PER_WINDOW"
  by (simp add: initial_def)

lemma expired_frees_a_slot:
  assumes bounded: "\<forall>i. length (filter (\<lambda>h. ip h = i) (hits t)) \<le> MAX_PER_WINDOW"
    and old: "h \<in> set (hits t)" "ip h = i" "WINDOW_MS \<le> now - time h"
  shows "\<not> fst (rateLimited i now t)"
proof -
  have "h \<in> set (filter (\<lambda>h. ip h = i) (hits t))"
    using old by simp
  moreover have "\<not> now - time h < WINDOW_MS"
    using old by simp
  ultimately have "length (filter (\<lambda>h. now - time h < WINDOW_MS) (filter (\<lambda>h. ip h = i) (hits t)))
      < length (filter (\<lambda>h. ip h = i) (hits t))"
    by (rule length_filter_less)
  moreover have "filter (\<lambda>h. now - time h < WINDOW_MS) (filter (\<lambda>h. ip h = i) (hits t)) =
      filter (\<lambda>h. ip h = i) (filter (\<lambda>h. now - time h < WINDOW_MS) (hits t))"
    by (simp add: conj_commute)
  ultimately show ?thesis
    using bounded[rule_format, of i] by (simp add: rateLimited_fst)
qed

lemma check_fields_status: "check_fields e i f t = Some (a, t') \<Longrightarrow> status a = 400"
  by (auto simp: check_fields_def reject_def split: if_splits)

lemma deliver_status: "deliver e i f = (a, es) \<Longrightarrow> status a = 500 \<or> status a = 200"
  by (auto simp: deliver_def reject_def accept_def split: if_splits outcome.splits)

lemma after_gates_status:
  "status (resp (after_gates e r i t)) = 400 \<or> status (resp (after_gates e r i t)) = 500 \<or>
   status (resp (after_gates e r i t)) = 200"
  by (auto simp: after_gates_def Let_def reject_def split: option.splits outcome.splits prod.splits
      dest: check_fields_status deliver_status)

lemma handler_at_rate_check:
  assumes "reaches_rate_check e r t"
  shows "fst (rateLimited (client_ip r) (now_rateLimited e) t) \<Longrightarrow>
           resp (handler e r t) = reject 429 (js ''Too many requests, try again later.'') \<and>
           effects (handler e r t) = []"
    and "\<not> fst (rateLimited (client_ip r) (now_rateLimited e) t) \<Longrightarrow>
           handler e r t = after_gates e r (client_ip r)
             (snd (rateLimited (client_ip r) (now_rateLimited e)
               (snd (isBlocked (client_ip r) (now_isBlocked1 e) (now_isBlocked2 e) t))))"
proof -
  obtain t1 where blk: "isBlocked (client_ip r) (now_isBlocked1 e) (now_isBlocked2 e) t = (False, t1)"
    using assms by (cases "isBlocked (client_ip r) (now_isBlocked1 e) (now_isBlocked2 e) t")
      (simp add: reaches_rate_check_def)
  then have h1: "hits t1 = hits t"
    using isBlocked_hits[of "client_ip r" "now_isBlocked1 e" "now_isBlocked2 e" t] by simp
  note same = rateLimited_same_hits[OF h1, of "client_ip r" "now_rateLimited e"]
  obtain lim t2 where l: "rateLimited (client_ip r) (now_rateLimited e) t1 = (lim, t2)"
    by (cases "rateLimited (client_ip r) (now_rateLimited e) t1")
  from assms have gates: "req_method r = js ''POST''" "is_json e r" "\<not> honeypot (body r)"
    by (simp_all add: reaches_rate_check_def)
  {
    assume "fst (rateLimited (client_ip r) (now_rateLimited e) t)"
    with same l have "rateLimited (client_ip r) (now_rateLimited e) t1 = (True, t2)" by simp
    from handler_limited[OF gates blk this]
    show "resp (handler e r t) = reject 429 (js ''Too many requests, try again later.'') \<and>
           effects (handler e r t) = []" by simp
  }
  {
    assume "\<not> fst (rateLimited (client_ip r) (now_rateLimited e) t)"
    with same l have "rateLimited (client_ip r) (now_rateLimited e) t1 = (False, t2)" by simp
    from handler_admitted[OF gates blk this] blk this
    show "handler e r t = after_gates e r (client_ip r)
             (snd (rateLimited (client_ip r) (now_rateLimited e)
               (snd (isBlocked (client_ip r) (now_isBlocked1 e) (now_isBlocked2 e) t))))"
      by simp
  }
qed

lemma admitted_recorded:
  assumes "admitted e r t"
  shows "status (resp (handler e r t)) \<noteq> 429"
    and "\<lparr>ip = client_ip r, time = now_rateLimited e\<rparr> \<in> set (hits (state (handler e r t)))"
proof -
  from assms have reach: "reaches_rate_check e r t"
    and pass: "\<not> fst (rateLimited (client_ip r) (now_rateLimited e) t)"
    by (simp_all add: admitted_iff)
  show "status (resp (handler e r t)) \<noteq> 429"
    using after_gates_status[of e r "client_ip r"
        "snd (rateLimited (client_ip r) (now_rateLimited e)
               (snd (isBlocked (client_ip r) (now_isBlocked1 e) (now_isBlocked2 e) t)))"]
    by (auto simp: handler_at_rate_check(2)[OF reach pass])
  show "\<lparr>ip = client_ip r, time = now_rateLimited e\<rparr> \<in> set (hits (state (handler e r t)))"
    using reach pass by (simp add: handler_hits rateLimited_hits)
qed

lemma jane_reaches:
  "blocked t jane_ip = None \<Longrightarrow> reaches_rate_check (world_at n) jane_request t"
  by (simp add: reaches_rate_check_def jane_POST jane_json jane_no_honeypot jane_ip isBlocked_def)

lemma handler_jane_admitted:
  assumes "blocked t jane_ip = None" and "\<not> fst (rateLimited jane_ip n t)"
  shows "handler (world_at n) jane_request t =
     \<lparr>resp = accept,
      effects = [Fetch_siteverify [] (js ''token'') jane_ip,
                 Transporter_verify (transporter (world_at n)),
                 Transporter_sendMail (transporter (world_at n))
                   (compose (world_at n) jane_ip (normalize_inputs (world_at n) jane_form))],
      state = snd (rateLimited jane_ip n t)\<rparr>"
proof -
  have now: "now_rateLimited (world_at n) = n"
    by (simp add: world_at_def)
  have blk: "isBlocked jane_ip (now_isBlocked1 (world_at n)) (now_isBlocked2 (world_at n)) t = (False, t)"
    using assms(1) by (simp add: isBlocked_def)
  from handler_at_rate_check(2)[OF jane_reaches[OF assms(1)], of n] assms(2)
  show ?thesis
    by (simp add: jane_ip now blk after_gates_jane)
qed

lemma serve_five: "serve five_requests initial = five_hits"
proof -
  have step: "blocked t jane_ip = None \<Longrightarrow> \<not> fst (rateLimited jane_ip n t) \<Longrightarrow>
      state (handler (world_at n) jane_request t) = snd (rateLimited jane_ip n t)" for t n
    by (simp add: handler_jane_admitted)
  show ?thesis
    unfolding five_requests_def five_hits_def
    by (simp add: step rateLimited_def initial_def WINDOW_MS_def MAX_PER_WINDOW_def)
qed

lemma admissions_five: "admissions jane_ip five_requests initial = 5"
proof -
  have step: "blocked t jane_ip = None \<Longrightarrow> \<not> fst (rateLimited jane_ip n t) \<Longrightarrow>
      state (handler (world_at n) jane_request t) = snd (rateLimited jane_ip n t) \<and>
      admitted (world_at n) jane_request t" for t n
    using jane_reaches[of t n]
    by (simp add: handler_jane_admitted admitted_iff jane_ip) (simp add: world_at_def)
  show ?thesis
    unfolding five_requests_def
    by (simp add: step jane_ip rateLimited_def initial_def WINDOW_MS_def MAX_PER_WINDOW_def)
qed

text \<open>
  Claim C1. \<open>rateLimited(ip)\<close> returns true exactly when at least 5 entries of that IP
  are left in \<open>hits\<close> after the entries of 60 seconds and older are dropped, and then it
  adds nothing; otherwise it appends the attempt and returns false. A request that
  reaches the rate check while the IP is limited gets the 429 reply and causes nothing
  else. Hence, after any list of invocations whose rate checks all read a clock inside
  one window of 60 seconds, and of which 5 from one IP were admitted, a further request
  of that IP whose clock is still before the end of the window gets the 429 reply if it
  reaches the rate check. And in every state the process can reach from its start, a
  request of an IP that has an entry of 60 seconds or older is admitted when it reaches
  the rate check: its attempt is recorded and the reply is not the 429 one.
\<close>

theorem rate_limit_window:
  "(fst (rateLimited i now t) \<longleftrightarrow>
      5 \<le> length (filter (\<lambda>h. ip h = i) (filter (\<lambda>h. now - time h < 60 * 1000) (hits t)))) \<and>
   snd (rateLimited i now t) =
     (if fst (rateLimited i now t)
      then t\<lparr>hits := filter (\<lambda>h. now - time h < 60 * 1000) (hits t)\<rparr>
      else t\<lparr>hits := filter (\<lambda>h. now - time h < 60 * 1000) (hits t) @ [\<lparr>ip = i, time = now\<rparr>]\<rparr>) \<and>
   (reaches_rate_check e r t \<and> fst (rateLimited (client_ip r) (now_rateLimited e) t) \<longrightarrow>
      resp (handler e r t) = reject 429 (js ''Too many requests, try again later.'') \<and>
      effects (handler e r t) = []) \<and>
   ((\<forall>(e', r') \<in> set trace. T \<le> now_rateLimited e' \<and> now_rateLimited e' < T + 60 * 1000) \<and>
    now_rateLimited e < T + 60 * 1000 \<and>
    5 \<le> admissions (client_ip r) trace t \<and>
    reaches_rate_check e r (serve trace t) \<longrightarrow>
      resp (handler e r (serve trace t)) = reject 429 (js ''Too many requests, try again later.'')) \<and>
   (h \<in> set (hits (serve trace initial)) \<and> ip h = client_ip r \<and>
    60 * 1000 \<le> now_rateLimited e - time h \<and>
    reaches_rate_check e r (serve trace initial) \<longrightarrow>
      admitted e r (serve trace initial) \<and>
      status (resp (handler e r (serve trace initial))) \<noteq> 429 \<and>
      \<lparr>ip = client_ip r, time = now_rateLimited e\<rparr>
        \<in> set (hits (state (handler e r (serve trace initial)))))"
proof (intro conjI impI)
  show "fst (rateLimited i now t) \<longleftrightarrow>
      5 \<le> length (filter (\<lambda>h. ip h = i) (filter (\<lambda>h. now - time h < 60 * 1000) (hits t)))"
    by (simp add: rateLimited_fst MAX_PER_WINDOW_def WINDOW_MS_def)
  show "snd (rateLimited i now t) =
     (if fst (rateLimited i now t)
      then t\<lparr>hits := filter (\<lambda>h. now - time h < 60 * 1000) (hits t)\<rparr>
      else t\<lparr>hits := filter (\<lambda>h. now - time h < 60 * 1000) (hits t) @ [\<lparr>ip = i, time = now\<rparr>]\<rparr>)"
    by (simp add: rateLimited_def Let_def WINDOW_MS_def)
next
  assume a: "reaches_rate_check e r t \<and> fst (rateLimited (client_ip r) (now_rateLimited e) t)"
  with handler_at_rate_check(1)[of e r t]
  show "resp (handler e r t) = reject 429 (js ''Too many requests, try again later.'')"
    and "effects (handler e r t) = []"
    by simp_all
next
  assume a: "(\<forall>(e', r') \<in> set trace. T \<le> now_rateLimited e' \<and> now_rateLimited e' < T + 60 * 1000) \<and>
    now_rateLimited e < T + 60 * 1000 \<and>
    5 \<le> admissions (client_ip r) trace t \<and>
    reaches_rate_check e r (serve trace t)"
  then have "fst (rateLimited (client_ip r) (now_rateLimited e) (serve trace t))"
    using sixth_is_limited[of trace T "now_rateLimited e" "client_ip r" t]
    by (simp add: WINDOW_MS_def MAX_PER_WINDOW_def)
  with a handler_at_rate_check(1)[of e r "serve trace t"]
  show "resp (handler e r (serve trace t)) = reject 429 (js ''Too many requests, try again later.'')"
    by simp
next
  assume a: "h \<in> set (hits (serve trace initial)) \<and> ip h = client_ip r \<and>
    60 * 1000 \<le> now_rateLimited e - time h \<and>
    reaches_rate_check e r (serve trace initial)"
  then have "\<not> fst (rateLimited (client_ip r) (now_rateLimited e) (serve trace initial))"
    using expired_frees_a_slot[OF serve_bounded[OF initial_bounded], of h trace "client_ip r"
        "now_rateLimited e"]
    by (simp add: WINDOW_MS_def)
  with a show adm: "admitted e r (serve trace initial)"
    by (simp add: admitted_iff)
  from admitted_recorded[OF adm]
  show "status (resp (handler e r (serve trace initial))) \<noteq> 429"
    and "\<lparr>ip = client_ip r, time = now_rateLimited e\<rparr>
        \<in> set (hits (state (handler e r (serve trace initial))))"
    by simp_all
qed

theorem rate_limit_window_witness:
  "admissions jane_ip five_requests initial = 5 \<and>
   fst (rateLimited jane_ip 6000 (serve five_requests initial)) \<and>
   snd (rateLimited jane_ip 6000 (serve five_requests initial)) = five_hits \<and>
   resp (handler (world_at 6000) jane_request (serve five_requests initial)) =
     reject 429 (js ''Too many requests, try again later.'') \<and>
   effects (handler (world_at 6000) jane_request (serve five_requests initial)) = [] \<and>
   \<lparr>ip = jane_ip, time = 1000\<rparr> \<in> set (hits (serve five_requests initial)) \<and>
   admitted (world_at 61000) jane_request (serve five_requests initial) \<and>
   status (resp (handler (world_at 61000) jane_request (serve five_requests initial))) \<noteq> 429 \<and>
   \<lparr>ip = jane_ip, time = 61000\<rparr>
     \<in> set (hits (state (handler (world_at 61000) jane_request (serve five_requests initial))))"
proof -
  have window: "\<forall>(e', r') \<in> set five_requests.
      1000 \<le> now_rateLimited e' \<and> now_rateLimited e' < 1000 + 60 * 1000"
    by (simp add: five_requests_def world_at_def)
  have now6: "now_rateLimited (world_at 6000) < 1000 + 60 * 1000"
    and now7: "60 * 1000 \<le> now_rateLimited (world_at 61000) - time \<lparr>ip = jane_ip, time = 1000\<rparr>"
    and t6: "now_rateLimited (world_at 6000) = 6000"
    and t7: "now_rateLimited (world_at 61000) = 61000"
    by (simp_all add: world_at_def)
  have five: "5 \<le> admissions (client_ip jane_request) five_requests initial"
    by (simp add: admissions_five jane_ip)
  have reach: "reaches_rate_check (world_at n) jane_request (serve five_requests initial)" for n
    unfolding serve_five by (rule jane_reaches) (simp add: five_hits_def initial_def)
  have oldest: "\<lparr>ip = jane_ip, time = 1000\<rparr> \<in> set (hits (serve five_requests initial))"
    and mine: "ip \<lparr>ip = jane_ip, time = 1000\<rparr> = client_ip jane_request"
    unfolding serve_five by (simp_all add: five_hits_def jane_ip)
  note inst6 = rate_limit_window[where i = jane_ip and now = 6000
      and t = "serve five_requests initial" and e = "world_at 6000" and r = jane_request
      and trace = five_requests and T = 1000]
  note inst6' = rate_limit_window[where t = initial and e = "world_at 6000" and r = jane_request
      and trace = five_requests and T = 1000]
  note inst7 = rate_limit_window[where e = "world_at 61000" and r = jane_request
      and trace = five_requests and h = "\<lparr>ip = jane_ip, time = 1000\<rparr>"]
  have limited: "fst (rateLimited jane_ip 6000 (serve five_requests initial))"
    using inst6 unfolding serve_five by (simp add: five_hits_def initial_def)
  have unchanged: "snd (rateLimited jane_ip 6000 (serve five_requests initial)) = five_hits"
    using inst6 limited unfolding serve_five by (simp add: five_hits_def initial_def)
  have rejected: "resp (handler (world_at 6000) jane_request (serve five_requests initial)) =
     reject 429 (js ''Too many requests, try again later.'')"
    using inst6' window now6 five reach[of 6000] by blast
  have silent: "effects (handler (world_at 6000) jane_request (serve five_requests initial)) = []"
    using inst6 limited reach[of 6000] by (simp add: jane_ip t6)
  have again: "admitted (world_at 61000) jane_request (serve five_requests initial) \<and>
      status (resp (handler (world_at 61000) jane_request (serve five_requests initial))) \<noteq> 429 \<and>
      \<lparr>ip = client_ip jane_request, time = now_rateLimited (world_at 61000)\<rparr>
        \<in> set (hits (state (handler (world_at 61000) jane_request (serve five_requests initial))))"
    using inst7 oldest mine now7 reach[of 61000] by blast
  from admissions_five limited unchanged rejected silent oldest again show ?thesis
    by (simp add: jane_ip t7)
qed

section \<open>Bad events and the block list\<close>

lemma markBad_badHits:
  "badHits (markBad i now nowP t) =
     filter (\<lambda>h. now - time h < 10 * 60 * 1000) (badHits t @ [\<lparr>ip = i, time = now\<rparr>])"
  by (simp add: markBad_def punish_def Let_def)

lemma markBad_blocked:
  "blocked (markBad i now nowP t) =
     (if 8 \<le> length (filter (\<lambda>h. ip h = i) (badHits (markBad i now nowP t)))
      then (blocked t)(i \<mapsto> nowP + 60 * 60 * 1000) else blocked t)"
  by (simp add: markBad_def punish_def Let_def BLOCK_MS_def)

lemma markBad_other: "j \<noteq> i \<Longrightarrow> blocked (markBad j now nowP t) i = blocked t i"
  by (simp add: markBad_blocked)

lemma isBlocked_other: "j \<noteq> i \<Longrightarrow> blocked (snd (isBlocked j n1 n2 t)) i = blocked t i"
  by (simp add: isBlocked_def split: option.splits)

lemma isBlocked_active:
  "blocked t i = Some until \<Longrightarrow> until \<noteq> 0 \<Longrightarrow> n1 < until \<Longrightarrow> isBlocked i n1 n2 t = (True, t)"
  by (simp add: isBlocked_def)

lemma isBlocked_expired:
  "blocked t i = Some until \<Longrightarrow> until \<noteq> 0 \<Longrightarrow> until \<le> n1 \<Longrightarrow> until \<le> n2 \<Longrightarrow>
     isBlocked i n1 n2 t = (False, t\<lparr>blocked := (blocked t)(i := None)\<rparr>)"
  by (simp add: isBlocked_def)

lemma check_fields_other:
  "check_fields e j f t = Some (a, t') \<Longrightarrow> j \<noteq> i \<Longrightarrow> blocked t' i = blocked t i"
  by (auto simp: check_fields_def markBad_other split: if_splits)

lemma after_gates_other: "j \<noteq> i \<Longrightarrow> blocked (state (after_gates e r j t)) i = blocked t i"
  by (auto simp: after_gates_def Let_def markBad_other check_fields_other
      split: option.splits outcome.splits prod.splits)

lemma handler_other:
  assumes "client_ip r \<noteq> i"
  shows "blocked (state (handler e r t)) i = blocked t i"
proof -
  obtain b t1 where blk: "isBlocked (client_ip r) (now_isBlocked1 e) (now_isBlocked2 e) t = (b, t1)"
    by (cases "isBlocked (client_ip r) (now_isBlocked1 e) (now_isBlocked2 e) t")
  then have b1: "blocked t1 i = blocked t i"
    using isBlocked_other[OF assms, of "now_isBlocked1 e" "now_isBlocked2 e" t] by simp
  obtain lim t2 where l: "rateLimited (client_ip r) (now_rateLimited e) t1 = (lim, t2)"
    by (cases "rateLimited (client_ip r) (now_rateLimited e) t1")
  then have b2: "blocked t2 i = blocked t i"
    using rateLimited_blocked[of "client_ip r" "now_rateLimited e" t1] b1 by simp
  show ?thesis
    using blk l b1 b2 after_gates_other[OF assms, of e r t2]
    by (cases b; cases lim) (simp_all add: handler_def)
qed

lemma handler_while_blocked:
  assumes "blocked t (client_ip r) = Some until" and "until \<noteq> 0" and "now_isBlocked1 e < until"
    and "req_method r = js ''POST''" and "is_json e r" and "\<not> honeypot (body r)"
  shows "handler e r t =
     \<lparr>resp = reject 403 (js ''IP temporarily blocked.''), effects = [], state = t\<rparr>"
  using handler_blocked[OF assms(4-6) isBlocked_active[OF assms(1-3)]] .

lemma handler_keeps_block:
  assumes "blocked t i = Some until" and "until \<noteq> 0"
    and "client_ip r = i \<longrightarrow> now_isBlocked1 e < until"
  shows "blocked (state (handler e r t)) i = Some until"
proof (cases "client_ip r = i")
  case False
  then show ?thesis using handler_other[of r i e t] assms(1) by simp
next
  case True
  with assms have act: "isBlocked (client_ip r) (now_isBlocked1 e) (now_isBlocked2 e) t = (True, t)"
    using isBlocked_active[of t i until "now_isBlocked1 e" "now_isBlocked2 e"] by simp
  then have "state (handler e r t) = t"
    by (simp add: handler_def)
  with assms(1) show ?thesis by simp
qed

lemma serve_keeps_block:
  assumes "blocked t i = Some until" and "until \<noteq> 0"
    and "\<forall>(e, r) \<in> set trace. client_ip r = i \<longrightarrow> now_isBlocked1 e < until"
  shows "blocked (serve trace t) i = Some until"
  using assms
proof (induction trace arbitrary: t)
  case Nil
  then show ?case by simp
next
  case (Cons a trace)
  obtain e r where a: "a = (e, r)" by (cases a)
  from Cons.prems a have first: "client_ip r = i \<longrightarrow> now_isBlocked1 e < until"
    and rest: "\<forall>(e, r) \<in> set trace. client_ip r = i \<longrightarrow> now_isBlocked1 e < until"
    by auto
  from Cons.IH[OF handler_keeps_block[OF Cons.prems(1,2) first] Cons.prems(2) rest] a
  show ?case by simp
qed

lemma handler_after_expiry:
  assumes "blocked t (client_ip r) = Some until" and "until \<noteq> 0"
    and "until \<le> now_isBlocked1 e" and "until \<le> now_isBlocked2 e"
    and "req_method r = js ''POST''" and "is_json e r" and "\<not> honeypot (body r)"
  shows "reaches_rate_check e r t"
    and "handler e r t = handler e r (t\<lparr>blocked := (blocked t)(client_ip r := None)\<rparr>)"
proof -
  note gone = isBlocked_expired[OF assms(1-4)]
  show "reaches_rate_check e r t"
    using assms(5-7) gone by (simp add: reaches_rate_check_def)
  have "isBlocked (client_ip r) (now_isBlocked1 e) (now_isBlocked2 e)
      (t\<lparr>blocked := (blocked t)(client_ip r := None)\<rparr>) =
      (False, t\<lparr>blocked := (blocked t)(client_ip r := None)\<rparr>)"
    by (simp add: isBlocked_def)
  with gone assms(5-7)
  show "handler e r t = handler e r (t\<lparr>blocked := (blocked t)(client_ip r := None)\<rparr>)"
    by (simp add: handler_def)
qed

lemma reaches_not_403:
  assumes "reaches_rate_check e r t"
  shows "status (resp (handler e r t)) \<noteq> 403"
proof (cases "fst (rateLimited (client_ip r) (now_rateLimited e) t)")
  case True
  from handler_at_rate_check(1)[OF assms True] show ?thesis by (simp add: reject_def)
next
  case False
  show ?thesis
    using after_gates_status[of e r "client_ip r"
        "snd (rateLimited (client_ip r) (now_rateLimited e)
               (snd (isBlocked (client_ip r) (now_isBlocked1 e) (now_isBlocked2 e) t)))"]
    by (auto simp: handler_at_rate_check(2)[OF assms False])
qed

lemma no_token_gates:
  shows no_token_ip: "client_ip no_token_request = jane_ip"
    and no_token_POST: "req_method no_token_request = js ''POST''"
    and no_token_json: "is_json e no_token_request"
    and no_token_no_honeypot: "\<not> honeypot (body no_token_request)"
    and no_token_missing: "turnstile_response (body no_token_request) = None"
  by code_simp+

lemma handler_no_token:
  assumes "blocked t jane_ip = None" and "\<not> fst (rateLimited jane_ip n t)"
  shows "handler (world_at n) no_token_request t =
     \<lparr>resp = reject 400 (js ''missing_turnstile_token''), effects = [],
      state = markBad jane_ip n n (snd (rateLimited jane_ip n t))\<rparr>"
proof -
  have clock: "now_rateLimited (world_at n) = n" "now_markBad (world_at n) = n"
    "now_punish (world_at n) = n"
    by (simp_all add: world_at_def)
  have blk: "isBlocked jane_ip (now_isBlocked1 (world_at n)) (now_isBlocked2 (world_at n)) t = (False, t)"
    using assms(1) by (simp add: isBlocked_def)
  have "reaches_rate_check (world_at n) no_token_request t"
    using blk by (simp add: reaches_rate_check_def no_token_POST no_token_json
        no_token_no_honeypot no_token_ip)
  from handler_at_rate_check(2)[OF this] assms(2)
  show ?thesis
    by (simp add: no_token_ip clock blk after_gates_def no_token_missing)
qed

lemma serve_eight_bad: "serve eight_bad initial = markBad jane_ip 120000 120000 seven_bad"
proof -
  have step: "blocked t jane_ip = None \<Longrightarrow> \<not> fst (rateLimited jane_ip n t) \<Longrightarrow>
      state (handler (world_at n) no_token_request t) =
        markBad jane_ip n n (snd (rateLimited jane_ip n t))" for t n
    by (simp add: handler_no_token)
  show ?thesis
    unfolding eight_bad_def seven_bad_def
    by (simp add: step rateLimited_def markBad_def punish_def initial_def WINDOW_MS_def
        MAX_PER_WINDOW_def BLOCK_MS_def Let_def)
qed

text \<open>
  Claim C2. \<open>markBad(ip)\<close> appends the event with its time, drops the events of 10
  minutes and older, touches nothing of \<open>hits\<close>, and, when at least 8 events of that IP
  are left, sets the block of the IP to end one hour (3600000 ms) after the reading of
  the clock that \<open>punish\<close> takes. While the clock is before the end of a block,
  \<open>isBlocked\<close> is true and leaves the state alone, and a POST of JSON with an empty
  honeypot from that IP gets the 403 reply and causes nothing else; this goes on through
  any list of invocations in which every request of that IP comes before the end of the
  block. Once the clock has reached the end of the block, \<open>isBlocked\<close> is false and
  deletes the entry, and the request is handled as if the IP had never been blocked: its
  reply is not the 403 one. A clock reading is a time after 1970, so not negative; the
  end of a block is then never the number 0, which \<open>until &&\<close> takes for no block.
\<close>

theorem bad_events_block:
  "badHits (markBad i now nowP t) =
     filter (\<lambda>h. now - time h < 10 * 60 * 1000) (badHits t @ [\<lparr>ip = i, time = now\<rparr>]) \<and>
   hits (markBad i now nowP t) = hits t \<and>
   blocked (markBad i now nowP t) =
     (if 8 \<le> length (filter (\<lambda>h. ip h = i) (badHits (markBad i now nowP t)))
      then (blocked t)(i \<mapsto> nowP + 60 * 60 * 1000) else blocked t) \<and>
   (blocked t i = Some until \<and> until \<noteq> 0 \<and> n1 < until \<longrightarrow> isBlocked i n1 n2 t = (True, t)) \<and>
   (blocked t (client_ip r) = Some until \<and> until \<noteq> 0 \<and> now_isBlocked1 e < until \<and>
    req_method r = js ''POST'' \<and> is_json e r \<and> \<not> honeypot (body r) \<longrightarrow>
      handler e r t =
        \<lparr>resp = reject 403 (js ''IP temporarily blocked.''), effects = [], state = t\<rparr>) \<and>
   (0 \<le> nowP \<and> 8 \<le> length (filter (\<lambda>h. ip h = i) (badHits (markBad i now nowP t))) \<and>
    (\<forall>(e', r') \<in> set trace. client_ip r' = i \<longrightarrow> now_isBlocked1 e' < nowP + 60 * 60 * 1000) \<and>
    client_ip r = i \<and> now_isBlocked1 e < nowP + 60 * 60 * 1000 \<and>
    req_method r = js ''POST'' \<and> is_json e r \<and> \<not> honeypot (body r) \<longrightarrow>
      resp (handler e r (serve trace (markBad i now nowP t))) =
        reject 403 (js ''IP temporarily blocked.'') \<and>
      effects (handler e r (serve trace (markBad i now nowP t))) = []) \<and>
   (blocked t i = Some until \<and> until \<noteq> 0 \<and> until \<le> n1 \<and> until \<le> n2 \<longrightarrow>
      isBlocked i n1 n2 t = (False, t\<lparr>blocked := (blocked t)(i := None)\<rparr>)) \<and>
   (blocked t (client_ip r) = Some until \<and> until \<noteq> 0 \<and>
    until \<le> now_isBlocked1 e \<and> until \<le> now_isBlocked2 e \<and>
    req_method r = js ''POST'' \<and> is_json e r \<and> \<not> honeypot (body r) \<longrightarrow>
      reaches_rate_check e r t \<and>
      status (resp (handler e r t)) \<noteq> 403 \<and>
      handler e r t = handler e r (t\<lparr>blocked := (blocked t)(client_ip r := None)\<rparr>))"
proof (intro conjI impI)
  show "badHits (markBad i now nowP t) =
     filter (\<lambda>h. now - time h < 10 * 60 * 1000) (badHits t @ [\<lparr>ip = i, time = now\<rparr>])"
    by (rule markBad_badHits)
  show "hits (markBad i now nowP t) = hits t"
    by (rule markBad_hits)
  show "blocked (markBad i now nowP t) =
     (if 8 \<le> length (filter (\<lambda>h. ip h = i) (badHits (markBad i now nowP t)))
      then (blocked t)(i \<mapsto> nowP + 60 * 60 * 1000) else blocked t)"
    by (rule markBad_blocked)
next
  assume "blocked t i = Some until \<and> until \<noteq> 0 \<and> n1 < until"
  then show "isBlocked i n1 n2 t = (True, t)"
    using isBlocked_active by blast
next
  assume "blocked t (client_ip r) = Some until \<and> until \<noteq> 0 \<and> now_isBlocked1 e < until \<and>
    req_method r = js ''POST'' \<and> is_json e r \<and> \<not> honeypot (body r)"
  then show "handler e r t =
        \<lparr>resp = reject 403 (js ''IP temporarily blocked.''), effects = [], state = t\<rparr>"
    using handler_while_blocked by blast
next
  assume a: "0 \<le> nowP \<and> 8 \<le> length (filter (\<lambda>h. ip h = i) (badHits (markBad i now nowP t))) \<and>
    (\<forall>(e', r') \<in> set trace. client_ip r' = i \<longrightarrow> now_isBlocked1 e' < nowP + 60 * 60 * 1000) \<and>
    client_ip r = i \<and> now_isBlocked1 e < nowP + 60 * 60 * 1000 \<and>
    req_method r = js ''POST'' \<and> is_json e r \<and> \<not> honeypot (body r)"
  then have set: "blocked (markBad i now nowP t) i = Some (nowP + 60 * 60 * 1000)"
    by (simp add: markBad_blocked)
  from a have nonzero: "nowP + 60 * 60 * 1000 \<noteq> 0"
    by simp
  from a have quiet: "\<forall>(e', r') \<in> set trace. client_ip r' = i \<longrightarrow> now_isBlocked1 e' < nowP + 60 * 60 * 1000"
    by blast
  have "blocked (serve trace (markBad i now nowP t)) (client_ip r) = Some (nowP + 60 * 60 * 1000)"
    using serve_keeps_block[OF set nonzero quiet] a by simp
  from handler_while_blocked[OF this nonzero] a
  show "resp (handler e r (serve trace (markBad i now nowP t))) =
        reject 403 (js ''IP temporarily blocked.'')"
    and "effects (handler e r (serve trace (markBad i now nowP t))) = []"
    by simp_all
next
  assume "blocked t i = Some until \<and> until \<noteq> 0 \<and> until \<le> n1 \<and> until \<le> n2"
  then show "isBlocked i n1 n2 t = (False, t\<lparr>blocked := (blocked t)(i := None)\<rparr>)"
    using isBlocked_expired by blast
next
  assume a: "blocked t (client_ip r) = Some until \<and> until \<noteq> 0 \<and>
    until \<le> now_isBlocked1 e \<and> until \<le> now_isBlocked2 e \<and>
    req_method r = js ''POST'' \<and> is_json e r \<and> \<not> honeypot (body r)"
  then show reach: "reaches_rate_check e r t"
    using handler_after_expiry(1) by blast
  from reaches_not_403[OF reach] show "status (resp (handler e r t)) \<noteq> 403" .
  from a show "handler e r t = handler e r (t\<lparr>blocked := (blocked t)(client_ip r := None)\<rparr>)"
    using handler_after_expiry(2) by blast
qed

theorem bad_events_block_witness:
  "serve eight_bad initial = blocked_jane \<and>
   length (filter (\<lambda>h. ip h = jane_ip) (badHits blocked_jane)) = 8 \<and>
   blocked blocked_jane jane_ip = Some (120000 + 60 * 60 * 1000) \<and>
   isBlocked jane_ip 3719999 3719999 blocked_jane = (True, blocked_jane) \<and>
   handler (world_at 3719999) jane_request blocked_jane =
     \<lparr>resp = reject 403 (js ''IP temporarily blocked.''), effects = [], state = blocked_jane\<rparr> \<and>
   resp (handler (world_at 3719999) jane_request
       (serve [(world_at 130000, jane_request), (world_at 140000, no_token_request)] blocked_jane)) =
     reject 403 (js ''IP temporarily blocked.'') \<and>
   isBlocked jane_ip 3720000 3720000 blocked_jane =
     (False, blocked_jane\<lparr>blocked := (blocked blocked_jane)(jane_ip := None)\<rparr>) \<and>
   reaches_rate_check (world_at 3720000) jane_request blocked_jane \<and>
   status (resp (handler (world_at 3720000) jane_request blocked_jane)) \<noteq> 403"
proof -
  have reached: "serve eight_bad initial = blocked_jane"
    by (simp add: serve_eight_bad blocked_jane_def)
  have events: "badHits blocked_jane =
      map (\<lambda>n. \<lparr>ip = jane_ip, time = n\<rparr>)
        [15000, 30000, 45000, 60000, 75000, 90000, 105000, 120000]"
    using bad_events_block[where i = jane_ip and now = 120000 and nowP = 120000 and t = seven_bad]
    by (simp add: blocked_jane_def seven_bad_def)
  then have eight: "length (filter (\<lambda>h. ip h = jane_ip) (badHits blocked_jane)) = 8"
    by simp
  then have eight': "8 \<le> length (filter (\<lambda>h. ip h = jane_ip)
      (badHits (markBad jane_ip 120000 120000 seven_bad)))"
    by (simp add: blocked_jane_def)
  have expiry: "blocked blocked_jane jane_ip = Some (120000 + 60 * 60 * 1000)"
    using bad_events_block[where i = jane_ip and now = 120000 and nowP = 120000 and t = seven_bad]
      eight'
    by (simp add: blocked_jane_def)
  have expiry': "blocked blocked_jane (client_ip jane_request) = Some 3720000"
    using expiry by (simp add: jane_ip)
  have world: "now_isBlocked1 (world_at n) = n" "now_isBlocked2 (world_at n) = n" for n
    by (simp_all add: world_at_def)
  have active: "isBlocked jane_ip 3719999 3719999 blocked_jane = (True, blocked_jane)"
    using bad_events_block[where i = jane_ip and t = blocked_jane and until = 3720000
        and ?n1.0 = 3719999 and ?n2.0 = 3719999] expiry
    by simp
  have refused: "handler (world_at 3719999) jane_request blocked_jane =
     \<lparr>resp = reject 403 (js ''IP temporarily blocked.''), effects = [], state = blocked_jane\<rparr>"
    using bad_events_block[where t = blocked_jane and until = 3720000 and r = jane_request
        and e = "world_at 3719999"] expiry'
    by (simp add: world jane_POST jane_json jane_no_honeypot)
  have quiet: "\<forall>(e', r') \<in> set [(world_at 130000, jane_request), (world_at 140000, no_token_request)].
      client_ip r' = jane_ip \<longrightarrow> now_isBlocked1 e' < 120000 + 60 * 60 * 1000"
    by (simp add: world)
  have still: "resp (handler (world_at 3719999) jane_request
       (serve [(world_at 130000, jane_request), (world_at 140000, no_token_request)] blocked_jane)) =
     reject 403 (js ''IP temporarily blocked.'')"
    using bad_events_block[where i = jane_ip and now = 120000 and nowP = 120000 and t = seven_bad
        and trace = "[(world_at 130000, jane_request), (world_at 140000, no_token_request)]"
        and r = jane_request and e = "world_at 3719999"] eight' quiet
    by (simp add: blocked_jane_def jane_ip world jane_POST jane_json jane_no_honeypot)
  have evicted: "isBlocked jane_ip 3720000 3720000 blocked_jane =
     (False, blocked_jane\<lparr>blocked := (blocked blocked_jane)(jane_ip := None)\<rparr>)"
    using bad_events_block[where i = jane_ip and t = blocked_jane and until = 3720000
        and ?n1.0 = 3720000 and ?n2.0 = 3720000] expiry
    by simp
  have late: "blocked blocked_jane (client_ip jane_request) = Some 3720000 \<and> (3720000 :: int) \<noteq> 0 \<and>
      3720000 \<le> now_isBlocked1 (world_at 3720000) \<and> 3720000 \<le> now_isBlocked2 (world_at 3720000) \<and>
      req_method jane_request = js ''POST'' \<and> is_json (world_at 3720000) jane_request \<and> \<not> honeypot (body jane_request)"
    using expiry' by (simp add: world jane_POST jane_json jane_no_honeypot)
  note after_expiry = bad_events_block[THEN conjunct2, THEN conjunct2, THEN conjunct2,
      THEN conjunct2, THEN conjunct2, THEN conjunct2, THEN conjunct2, rule_format]
  from after_expiry[OF late]
  have again: "reaches_rate_check (world_at 3720000) jane_request blocked_jane \<and>
      status (resp (handler (world_at 3720000) jane_request blocked_jane)) \<noteq> 403"
    by blast
  from reached eight expiry active refused still evicted again show ?thesis
    by simp
qed

section \<open>The order of the gates\<close>

lemma handler_of_admitted:
  "admitted e r t \<Longrightarrow> handler e r t = after_gates e r (client_ip r) (gate_state e r t)"
  using handler_at_rate_check(2)[of e r t] by (simp add: admitted_iff gate_state_def)

lemma after_gates_no_token:
  "\<not> truthy (turnstile_response (body r)) \<Longrightarrow>
     after_gates e r i t =
       \<lparr>resp = reject 400 (js ''missing_turnstile_token''), effects = [],
        state = markBad i (now_markBad e) (now_punish e) t\<rparr>"
  by (simp add: after_gates_def truthy_def split: option.splits)

lemma after_gates_failed:
  "turnstile_response (body r) = Some token \<Longrightarrow> token \<noteq> [] \<Longrightarrow> siteverify e = Returns False \<Longrightarrow>
     after_gates e r i t =
       \<lparr>resp = reject 400 (js ''turnstile_failed''),
        effects = [Fetch_siteverify (orText (process_env e ''TURNSTILE_SECRET_KEY'') []) token i,
                   Console_error],
        state = markBad i (now_markBad e) (now_punish e) t\<rparr>"
  by (simp add: after_gates_def)

lemma after_gates_fields:
  "turnstile_response (body r) = Some token \<Longrightarrow> token \<noteq> [] \<Longrightarrow> siteverify e = Returns True \<Longrightarrow>
   check_fields e i (normalize_inputs e (body r)) t = Some (failure, t') \<Longrightarrow>
     after_gates e r i t =
       \<lparr>resp = failure,
        effects = [Fetch_siteverify (orText (process_env e ''TURNSTILE_SECRET_KEY'') []) token i],
        state = t'\<rparr>"
  by (simp add: after_gates_def)

lemma after_gates_fetch:
  "Fetch_siteverify s tok j \<in> set (effects (after_gates e r i t)) \<Longrightarrow>
     truthy (turnstile_response (body r))"
  by (auto simp: after_gates_def truthy_def split: option.splits if_splits)

lemma handler_fetch:
  assumes "Fetch_siteverify s tok j \<in> set (effects (handler e r t))"
  shows "admitted e r t \<and> truthy (turnstile_response (body r))"
proof -
  have adm: "admitted e r t"
  proof (rule ccontr)
    assume not: "\<not> admitted e r t"
    obtain b t1 where blk: "isBlocked (client_ip r) (now_isBlocked1 e) (now_isBlocked2 e) t = (b, t1)"
      by (cases "isBlocked (client_ip r) (now_isBlocked1 e) (now_isBlocked2 e) t")
    consider "req_method r \<noteq> js ''POST''"
      | "req_method r = js ''POST''" "\<not> is_json e r"
      | "req_method r = js ''POST''" "is_json e r" "honeypot (body r)"
      | "req_method r = js ''POST''" "is_json e r" "\<not> honeypot (body r)" "b"
      | "reaches_rate_check e r t" "fst (rateLimited (client_ip r) (now_rateLimited e) t)"
      using not blk by (auto simp: admitted_iff reaches_rate_check_def)
    then have "effects (handler e r t) = []"
    proof cases
      case 1
      then show ?thesis by (simp add: handler_not_POST)
    next
      case 2
      then show ?thesis by (simp add: handler_not_json)
    next
      case 3
      then show ?thesis by (simp add: handler_honeypot)
    next
      case 4
      with blk have "isBlocked (client_ip r) (now_isBlocked1 e) (now_isBlocked2 e) t = (True, t1)"
        by simp
      from handler_blocked[OF 4(1) 4(2) 4(3) this] show ?thesis by simp
    next
      case 5
      from handler_at_rate_check(1)[OF 5] show ?thesis by simp
    qed
    with assms show False by simp
  qed
  moreover from assms have "truthy (turnstile_response (body r))"
    using after_gates_fetch by (simp add: handler_of_admitted[OF adm])
  ultimately show ?thesis by simp
qed

lemmas sample_defs = probe_fields_def probe_honeypot_def probe_type_def probe_method_def
  probe_token_def hopeless_form_def jane_form_def jane_request_def jane_ip_def

lemmas string_defs = js_def trim_def isWhiteSpace_def toLowerCase_def lowerUnit_def orText_def
  orElse_def truthy_def clean_def

lemma probes:
  shows probe_method_GET: "req_method probe_method \<noteq> js ''POST''"
    and probe_type_POST: "req_method probe_type = js ''POST'' \<and> \<not> is_json e probe_type"
    and probe_honeypot_filled:
      "req_method probe_honeypot = js ''POST'' \<and> is_json e probe_honeypot \<and>
       honeypot (body probe_honeypot)"
    and probe_token_gates:
      "req_method probe_token = js ''POST'' \<and> is_json e probe_token \<and>
       \<not> honeypot (body probe_token) \<and> client_ip probe_token = jane_ip \<and>
       \<not> truthy (turnstile_response (body probe_token))"
    and probe_fields_gates:
      "req_method probe_fields = js ''POST'' \<and> is_json e probe_fields \<and>
       \<not> honeypot (body probe_fields) \<and> client_ip probe_fields = jane_ip \<and>
       turnstile_response (body probe_fields) = Some (js ''token'')"
    and probe_fields_values:
      "normalize_inputs e (body probe_fields) =
         \<lparr>vName = js ''Jane Doe'', vEmail = js ''not-an-email'', vOrg = [], vInterest = [],
          vMessage = js ''Please send me a quote.''\<rparr>"
  by (simp_all add: sample_defs string_defs is_json_def honeypot_def client_ip_def
      normalize_inputs_def MAX_NAME_LEN_def MAX_ORG_LEN_def MAX_INTEREST_LEN_def MAX_MESSAGE_LEN_def)

lemma not_an_email: "\<not> test_anchored emailRegex (js ''not-an-email'')"
  by code_simp

lemma world_clock:
  shows "now_isBlocked1 (world_at n) = n" and "now_isBlocked2 (world_at n) = n"
    and "now_rateLimited (world_at n) = n" and "now_markBad (world_at n) = n"
    and "now_punish (world_at n) = n" and "siteverify (world_at n) = Returns True"
    and "process_env (world_at n) ''TURNSTILE_SECRET_KEY'' = None"
  by (simp_all add: world_at_def site_env_def)

lemma failing_world_clock:
  shows "now_isBlocked1 (failing_world n) = n" and "now_isBlocked2 (failing_world n) = n"
    and "now_rateLimited (failing_world n) = n" and "now_markBad (failing_world n) = n"
    and "now_punish (failing_world n) = n" and "siteverify (failing_world n) = Returns False"
    and "process_env (failing_world n) ''TURNSTILE_SECRET_KEY'' = None"
  by (simp_all add: failing_world_def world_at_def site_env_def)

lemma blocked_jane_entry: "blocked blocked_jane jane_ip = Some 3720000"
  by (simp add: blocked_jane_def seven_bad_def markBad_blocked markBad_badHits)

lemma text_literals:
  shows "js ''token'' \<noteq> []" and "js ''Jane Doe'' \<noteq> []" and "js ''not-an-email'' \<noteq> []"
    and "js ''Please send me a quote.'' \<noteq> []" and "js ''jane@example.com'' \<noteq> []"
  by (simp_all add: js_def)

lemma check_fields_probe:
  "check_fields e i (normalize_inputs e (body probe_fields)) t =
     Some (reject 400 (js ''Invalid email.''), markBad i (now_markBad e) (now_punish e) t)"
  using not_an_email text_literals by (simp add: check_fields_def probe_fields_values)

lemma initial_open:
  shows "isBlocked i n1 n2 initial = (False, initial)"
    and "rateLimited i n initial = (False, initial\<lparr>hits := [\<lparr>ip = i, time = n\<rparr>]\<rparr>)"
  by (simp_all add: isBlocked_def rateLimited_def initial_def MAX_PER_WINDOW_def)

lemma admitted_initial:
  "req_method r = js ''POST'' \<Longrightarrow> is_json e r \<Longrightarrow> \<not> honeypot (body r) \<Longrightarrow> admitted e r initial"
  by (simp add: admitted_def reaches_rate_check_def initial_open)

lemma gate_state_initial:
  "gate_state e r initial = initial\<lparr>hits := [\<lparr>ip = client_ip r, time = now_rateLimited e\<rparr>]\<rparr>"
  by (simp add: gate_state_def initial_open)

text \<open>
  Claim C7. The reply of the handler is decided by the first gate that fails, in the
  order: method, content type, honeypot, block check, rate check, verification token
  and verification, field validation. Whatever the later gates would say, a request that
  is not a POST gets 405; a POST that is not JSON gets 400; a POST of JSON with a filled
  honeypot gets the synthetic 200; one from a blocked IP gets 403; one over the rate
  gets 429; an admitted one with no token gets 400 without any call to the verification
  service; one whose verification fails gets 400 after exactly that call; and only one
  whose verification succeeds has its fields validated. The call to the verification
  service is made only for a POST of JSON with an empty honeypot from an IP that is
  neither blocked nor over the rate, and with a token.
\<close>

theorem gates_in_order:
  "(req_method r \<noteq> js ''POST'' \<longrightarrow>
      handler e r t = \<lparr>resp = reject 405 (js ''Method not allowed''), effects = [], state = t\<rparr>) \<and>
   (req_method r = js ''POST'' \<and> \<not> is_json e r \<longrightarrow>
      handler e r t = \<lparr>resp = reject 400 (js ''Send JSON body''), effects = [], state = t\<rparr>) \<and>
   (req_method r = js ''POST'' \<and> is_json e r \<and> honeypot (body r) \<longrightarrow>
      handler e r t = \<lparr>resp = accept, effects = [], state = t\<rparr>) \<and>
   (req_method r = js ''POST'' \<and> is_json e r \<and> \<not> honeypot (body r) \<and>
    fst (isBlocked (client_ip r) (now_isBlocked1 e) (now_isBlocked2 e) t) \<longrightarrow>
      handler e r t =
        \<lparr>resp = reject 403 (js ''IP temporarily blocked.''), effects = [],
         state = snd (isBlocked (client_ip r) (now_isBlocked1 e) (now_isBlocked2 e) t)\<rparr>) \<and>
   (reaches_rate_check e r t \<and> fst (rateLimited (client_ip r) (now_rateLimited e) t) \<longrightarrow>
      handler e r t =
        \<lparr>resp = reject 429 (js ''Too many requests, try again later.''), effects = [],
         state = gate_state e r t\<rparr>) \<and>
   (admitted e r t \<and> \<not> truthy (turnstile_response (body r)) \<longrightarrow>
      handler e r t =
        \<lparr>resp = reject 400 (js ''missing_turnstile_token''), effects = [],
         state = markBad (client_ip r) (now_markBad e) (now_punish e) (gate_state e r t)\<rparr>) \<and>
   (admitted e r t \<and> turnstile_response (body r) = Some token \<and> token \<noteq> [] \<and>
    siteverify e = Returns False \<longrightarrow>
      handler e r t =
        \<lparr>resp = reject 400 (js ''turnstile_failed''),
         effects = [Fetch_siteverify (orText (process_env e ''TURNSTILE_SECRET_KEY'') []) token
                      (client_ip r),
                    Console_error],
         state = markBad (client_ip r) (now_markBad e) (now_punish e) (gate_state e r t)\<rparr>) \<and>
   (admitted e r t \<and> turnstile_response (body r) = Some token \<and> token \<noteq> [] \<and>
    siteverify e = Returns True \<and>
    check_fields e (client_ip r) (normalize_inputs e (body r)) (gate_state e r t) = Some (failure, t') \<longrightarrow>
      handler e r t =
        \<lparr>resp = failure,
         effects = [Fetch_siteverify (orText (process_env e ''TURNSTILE_SECRET_KEY'') []) token
                      (client_ip r)],
         state = t'\<rparr>) \<and>
   (Fetch_siteverify secret token' i \<in> set (effects (handler e r t)) \<longrightarrow>
      req_method r = js ''POST'' \<and> is_json e r \<and> \<not> honeypot (body r) \<and>
      \<not> fst (isBlocked (client_ip r) (now_isBlocked1 e) (now_isBlocked2 e) t) \<and>
      \<not> fst (rateLimited (client_ip r) (now_rateLimited e) t) \<and>
      truthy (turnstile_response (body r)))"
proof (intro conjI impI)
  assume "req_method r \<noteq> js ''POST''"
  then show "handler e r t = \<lparr>resp = reject 405 (js ''Method not allowed''), effects = [], state = t\<rparr>"
    by (rule handler_not_POST)
next
  assume "req_method r = js ''POST'' \<and> \<not> is_json e r"
  then show "handler e r t = \<lparr>resp = reject 400 (js ''Send JSON body''), effects = [], state = t\<rparr>"
    by (simp add: handler_not_json)
next
  assume "req_method r = js ''POST'' \<and> is_json e r \<and> honeypot (body r)"
  then show "handler e r t = \<lparr>resp = accept, effects = [], state = t\<rparr>"
    by (simp add: handler_honeypot)
next
  assume a: "req_method r = js ''POST'' \<and> is_json e r \<and> \<not> honeypot (body r) \<and>
    fst (isBlocked (client_ip r) (now_isBlocked1 e) (now_isBlocked2 e) t)"
  then have "isBlocked (client_ip r) (now_isBlocked1 e) (now_isBlocked2 e) t =
      (True, snd (isBlocked (client_ip r) (now_isBlocked1 e) (now_isBlocked2 e) t))"
    by (cases "isBlocked (client_ip r) (now_isBlocked1 e) (now_isBlocked2 e) t") simp
  with a show "handler e r t =
        \<lparr>resp = reject 403 (js ''IP temporarily blocked.''), effects = [],
         state = snd (isBlocked (client_ip r) (now_isBlocked1 e) (now_isBlocked2 e) t)\<rparr>"
    using handler_blocked by blast
next
  assume "reaches_rate_check e r t \<and> fst (rateLimited (client_ip r) (now_rateLimited e) t)"
  then have a: "reaches_rate_check e r t \<and> \<not> admitted e r t"
    by (simp add: admitted_iff)
  then have gates: "req_method r = js ''POST''" "is_json e r" "\<not> honeypot (body r)"
    and blk: "isBlocked (client_ip r) (now_isBlocked1 e) (now_isBlocked2 e) t =
      (False, snd (isBlocked (client_ip r) (now_isBlocked1 e) (now_isBlocked2 e) t))"
    by (cases "isBlocked (client_ip r) (now_isBlocked1 e) (now_isBlocked2 e) t",
        simp add: reaches_rate_check_def)+
  from a have "rateLimited (client_ip r) (now_rateLimited e)
      (snd (isBlocked (client_ip r) (now_isBlocked1 e) (now_isBlocked2 e) t)) =
      (True, gate_state e r t)"
    by (cases "rateLimited (client_ip r) (now_rateLimited e)
      (snd (isBlocked (client_ip r) (now_isBlocked1 e) (now_isBlocked2 e) t))")
      (simp add: admitted_def gate_state_def)
  from handler_limited[OF gates blk this]
  show "handler e r t =
        \<lparr>resp = reject 429 (js ''Too many requests, try again later.''), effects = [],
         state = gate_state e r t\<rparr>" .
next
  assume "admitted e r t \<and> \<not> truthy (turnstile_response (body r))"
  then show "handler e r t =
        \<lparr>resp = reject 400 (js ''missing_turnstile_token''), effects = [],
         state = markBad (client_ip r) (now_markBad e) (now_punish e) (gate_state e r t)\<rparr>"
    by (simp add: handler_of_admitted after_gates_no_token)
next
  assume "admitted e r t \<and> turnstile_response (body r) = Some token \<and> token \<noteq> [] \<and>
    siteverify e = Returns False"
  then show "handler e r t =
        \<lparr>resp = reject 400 (js ''turnstile_failed''),
         effects = [Fetch_siteverify (orText (process_env e ''TURNSTILE_SECRET_KEY'') []) token
                      (client_ip r),
                    Console_error],
         state = markBad (client_ip r) (now_markBad e) (now_punish e) (gate_state e r t)\<rparr>"
    by (simp add: handler_of_admitted after_gates_failed)
next
  assume "admitted e r t \<and> turnstile_response (body r) = Some token \<and> token \<noteq> [] \<and>
    siteverify e = Returns True \<and>
    check_fields e (client_ip r) (normalize_inputs e (body r)) (gate_state e r t) = Some (failure, t')"
  then show "handler e r t =
        \<lparr>resp = failure,
         effects = [Fetch_siteverify (orText (process_env e ''TURNSTILE_SECRET_KEY'') []) token
                      (client_ip r)],
         state = t'\<rparr>"
    by (simp add: handler_of_admitted after_gates_fields)
next
  assume "Fetch_siteverify secret token' i \<in> set (effects (handler e r t))"
  from handler_fetch[OF this]
  show "req_method r = js ''POST''" and "is_json e r" and "\<not> honeypot (body r)"
    and "\<not> fst (isBlocked (client_ip r) (now_isBlocked1 e) (now_isBlocked2 e) t)"
    and "\<not> fst (rateLimited (client_ip r) (now_rateLimited e) t)"
    and "truthy (turnstile_response (body r))"
    by (simp_all add: admitted_iff reaches_rate_check_def)
qed

theorem gates_in_order_witness:
  "handler (world_at 1000) probe_method initial =
     \<lparr>resp = reject 405 (js ''Method not allowed''), effects = [], state = initial\<rparr> \<and>
   handler (world_at 1000) probe_type initial =
     \<lparr>resp = reject 400 (js ''Send JSON body''), effects = [], state = initial\<rparr> \<and>
   handler (world_at 1000) probe_honeypot initial =
     \<lparr>resp = accept, effects = [], state = initial\<rparr> \<and>
   handler (world_at 130000) probe_token blocked_jane =
     \<lparr>resp = reject 403 (js ''IP temporarily blocked.''), effects = [], state = blocked_jane\<rparr> \<and>
   handler (world_at 6000) probe_token five_hits =
     \<lparr>resp = reject 429 (js ''Too many requests, try again later.''), effects = [],
      state = five_hits\<rparr> \<and>
   handler (world_at 1000) probe_token initial =
     \<lparr>resp = reject 400 (js ''missing_turnstile_token''), effects = [],
      state = markBad jane_ip 1000 1000 (initial\<lparr>hits := [\<lparr>ip = jane_ip, time = 1000\<rparr>]\<rparr>)\<rparr> \<and>
   handler (failing_world 1000) probe_fields initial =
     \<lparr>resp = reject 400 (js ''turnstile_failed''),
      effects = [Fetch_siteverify [] (js ''token'') jane_ip, Console_error],
      state = markBad jane_ip 1000 1000 (initial\<lparr>hits := [\<lparr>ip = jane_ip, time = 1000\<rparr>]\<rparr>)\<rparr> \<and>
   handler (world_at 1000) probe_fields initial =
     \<lparr>resp = reject 400 (js ''Invalid email.''),
      effects = [Fetch_siteverify [] (js ''token'') jane_ip],
      state = markBad jane_ip 1000 1000 (initial\<lparr>hits := [\<lparr>ip = jane_ip, time = 1000\<rparr>]\<rparr>)\<rparr> \<and>
   Fetch_siteverify [] (js ''token'') jane_ip
     \<in> set (effects (handler (world_at 1000) probe_fields initial)) \<and>
   \<not> fst (rateLimited (client_ip probe_fields) (now_rateLimited (world_at 1000)) initial)"
proof -
  note order = gates_in_order[where secret = "[]" and token' = "js ''token''" and i = jane_ip]
  have g1: "handler (world_at 1000) probe_method initial =
     \<lparr>resp = reject 405 (js ''Method not allowed''), effects = [], state = initial\<rparr>"
    using order[of probe_method] probe_method_GET by blast
  have g2: "handler (world_at 1000) probe_type initial =
     \<lparr>resp = reject 400 (js ''Send JSON body''), effects = [], state = initial\<rparr>"
    using order[of probe_type] probe_type_POST by blast
  have g3: "handler (world_at 1000) probe_honeypot initial =
     \<lparr>resp = accept, effects = [], state = initial\<rparr>"
    using order[of probe_honeypot] probe_honeypot_filled by blast
  have blk: "isBlocked (client_ip probe_token) (now_isBlocked1 (world_at 130000))
      (now_isBlocked2 (world_at 130000)) blocked_jane = (True, blocked_jane)"
    using blocked_jane_entry probe_token_gates by (simp add: isBlocked_def world_clock)
  have g4: "handler (world_at 130000) probe_token blocked_jane =
     \<lparr>resp = reject 403 (js ''IP temporarily blocked.''), effects = [], state = blocked_jane\<rparr>"
    using order[of probe_token "world_at 130000" blocked_jane] probe_token_gates blk by simp
  have open5: "isBlocked (client_ip probe_token) (now_isBlocked1 (world_at 6000))
      (now_isBlocked2 (world_at 6000)) five_hits = (False, five_hits)"
    by (simp add: isBlocked_def five_hits_def initial_def)
  have lim5: "rateLimited (client_ip probe_token) (now_rateLimited (world_at 6000)) five_hits =
      (True, five_hits)"
    using probe_token_gates
    by (simp add: rateLimited_def five_hits_def initial_def world_clock WINDOW_MS_def
        MAX_PER_WINDOW_def)
  have g5: "handler (world_at 6000) probe_token five_hits =
     \<lparr>resp = reject 429 (js ''Too many requests, try again later.''), effects = [],
      state = five_hits\<rparr>"
    using order[of probe_token "world_at 6000" five_hits] probe_token_gates open5 lim5
    by (simp add: reaches_rate_check_def gate_state_def)
  have adm6: "admitted e probe_token initial" "admitted e probe_fields initial" for e
    using probe_token_gates probe_fields_gates by (simp_all add: admitted_initial)
  have g6: "handler (world_at 1000) probe_token initial =
     \<lparr>resp = reject 400 (js ''missing_turnstile_token''), effects = [],
      state = markBad jane_ip 1000 1000 (initial\<lparr>hits := [\<lparr>ip = jane_ip, time = 1000\<rparr>]\<rparr>)\<rparr>"
    using order[of probe_token "world_at 1000" initial] probe_token_gates adm6(1)
    by (simp add: gate_state_initial world_clock)
  have g7: "handler (failing_world 1000) probe_fields initial =
     \<lparr>resp = reject 400 (js ''turnstile_failed''),
      effects = [Fetch_siteverify [] (js ''token'') jane_ip, Console_error],
      state = markBad jane_ip 1000 1000 (initial\<lparr>hits := [\<lparr>ip = jane_ip, time = 1000\<rparr>]\<rparr>)\<rparr>"
    using order[of probe_fields "failing_world 1000" initial "js ''token''"] probe_fields_gates
      adm6(2) text_literals(1)
    by (simp add: gate_state_initial failing_world_clock orText_def)
  have g8: "handler (world_at 1000) probe_fields initial =
     \<lparr>resp = reject 400 (js ''Invalid email.''),
      effects = [Fetch_siteverify [] (js ''token'') jane_ip],
      state = markBad jane_ip 1000 1000 (initial\<lparr>hits := [\<lparr>ip = jane_ip, time = 1000\<rparr>]\<rparr>)\<rparr>"
    using order[of probe_fields "world_at 1000" initial "js ''token''"
        "reject 400 (js ''Invalid email.'')"
        "markBad jane_ip 1000 1000 (initial\<lparr>hits := [\<lparr>ip = jane_ip, time = 1000\<rparr>]\<rparr>)"]
      probe_fields_gates adm6(2) text_literals(1)
    by (simp add: gate_state_initial world_clock orText_def check_fields_probe)
  have g9: "Fetch_siteverify [] (js ''token'') jane_ip
      \<in> set (effects (handler (world_at 1000) probe_fields initial))"
    by (simp add: g8)
  with order[of probe_fields "world_at 1000" initial]
  have g10: "\<not> fst (rateLimited (client_ip probe_fields) (now_rateLimited (world_at 1000)) initial)"
    by blast
  from g1 g2 g3 g4 g5 g6 g7 g8 g9 g10 show ?thesis
    by blast
qed

section \<open>The honeypot\<close>

lemmas more_sample_defs = gibberish_org_request_def nameless_probe_def nameless_request_def
  blank_honeypot_request_def bot_request_def

lemmas field_defs = normalize_inputs_def MAX_NAME_LEN_def MAX_ORG_LEN_def MAX_INTEREST_LEN_def
  MAX_MESSAGE_LEN_def is_json_def honeypot_def client_ip_def

lemma handler_delivers:
  assumes "admitted e r t" and "turnstile_response (body r) = Some token" and "token \<noteq> []"
    and "siteverify e = Returns True"
    and "check_fields e (client_ip r) (normalize_inputs e (body r)) (gate_state e r t) = None"
    and "truthy (SMTP_USER e)" and "truthy (SMTP_PASS e)"
    and "transporter_verify e = Returns ()" and "transporter_sendMail e = Returns ()"
  shows "handler e r t =
     \<lparr>resp = accept,
      effects = [Fetch_siteverify (orText (process_env e ''TURNSTILE_SECRET_KEY'') []) token
                   (client_ip r),
                 Transporter_verify (transporter e),
                 Transporter_sendMail (transporter e)
                   (compose e (client_ip r) (normalize_inputs e (body r)))],
      state = gate_state e r t\<rparr>"
  using assms by (simp add: handler_of_admitted after_gates_def deliver_def)

text \<open>
  Claim C3, as amended. For every POST request with a JSON content type whose honeypot
  field \<open>_gotcha\<close> is non-empty after trimming white space, the handler responds 200
  \<open>{ok:true}\<close>, sends nothing and leaves the state as it was: no rate-window entry, no
  bad event, no call to the verification service or to the SMTP relay.
\<close>

theorem honeypot_silent:
  "req_method r = js ''POST'' \<and> is_json e r \<and> gotcha (body r) = Some g \<and> trim g \<noteq> [] \<longrightarrow>
     handler e r t =
       \<lparr>resp = \<lparr>status = 200, ok = True, error = None\<rparr>, effects = [], state = t\<rparr>"
proof
  assume a: "req_method r = js ''POST'' \<and> is_json e r \<and> gotcha (body r) = Some g \<and> trim g \<noteq> []"
  then have "g \<noteq> []"
    by (auto simp: trim_def)
  with a have "honeypot (body r)"
    by (simp add: honeypot_def)
  with a show "handler e r t =
       \<lparr>resp = \<lparr>status = 200, ok = True, error = None\<rparr>, effects = [], state = t\<rparr>"
    by (simp add: handler_honeypot accept_def)
qed

theorem honeypot_silent_witness:
  "req_method bot_request = js ''POST'' \<and> is_json (world_at 6000) bot_request \<and>
   gotcha (body bot_request) = Some (js '' bot '') \<and> trim (js '' bot '') = js ''bot'' \<and>
   handler (world_at 6000) bot_request five_hits =
     \<lparr>resp = \<lparr>status = 200, ok = True, error = None\<rparr>, effects = [], state = five_hits\<rparr>"
proof -
  have facts: "req_method bot_request = js ''POST'' \<and> is_json (world_at 6000) bot_request \<and>
      gotcha (body bot_request) = Some (js '' bot '')"
    and trimmed: "trim (js '' bot '') = js ''bot''" and some: "js ''bot'' \<noteq> []"
    by (simp_all add: more_sample_defs sample_defs string_defs field_defs)
  from honeypot_silent[where r = bot_request and g = "js '' bot ''" and e = "world_at 6000"
      and t = five_hits] facts trimmed some
  show ?thesis by simp
qed

text \<open>
  The claim as the spec words it asks only for a non-empty \<open>_gotcha\<close>. The source tests
  \<open>String(_gotcha).trim()\<close>: a honeypot of one space is not empty and does not trigger,
  and the request is served like any other, here up to the mail.
\<close>

theorem honeypot_blank_counterexample:
  "req_method blank_honeypot_request = js ''POST'' \<and> is_json (world_at 1000) blank_honeypot_request \<and>
   gotcha (body blank_honeypot_request) = Some (js '' '') \<and> js '' '' \<noteq> [] \<and>
   Transporter_sendMail (transporter (world_at 1000))
       (compose (world_at 1000) jane_ip (normalize_inputs (world_at 1000) jane_form))
     \<in> set (effects (handler (world_at 1000) blank_honeypot_request initial)) \<and>
   hits (state (handler (world_at 1000) blank_honeypot_request initial)) =
     [\<lparr>ip = jane_ip, time = 1000\<rparr>]"
proof -
  have facts: "req_method blank_honeypot_request = js ''POST''" "is_json (world_at 1000) blank_honeypot_request"
    "gotcha (body blank_honeypot_request) = Some (js '' '')" "js '' '' \<noteq> []"
    "\<not> honeypot (body blank_honeypot_request)" "client_ip blank_honeypot_request = jane_ip"
    "turnstile_response (body blank_honeypot_request) = Some (js ''token'')"
    "normalize_inputs (world_at 1000) (body blank_honeypot_request) = normalize_inputs (world_at 1000) jane_form"
    by (simp_all add: more_sample_defs sample_defs string_defs field_defs)
  have "handler (world_at 1000) blank_honeypot_request initial =
     \<lparr>resp = accept,
      effects = [Fetch_siteverify [] (js ''token'') jane_ip,
                 Transporter_verify (transporter (world_at 1000)),
                 Transporter_sendMail (transporter (world_at 1000))
                   (compose (world_at 1000) jane_ip (normalize_inputs (world_at 1000) jane_form))],
      state = initial\<lparr>hits := [\<lparr>ip = jane_ip, time = 1000\<rparr>]\<rparr>\<rparr>"
    using handler_delivers[of "world_at 1000" blank_honeypot_request initial "js ''token''"]
      admitted_initial[OF facts(1,2,5)] facts text_literals(1) site_credentials[of 1000]
    by (simp add: gate_state_initial world_clock jane_check orText_def) (simp add: world_at_def)
  with facts show ?thesis by simp
qed

section \<open>The field validation\<close>

lemma check_fields_required:
  "vName f = [] \<or> vEmail f = [] \<or> vMessage f = [] \<Longrightarrow>
     check_fields e i f t = Some (reject 400 (js ''name, email and message are required.''), t)"
  by (simp add: check_fields_def)

lemma check_fields_email:
  "vName f \<noteq> [] \<Longrightarrow> vEmail f \<noteq> [] \<Longrightarrow> vMessage f \<noteq> [] \<Longrightarrow>
   \<not> test_anchored emailRegex (vEmail f) \<Longrightarrow>
     check_fields e i f t =
       Some (reject 400 (js ''Invalid email.''), markBad i (now_markBad e) (now_punish e) t)"
  by (simp add: check_fields_def)

lemma check_fields_organization:
  "vName f \<noteq> [] \<Longrightarrow> vEmail f \<noteq> [] \<Longrightarrow> vMessage f \<noteq> [] \<Longrightarrow>
   test_anchored emailRegex (vEmail f) \<Longrightarrow> hasTwoWords (vName f) \<Longrightarrow>
   \<not> looksGibberish (vName f) \<Longrightarrow> vOrg f \<noteq> [] \<Longrightarrow> looksGibberish (vOrg f) \<Longrightarrow>
     check_fields e i f t =
       Some (reject 400 (js ''Invalid organization.''), markBad i (now_markBad e) (now_punish e) t)"
  by (simp add: check_fields_def)

lemma check_fields_says_organization:
  "check_fields e i f t = Some (a, t') \<Longrightarrow> error a = Some (js ''Invalid organization.'') \<Longrightarrow>
     vOrg f \<noteq> [] \<and> looksGibberish (vOrg f)"
  by (auto simp: check_fields_def reject_def js_def split: if_splits)

lemma deliver_never_says_organization:
  "deliver e i f = (a, es) \<Longrightarrow> error a \<noteq> Some (js ''Invalid organization.'')"
  by (auto simp: deliver_def reject_def accept_def verify_failed_def send_failed_def js_def
      split: if_splits outcome.splits)

lemma after_gates_says_organization:
  "error (resp (after_gates e r i t)) = Some (js ''Invalid organization.'') \<Longrightarrow>
     vOrg (normalize_inputs e (body r)) \<noteq> [] \<and> looksGibberish (vOrg (normalize_inputs e (body r)))"
  unfolding after_gates_def
  by (auto simp: Let_def reject_def server_error_def js_def
      split: option.splits if_splits outcome.splits prod.splits
      dest: check_fields_says_organization deliver_never_says_organization)

lemma not_admitted_reply:
  assumes "\<not> admitted e r t"
  shows "resp (handler e r t) = reject 405 (js ''Method not allowed'') \<or>
         resp (handler e r t) = reject 400 (js ''Send JSON body'') \<or>
         resp (handler e r t) = accept \<or>
         resp (handler e r t) = reject 403 (js ''IP temporarily blocked.'') \<or>
         resp (handler e r t) = reject 429 (js ''Too many requests, try again later.'')"
    and "effects (handler e r t) = []"
proof -
  obtain b t1 where blk: "isBlocked (client_ip r) (now_isBlocked1 e) (now_isBlocked2 e) t = (b, t1)"
    by (cases "isBlocked (client_ip r) (now_isBlocked1 e) (now_isBlocked2 e) t")
  consider "req_method r \<noteq> js ''POST''"
    | "req_method r = js ''POST''" "\<not> is_json e r"
    | "req_method r = js ''POST''" "is_json e r" "honeypot (body r)"
    | "req_method r = js ''POST''" "is_json e r" "\<not> honeypot (body r)" "b"
    | "reaches_rate_check e r t" "fst (rateLimited (client_ip r) (now_rateLimited e) t)"
    using assms blk by (auto simp: admitted_iff reaches_rate_check_def)
  then have "(resp (handler e r t) = reject 405 (js ''Method not allowed'') \<or>
         resp (handler e r t) = reject 400 (js ''Send JSON body'') \<or>
         resp (handler e r t) = accept \<or>
         resp (handler e r t) = reject 403 (js ''IP temporarily blocked.'') \<or>
         resp (handler e r t) = reject 429 (js ''Too many requests, try again later.'')) \<and>
         effects (handler e r t) = []"
  proof cases
    case 1
    then show ?thesis by (simp add: handler_not_POST)
  next
    case 2
    then show ?thesis by (simp add: handler_not_json)
  next
    case 3
    then show ?thesis by (simp add: handler_honeypot)
  next
    case 4
    with blk have "isBlocked (client_ip r) (now_isBlocked1 e) (now_isBlocked2 e) t = (True, t1)"
      by simp
    from handler_blocked[OF 4(1) 4(2) 4(3) this] show ?thesis by simp
  next
    case 5
    from handler_at_rate_check(1)[OF 5] show ?thesis by simp
  qed
  then show "resp (handler e r t) = reject 405 (js ''Method not allowed'') \<or>
         resp (handler e r t) = reject 400 (js ''Send JSON body'') \<or>
         resp (handler e r t) = accept \<or>
         resp (handler e r t) = reject 403 (js ''IP temporarily blocked.'') \<or>
         resp (handler e r t) = reject 429 (js ''Too many requests, try again later.'')"
    and "effects (handler e r t) = []"
    by simp_all
qed

lemma handler_says_organization:
  assumes "error (resp (handler e r t)) = Some (js ''Invalid organization.'')"
  shows "vOrg (normalize_inputs e (body r)) \<noteq> [] \<and> looksGibberish (vOrg (normalize_inputs e (body r)))"
proof (cases "admitted e r t")
  case True
  with assms show ?thesis
    using after_gates_says_organization by (simp add: handler_of_admitted)
next
  case False
  from not_admitted_reply(1)[OF this] assms show ?thesis
    by (auto simp: reject_def accept_def js_def)
qed

lemma markBad_records:
  "\<lparr>ip = i, time = now\<rparr> \<in> set (badHits (markBad i now nowP t))"
  by (simp add: markBad_badHits)

lemma gibberish_org: "looksGibberish (js ''Qwrtpsdf Ltd'')"
  by code_simp

lemma vEmail_not_an_email:
  "email b = Some (js ''not-an-email'') \<Longrightarrow> vEmail (normalize_inputs e b) = js ''not-an-email''"
  by (simp add: normalize_inputs_def string_defs)

text \<open>
  Claim C9. The organization the handler validates is the normalised value \<open>vOrg\<close>:
  \<open>organization\<close>, or \<open>org\<close> when that is empty, trimmed and cut to 200. For a request
  that has passed every earlier check, a non-empty \<open>vOrg\<close> that looks like gibberish
  gives the reply 400 \<open>{ok:false, error:"Invalid organization."}\<close>, no mail, and a bad
  event for the caller's IP. And no request at all gets that error unless its \<open>vOrg\<close> is
  non-empty and looks like gibberish: an empty organization is never rejected by this
  check.
\<close>

theorem invalid_organization:
  "(admitted e r t \<and> turnstile_response (body r) = Some token \<and> token \<noteq> [] \<and>
    siteverify e = Returns True \<and>
    vName (normalize_inputs e (body r)) \<noteq> [] \<and> vEmail (normalize_inputs e (body r)) \<noteq> [] \<and>
    vMessage (normalize_inputs e (body r)) \<noteq> [] \<and>
    test_anchored emailRegex (vEmail (normalize_inputs e (body r))) \<and>
    hasTwoWords (vName (normalize_inputs e (body r))) \<and>
    \<not> looksGibberish (vName (normalize_inputs e (body r))) \<and>
    vOrg (normalize_inputs e (body r)) \<noteq> [] \<and> looksGibberish (vOrg (normalize_inputs e (body r))) \<longrightarrow>
      resp (handler e r t) = \<lparr>status = 400, ok = False, error = Some (js ''Invalid organization.'')\<rparr> \<and>
      state (handler e r t) =
        markBad (client_ip r) (now_markBad e) (now_punish e) (gate_state e r t) \<and>
      \<lparr>ip = client_ip r, time = now_markBad e\<rparr> \<in> set (badHits (state (handler e r t))) \<and>
      (\<forall>tr m. Transporter_sendMail tr m \<notin> set (effects (handler e r t)))) \<and>
   (error (resp (handler e r t)) = Some (js ''Invalid organization.'') \<longrightarrow>
      vOrg (normalize_inputs e (body r)) \<noteq> [] \<and> looksGibberish (vOrg (normalize_inputs e (body r))))"
proof (intro conjI impI)
  assume a: "admitted e r t \<and> turnstile_response (body r) = Some token \<and> token \<noteq> [] \<and>
    siteverify e = Returns True \<and>
    vName (normalize_inputs e (body r)) \<noteq> [] \<and> vEmail (normalize_inputs e (body r)) \<noteq> [] \<and>
    vMessage (normalize_inputs e (body r)) \<noteq> [] \<and>
    test_anchored emailRegex (vEmail (normalize_inputs e (body r))) \<and>
    hasTwoWords (vName (normalize_inputs e (body r))) \<and>
    \<not> looksGibberish (vName (normalize_inputs e (body r))) \<and>
    vOrg (normalize_inputs e (body r)) \<noteq> [] \<and> looksGibberish (vOrg (normalize_inputs e (body r)))"
  then have "check_fields e (client_ip r) (normalize_inputs e (body r)) (gate_state e r t) =
      Some (reject 400 (js ''Invalid organization.''),
            markBad (client_ip r) (now_markBad e) (now_punish e) (gate_state e r t))"
    by (simp add: check_fields_organization)
  with a have reply: "handler e r t =
      \<lparr>resp = reject 400 (js ''Invalid organization.''),
       effects = [Fetch_siteverify (orText (process_env e ''TURNSTILE_SECRET_KEY'') []) token
                    (client_ip r)],
       state = markBad (client_ip r) (now_markBad e) (now_punish e) (gate_state e r t)\<rparr>"
    by (simp add: handler_of_admitted after_gates_fields)
  then show "resp (handler e r t) =
      \<lparr>status = 400, ok = False, error = Some (js ''Invalid organization.'')\<rparr>"
    and "state (handler e r t) =
        markBad (client_ip r) (now_markBad e) (now_punish e) (gate_state e r t)"
    and "\<lparr>ip = client_ip r, time = now_markBad e\<rparr> \<in> set (badHits (state (handler e r t)))"
    and "\<forall>tr m. Transporter_sendMail tr m \<notin> set (effects (handler e r t))"
    by (simp_all add: reject_def markBad_records)
next
  assume "error (resp (handler e r t)) = Some (js ''Invalid organization.'')"
  from handler_says_organization[OF this]
  show "vOrg (normalize_inputs e (body r)) \<noteq> []"
    and "looksGibberish (vOrg (normalize_inputs e (body r)))"
    by simp_all
qed

theorem invalid_organization_witness:
  "organization (body gibberish_org_request) = None \<and>
   vOrg (normalize_inputs (world_at 1000) (body gibberish_org_request)) = js ''Qwrtpsdf Ltd'' \<and>
   looksGibberish (js ''Qwrtpsdf Ltd'') \<and>
   resp (handler (world_at 1000) gibberish_org_request initial) =
     \<lparr>status = 400, ok = False, error = Some (js ''Invalid organization.'')\<rparr> \<and>
   badHits (state (handler (world_at 1000) gibberish_org_request initial)) =
     [\<lparr>ip = jane_ip, time = 1000\<rparr>] \<and>
   vOrg (normalize_inputs (world_at 1000) (body jane_request)) = [] \<and>
   error (resp (handler (world_at 1000) jane_request initial)) \<noteq> Some (js ''Invalid organization.'')"
proof -
  have facts: "req_method gibberish_org_request = js ''POST''" "is_json (world_at 1000) gibberish_org_request"
    "\<not> honeypot (body gibberish_org_request)" "client_ip gibberish_org_request = jane_ip"
    "turnstile_response (body gibberish_org_request) = Some (js ''token'')"
    "organization (body gibberish_org_request) = None"
    and fields: "normalize_inputs (world_at 1000) (body gibberish_org_request) =
      \<lparr>vName = js ''Jane Doe'', vEmail = js ''jane@example.com'', vOrg = js ''Qwrtpsdf Ltd'',
       vInterest = [], vMessage = js ''Please send me a quote.''\<rparr>"
    and some: "js ''Qwrtpsdf Ltd'' \<noteq> []"
    by (simp_all add: more_sample_defs sample_defs string_defs field_defs)
  note inst = invalid_organization[of "world_at 1000" gibberish_org_request initial "js ''token''"]
  have "resp (handler (world_at 1000) gibberish_org_request initial) =
       \<lparr>status = 400, ok = False, error = Some (js ''Invalid organization.'')\<rparr> \<and>
     state (handler (world_at 1000) gibberish_org_request initial) =
       markBad jane_ip 1000 1000 (initial\<lparr>hits := [\<lparr>ip = jane_ip, time = 1000\<rparr>]\<rparr>)"
    using inst admitted_initial[OF facts(1,2,3)] facts fields some text_literals
      jane_email_ok jane_name_ok gibberish_org
    by (simp add: world_clock gate_state_initial)
  moreover have "vOrg (normalize_inputs (world_at 1000) (body jane_request)) = []"
    by (simp add: jane_body jane_fields)
  moreover from this invalid_organization[of "world_at 1000" jane_request initial]
  have "error (resp (handler (world_at 1000) jane_request initial)) \<noteq> Some (js ''Invalid organization.'')"
    by blast
  ultimately show ?thesis
    using facts fields gibberish_org by (simp add: markBad_badHits initial_def)
qed

text \<open>
  Claim C6, as amended. For every request that reaches the field validation with the
  email \<open>not-an-email\<close>, the reply is a 400. Its error is \<open>Invalid email.\<close> (and a bad event
  is recorded) when the name and the message are non-empty after trimming, whatever else
  is wrong with them or with the other fields; when the name or the message is empty,
  the error is \<open>name, email and message are required.\<close>
\<close>

theorem not_an_email_rejected:
  "admitted e r t \<and> turnstile_response (body r) = Some token \<and> token \<noteq> [] \<and>
   siteverify e = Returns True \<and> email (body r) = Some (js ''not-an-email'') \<longrightarrow>
     status (resp (handler e r t)) = 400 \<and>
     (vName (normalize_inputs e (body r)) \<noteq> [] \<and> vMessage (normalize_inputs e (body r)) \<noteq> [] \<longrightarrow>
        resp (handler e r t) = \<lparr>status = 400, ok = False, error = Some (js ''Invalid email.'')\<rparr> \<and>
        state (handler e r t) =
          markBad (client_ip r) (now_markBad e) (now_punish e) (gate_state e r t)) \<and>
     (vName (normalize_inputs e (body r)) = [] \<or> vMessage (normalize_inputs e (body r)) = [] \<longrightarrow>
        resp (handler e r t) =
          \<lparr>status = 400, ok = False, error = Some (js ''name, email and message are required.'')\<rparr>)"
proof
  assume a: "admitted e r t \<and> turnstile_response (body r) = Some token \<and> token \<noteq> [] \<and>
   siteverify e = Returns True \<and> email (body r) = Some (js ''not-an-email'')"
  then have mail: "vEmail (normalize_inputs e (body r)) = js ''not-an-email''"
    by (simp add: vEmail_not_an_email)
  let ?f = "normalize_inputs e (body r)"
  show "status (resp (handler e r t)) = 400 \<and>
     (vName ?f \<noteq> [] \<and> vMessage ?f \<noteq> [] \<longrightarrow>
        resp (handler e r t) = \<lparr>status = 400, ok = False, error = Some (js ''Invalid email.'')\<rparr> \<and>
        state (handler e r t) =
          markBad (client_ip r) (now_markBad e) (now_punish e) (gate_state e r t)) \<and>
     (vName ?f = [] \<or> vMessage ?f = [] \<longrightarrow>
        resp (handler e r t) =
          \<lparr>status = 400, ok = False, error = Some (js ''name, email and message are required.'')\<rparr>)"
  proof (cases "vName ?f = [] \<or> vMessage ?f = []")
    case True
    then have "check_fields e (client_ip r) ?f (gate_state e r t) =
        Some (reject 400 (js ''name, email and message are required.''), gate_state e r t)"
      using check_fields_required[of ?f] by blast
    with a have "handler e r t =
        \<lparr>resp = reject 400 (js ''name, email and message are required.''),
         effects = [Fetch_siteverify (orText (process_env e ''TURNSTILE_SECRET_KEY'') []) token
                      (client_ip r)],
         state = gate_state e r t\<rparr>"
      by (simp add: handler_of_admitted after_gates_fields)
    with True show ?thesis
      by (auto simp: reject_def)
  next
    case False
    then have "check_fields e (client_ip r) ?f (gate_state e r t) =
        Some (reject 400 (js ''Invalid email.''),
              markBad (client_ip r) (now_markBad e) (now_punish e) (gate_state e r t))"
      using check_fields_email[of ?f] mail not_an_email text_literals(3) by simp
    with a have "handler e r t =
        \<lparr>resp = reject 400 (js ''Invalid email.''),
         effects = [Fetch_siteverify (orText (process_env e ''TURNSTILE_SECRET_KEY'') []) token
                      (client_ip r)],
         state = markBad (client_ip r) (now_markBad e) (now_punish e) (gate_state e r t)\<rparr>"
      by (simp add: handler_of_admitted after_gates_fields)
    with False show ?thesis
      by (auto simp: reject_def)
  qed
qed

theorem not_an_email_rejected_witness:
  "email (body probe_fields) = Some (js ''not-an-email'') \<and>
   vName (normalize_inputs (world_at 1000) (body probe_fields)) = js ''Jane Doe'' \<and>
   resp (handler (world_at 1000) probe_fields initial) =
     \<lparr>status = 400, ok = False, error = Some (js ''Invalid email.'')\<rparr> \<and>
   email (body nameless_probe) = Some (js ''not-an-email'') \<and>
   vName (normalize_inputs (world_at 1000) (body nameless_probe)) = [] \<and>
   resp (handler (world_at 1000) nameless_probe initial) =
     \<lparr>status = 400, ok = False, error = Some (js ''name, email and message are required.'')\<rparr>"
proof -
  have given: "email (body probe_fields) = Some (js ''not-an-email'')"
    and nameless: "req_method nameless_probe = js ''POST''" "is_json (world_at 1000) nameless_probe"
      "\<not> honeypot (body nameless_probe)"
      "turnstile_response (body nameless_probe) = Some (js ''token'')"
      "email (body nameless_probe) = Some (js ''not-an-email'')"
      "vName (normalize_inputs (world_at 1000) (body nameless_probe)) = []"
    by (simp_all add: more_sample_defs sample_defs string_defs field_defs)
  have first: "resp (handler (world_at 1000) probe_fields initial) =
     \<lparr>status = 400, ok = False, error = Some (js ''Invalid email.'')\<rparr>"
    using not_an_email_rejected[of "world_at 1000" probe_fields initial "js ''token''"]
      probe_fields_gates admitted_initial[of probe_fields "world_at 1000"] given text_literals
    by (simp add: world_clock probe_fields_values)
  have second: "resp (handler (world_at 1000) nameless_probe initial) =
     \<lparr>status = 400, ok = False, error = Some (js ''name, email and message are required.'')\<rparr>"
    using not_an_email_rejected[of "world_at 1000" nameless_probe initial "js ''token''"]
      nameless admitted_initial[OF nameless(1,2,3)] text_literals
    by (simp add: world_clock)
  from given nameless first second show ?thesis
    by (simp add: probe_fields_values)
qed

text \<open>
  The claim as the spec words it promises the invalid-email error whatever the other
  fields are. The check of the required fields comes first in the source: with the
  name missing, the error is the one of the required fields.
\<close>

theorem not_an_email_counterexample:
  "email (body nameless_probe) = Some (js ''not-an-email'') \<and>
   admitted (world_at 1000) nameless_probe initial \<and>
   turnstile_response (body nameless_probe) = Some (js ''token'') \<and>
   siteverify (world_at 1000) = Returns True \<and>
   error (resp (handler (world_at 1000) nameless_probe initial)) =
     Some (js ''name, email and message are required.'') \<and>
   error (resp (handler (world_at 1000) nameless_probe initial)) \<noteq> Some (js ''Invalid email.'')"
proof -
  have nameless: "req_method nameless_probe = js ''POST''" "is_json (world_at 1000) nameless_probe"
      "\<not> honeypot (body nameless_probe)"
      "turnstile_response (body nameless_probe) = Some (js ''token'')"
      "email (body nameless_probe) = Some (js ''not-an-email'')"
      "vName (normalize_inputs (world_at 1000) (body nameless_probe)) = []"
    by (simp_all add: more_sample_defs sample_defs string_defs field_defs)
  note adm = admitted_initial[OF nameless(1,2,3)]
  have "check_fields (world_at 1000) (client_ip nameless_probe)
      (normalize_inputs (world_at 1000) (body nameless_probe)) (gate_state (world_at 1000) nameless_probe initial) =
      Some (reject 400 (js ''name, email and message are required.''),
            gate_state (world_at 1000) nameless_probe initial)"
    using nameless(6) by (simp add: check_fields_required)
  with adm nameless text_literals(1)
  have "resp (handler (world_at 1000) nameless_probe initial) =
      reject 400 (js ''name, email and message are required.'')"
    by (simp add: handler_of_admitted after_gates_fields world_clock)
  then have "error (resp (handler (world_at 1000) nameless_probe initial)) =
      Some (js ''name, email and message are required.'')"
    by (simp add: reject_def)
  moreover have "js ''name, email and message are required.'' \<noteq> js ''Invalid email.''"
    by (simp add: js_def)
  ultimately show ?thesis
    using adm nameless by (simp add: world_clock)
qed

text \<open>
  Claim C4. The claim asks that every failure of the field validation records a bad
  event. The source calls \<open>markBad\<close> where the email, the name, the organization or the
  message is refused, and not where a required field is missing: a submission with no
  name gets the 400 of the required fields and leaves \<open>badHits\<close> empty, while one with
  the email \<open>not-an-email\<close> gets its 400 and one bad event.
\<close>

theorem missing_name_leaves_no_bad_event:
  "resp (handler (world_at 1000) nameless_request initial) =
     \<lparr>status = 400, ok = False, error = Some (js ''name, email and message are required.'')\<rparr> \<and>
   badHits (state (handler (world_at 1000) nameless_request initial)) = [] \<and>
   resp (handler (world_at 1000) probe_fields initial) =
     \<lparr>status = 400, ok = False, error = Some (js ''Invalid email.'')\<rparr> \<and>
   badHits (state (handler (world_at 1000) probe_fields initial)) = [\<lparr>ip = jane_ip, time = 1000\<rparr>]"
proof -
  have nameless: "req_method nameless_request = js ''POST''" "is_json (world_at 1000) nameless_request"
      "\<not> honeypot (body nameless_request)"
      "turnstile_response (body nameless_request) = Some (js ''token'')"
      "vName (normalize_inputs (world_at 1000) (body nameless_request)) = []"
    by (simp_all add: more_sample_defs sample_defs string_defs field_defs)
  note adm = admitted_initial[OF nameless(1,2,3)]
  have "check_fields (world_at 1000) (client_ip nameless_request)
      (normalize_inputs (world_at 1000) (body nameless_request)) (gate_state (world_at 1000) nameless_request initial) =
      Some (reject 400 (js ''name, email and message are required.''),
            gate_state (world_at 1000) nameless_request initial)"
    using nameless(5) by (simp add: check_fields_required)
  with adm nameless text_literals(1)
  have one: "handler (world_at 1000) nameless_request initial =
      \<lparr>resp = reject 400 (js ''name, email and message are required.''),
       effects = [Fetch_siteverify [] (js ''token'') (client_ip nameless_request)],
       state = gate_state (world_at 1000) nameless_request initial\<rparr>"
    by (simp add: handler_of_admitted after_gates_fields world_clock orText_def)
  have two: "handler (world_at 1000) probe_fields initial =
      \<lparr>resp = reject 400 (js ''Invalid email.''),
       effects = [Fetch_siteverify [] (js ''token'') jane_ip],
       state = markBad jane_ip 1000 1000 (gate_state (world_at 1000) probe_fields initial)\<rparr>"
    using probe_fields_gates admitted_initial[of probe_fields "world_at 1000"] text_literals(1)
    by (simp add: handler_of_admitted after_gates_fields[where token = "js ''token''"]
        check_fields_probe world_clock orText_def)
  show ?thesis
    by (simp add: one two reject_def gate_state_initial markBad_badHits) (simp add: initial_def)
qed

section \<open>Two more properties of the spec\<close>

lemma base64_blob_is_gibberish:
  assumes "20 \<le> length s" and "\<forall>c \<in> set s. isBase64Unit c"
  shows "looksGibberish s"
proof -
  have "test_anchored (atLeast_rep 20 (Chr isBase64Unit)) s"
    using assms by (simp add: test_anchored_def matches_lang lang_atLeast_rep)
  then show ?thesis
    by (simp add: looksGibberish_def Let_def)
qed

lemma check_fields_message:
  "vName f \<noteq> [] \<Longrightarrow> vEmail f \<noteq> [] \<Longrightarrow> vMessage f \<noteq> [] \<Longrightarrow>
   test_anchored emailRegex (vEmail f) \<Longrightarrow> hasTwoWords (vName f) \<Longrightarrow>
   \<not> looksGibberish (vName f) \<Longrightarrow> vOrg f = [] \<or> \<not> looksGibberish (vOrg f) \<Longrightarrow>
   looksGibberish (vMessage f) \<Longrightarrow>
     check_fields e i f t =
       Some (reject 400 (js ''Invalid message.''), markBad i (now_markBad e) (now_punish e) t)"
  by (auto simp: check_fields_def)

text \<open>
  A message that is a blob of base64 units, 20 or more of them, looks like gibberish
  whatever its letters are. A request that has passed every earlier check and whose
  normalised message is such a blob gets the reply 400
  \<open>{ok:false, error:"Invalid message."}\<close> and a bad event for the caller's IP.
\<close>

theorem base64_message_rejected:
  "admitted e r t \<and> turnstile_response (body r) = Some token \<and> token \<noteq> [] \<and>
   siteverify e = Returns True \<and>
   vName (normalize_inputs e (body r)) \<noteq> [] \<and> vEmail (normalize_inputs e (body r)) \<noteq> [] \<and>
   test_anchored emailRegex (vEmail (normalize_inputs e (body r))) \<and>
   hasTwoWords (vName (normalize_inputs e (body r))) \<and>
   \<not> looksGibberish (vName (normalize_inputs e (body r))) \<and>
   (vOrg (normalize_inputs e (body r)) = [] \<or> \<not> looksGibberish (vOrg (normalize_inputs e (body r)))) \<and>
   20 \<le> length (vMessage (normalize_inputs e (body r))) \<and>
   (\<forall>c \<in> set (vMessage (normalize_inputs e (body r))). isBase64Unit c) \<longrightarrow>
     resp (handler e r t) = \<lparr>status = 400, ok = False, error = Some (js ''Invalid message.'')\<rparr> \<and>
     state (handler e r t) =
       markBad (client_ip r) (now_markBad e) (now_punish e) (gate_state e r t) \<and>
     \<lparr>ip = client_ip r, time = now_markBad e\<rparr> \<in> set (badHits (state (handler e r t)))"
proof
  let ?f = "normalize_inputs e (body r)"
  assume a: "admitted e r t \<and> turnstile_response (body r) = Some token \<and> token \<noteq> [] \<and>
   siteverify e = Returns True \<and>
   vName ?f \<noteq> [] \<and> vEmail ?f \<noteq> [] \<and>
   test_anchored emailRegex (vEmail ?f) \<and>
   hasTwoWords (vName ?f) \<and>
   \<not> looksGibberish (vName ?f) \<and>
   (vOrg ?f = [] \<or> \<not> looksGibberish (vOrg ?f)) \<and>
   20 \<le> length (vMessage ?f) \<and>
   (\<forall>c \<in> set (vMessage ?f). isBase64Unit c)"
  then have "looksGibberish (vMessage ?f)" and "vMessage ?f \<noteq> []"
    using base64_blob_is_gibberish[of "vMessage ?f"] by auto
  with a have "check_fields e (client_ip r) ?f (gate_state e r t) =
      Some (reject 400 (js ''Invalid message.''),
            markBad (client_ip r) (now_markBad e) (now_punish e) (gate_state e r t))"
    using check_fields_message[of ?f] by blast
  with a have "handler e r t =
      \<lparr>resp = reject 400 (js ''Invalid message.''),
       effects = [Fetch_siteverify (orText (process_env e ''TURNSTILE_SECRET_KEY'') []) token
                    (client_ip r)],
       state = markBad (client_ip r) (now_markBad e) (now_punish e) (gate_state e r t)\<rparr>"
    by (simp add: handler_of_admitted after_gates_fields)
  then show "resp (handler e r t) = \<lparr>status = 400, ok = False, error = Some (js ''Invalid message.'')\<rparr> \<and>
     state (handler e r t) =
       markBad (client_ip r) (now_markBad e) (now_punish e) (gate_state e r t) \<and>
     \<lparr>ip = client_ip r, time = now_markBad e\<rparr> \<in> set (badHits (state (handler e r t)))"
    by (simp add: reject_def markBad_records)
qed

theorem base64_message_rejected_witness:
  "vMessage (normalize_inputs (world_at 1000) (body blob_request)) = js ''QWxhZGRpbjpvcGVuIHNlc2FtZQ=='' \<and>
   resp (handler (world_at 1000) blob_request initial) =
     \<lparr>status = 400, ok = False, error = Some (js ''Invalid message.'')\<rparr> \<and>
   badHits (state (handler (world_at 1000) blob_request initial)) = [\<lparr>ip = jane_ip, time = 1000\<rparr>]"
proof -
  have facts: "req_method blob_request = js ''POST''" "is_json (world_at 1000) blob_request"
    "\<not> honeypot (body blob_request)" "client_ip blob_request = jane_ip"
    "turnstile_response (body blob_request) = Some (js ''token'')"
    and fields: "normalize_inputs (world_at 1000) (body blob_request) =
      \<lparr>vName = js ''Jane Doe'', vEmail = js ''jane@example.com'', vOrg = [],
       vInterest = [], vMessage = js ''QWxhZGRpbjpvcGVuIHNlc2FtZQ==''\<rparr>"
    by (simp_all add: blob_request_def sample_defs string_defs field_defs)
  have blob: "20 \<le> length (js ''QWxhZGRpbjpvcGVuIHNlc2FtZQ=='') \<and>
      (\<forall>c \<in> set (js ''QWxhZGRpbjpvcGVuIHNlc2FtZQ==''). isBase64Unit c)"
    by (simp add: js_def isBase64Unit_def isLetter_def)
  have "resp (handler (world_at 1000) blob_request initial) =
       \<lparr>status = 400, ok = False, error = Some (js ''Invalid message.'')\<rparr> \<and>
     state (handler (world_at 1000) blob_request initial) =
       markBad jane_ip 1000 1000 (initial\<lparr>hits := [\<lparr>ip = jane_ip, time = 1000\<rparr>]\<rparr>)"
    using base64_message_rejected[of "world_at 1000" blob_request initial "js ''token''"]
      admitted_initial[OF facts(1,2,3)] facts fields blob text_literals
      jane_email_ok jane_name_ok
    by (simp add: world_clock gate_state_initial)
  then show ?thesis
    using fields by (simp add: markBad_badHits initial_def)
qed

text \<open>
  An admitted request with a verified token whose fields pass the validation, in a
  world with SMTP credentials and a relay that answers, gets \<open>{ok:true}\<close> and causes
  exactly one \<open>sendMail\<close>: from \<open>"SustTech Contact" <SMTP_USER>\<close>, the user the
  transporter authenticates as, with the submitter's normalised email as Reply-To.
\<close>

theorem one_mail_to_the_site:
  "admitted e r t \<and> turnstile_response (body r) = Some token \<and> token \<noteq> [] \<and>
   siteverify e = Returns True \<and>
   check_fields e (client_ip r) (normalize_inputs e (body r)) (gate_state e r t) = None \<and>
   truthy (SMTP_USER e) \<and> truthy (SMTP_PASS e) \<and>
   transporter_verify e = Returns () \<and> transporter_sendMail e = Returns () \<longrightarrow>
     resp (handler e r t) = \<lparr>status = 200, ok = True, error = None\<rparr> \<and>
     length (filter (\<lambda>x. case x of Transporter_sendMail tr m \<Rightarrow> True | _ \<Rightarrow> False)
       (effects (handler e r t))) = 1 \<and>
     (\<forall>tr m. Transporter_sendMail tr m \<in> set (effects (handler e r t)) \<longrightarrow>
        mail_from m = [0x22] @ js ''SustTech Contact'' @ [0x22] @ js '' <'' @
          orText (SMTP_USER e) [] @ js ''>'' \<and>
        replyTo m = vEmail (normalize_inputs e (body r)) \<and>
        auth_user tr = orText (SMTP_USER e) [])"
proof
  assume a: "admitted e r t \<and> turnstile_response (body r) = Some token \<and> token \<noteq> [] \<and>
   siteverify e = Returns True \<and>
   check_fields e (client_ip r) (normalize_inputs e (body r)) (gate_state e r t) = None \<and>
   truthy (SMTP_USER e) \<and> truthy (SMTP_PASS e) \<and>
   transporter_verify e = Returns () \<and> transporter_sendMail e = Returns ()"
  then have "handler e r t =
     \<lparr>resp = accept,
      effects = [Fetch_siteverify (orText (process_env e ''TURNSTILE_SECRET_KEY'') []) token
                   (client_ip r),
                 Transporter_verify (transporter e),
                 Transporter_sendMail (transporter e)
                   (compose e (client_ip r) (normalize_inputs e (body r)))],
      state = gate_state e r t\<rparr>"
    using handler_delivers[of e r t token] by blast
  then show "resp (handler e r t) = \<lparr>status = 200, ok = True, error = None\<rparr> \<and>
     length (filter (\<lambda>x. case x of Transporter_sendMail tr m \<Rightarrow> True | _ \<Rightarrow> False)
       (effects (handler e r t))) = 1 \<and>
     (\<forall>tr m. Transporter_sendMail tr m \<in> set (effects (handler e r t)) \<longrightarrow>
        mail_from m = [0x22] @ js ''SustTech Contact'' @ [0x22] @ js '' <'' @
          orText (SMTP_USER e) [] @ js ''>'' \<and>
        replyTo m = vEmail (normalize_inputs e (body r)) \<and>
        auth_user tr = orText (SMTP_USER e) [])"
    by (simp add: accept_def compose_def transporter_def)
qed

theorem one_mail_to_the_site_witness:
  "resp (handler (world_at 1000) jane_request initial) = \<lparr>status = 200, ok = True, error = None\<rparr> \<and>
   length (filter (\<lambda>x. case x of Transporter_sendMail tr m \<Rightarrow> True | _ \<Rightarrow> False)
     (effects (handler (world_at 1000) jane_request initial))) = 1 \<and>
   Transporter_sendMail (transporter (world_at 1000))
       (compose (world_at 1000) jane_ip (normalize_inputs (world_at 1000) jane_form))
     \<in> set (effects (handler (world_at 1000) jane_request initial)) \<and>
   replyTo (compose (world_at 1000) jane_ip (normalize_inputs (world_at 1000) jane_form)) = js ''jane@example.com'' \<and>
   mail_from (compose (world_at 1000) jane_ip (normalize_inputs (world_at 1000) jane_form)) =
     [0x22] @ js ''SustTech Contact'' @ [0x22] @ js '' <site@example.com>''"
proof -
  have sent: "Transporter_sendMail (transporter (world_at 1000))
       (compose (world_at 1000) jane_ip (normalize_inputs (world_at 1000) jane_form))
     \<in> set (effects (handler (world_at 1000) jane_request initial))"
    by (simp add: handler_jane)
  have hyps: "admitted (world_at 1000) jane_request initial \<and>
      turnstile_response (body jane_request) = Some (js ''token'') \<and> js ''token'' \<noteq> [] \<and>
      siteverify (world_at 1000) = Returns True \<and>
      check_fields (world_at 1000) (client_ip jane_request) (normalize_inputs (world_at 1000) (body jane_request))
        (gate_state (world_at 1000) jane_request initial) = None \<and>
      truthy (SMTP_USER (world_at 1000)) \<and> truthy (SMTP_PASS (world_at 1000)) \<and>
      transporter_verify (world_at 1000) = Returns () \<and>
      transporter_sendMail (world_at 1000) = Returns ()"
    using admitted_initial[OF jane_POST jane_json jane_no_honeypot] site_credentials[of 1000]
      text_literals(1)
    by (simp add: jane_body jane_token jane_check world_clock) (simp add: world_at_def)
  note inst = one_mail_to_the_site[of "world_at 1000" jane_request initial "js ''token''",
      rule_format, OF hyps]
  from inst sent have "mail_from (compose (world_at 1000) jane_ip (normalize_inputs (world_at 1000) jane_form)) =
      [0x22] @ js ''SustTech Contact'' @ [0x22] @ js '' <'' @
          orText (SMTP_USER (world_at 1000)) [] @ js ''>'' \<and>
      replyTo (compose (world_at 1000) jane_ip (normalize_inputs (world_at 1000) jane_form)) =
        vEmail (normalize_inputs (world_at 1000) (body jane_request))"
    by blast
  moreover have "orText (SMTP_USER (world_at 1000)) [] = js ''site@example.com''"
    by (simp add: SMTP_USER_def world_at_def site_env_def orElse_def truthy_def orText_def js_def)
  ultimately show ?thesis
    using inst sent by (simp add: jane_body jane_fields) (simp add: js_def)
qed

end
